(* ===== verification/Prelude.thy ===== *)
theory Prelude
  imports Main "HOL-Library.Word" "HOL-Library.AList" "HOL-Library.Multiset"
begin

text \<open>
  What the component theories share: results of fallible functions and the
  question-mark operator, machine integers with their byte serialisations,
  checked additions, and association lists standing for hash maps.
\<close>

section \<open>Machine integers and bytes\<close>

type_synonym u8 = "8 word"
type_synonym u16 = "16 word"
type_synonym u32 = "32 word"
type_synonym u64 = "64 word"
type_synonym u128 = "128 word"
type_synonym bytes = "u8 list"

text \<open>Little-endian digits in base 256, and back.\<close>

primrec nat_le :: "nat \<Rightarrow> nat \<Rightarrow> bytes" where
  "nat_le 0 x = []"
| "nat_le (Suc n) x = of_nat (x mod 256) # nat_le n (x div 256)"

primrec le_nat :: "bytes \<Rightarrow> nat" where
  "le_nat [] = 0"
| "le_nat (b # bs) = unat b + 256 * le_nat bs"

definition to_le_bytes :: "'a::len word \<Rightarrow> bytes" where
  "to_le_bytes w = nat_le (LENGTH('a) div 8) (unat w)"

definition from_le_bytes :: "bytes \<Rightarrow> 'a::len word" where
  "from_le_bytes bs = of_nat (le_nat bs)"

definition to_be_bytes :: "'a::len word \<Rightarrow> bytes" where
  "to_be_bytes w = rev (to_le_bytes w)"

definition from_be_bytes :: "bytes \<Rightarrow> 'a::len word" where
  "from_be_bytes bs = from_le_bytes (rev bs)"

text \<open>The method checked_add of an unsigned integer type: the sum, or nothing
  when it does not fit.\<close>

definition checked_add :: "'a::len word \<Rightarrow> 'a word \<Rightarrow> 'a word option" where
  "checked_add a b = (if unat a + unat b < 2 ^ LENGTH('a) then Some (a + b) else None)"

definition checked_sub :: "'a::len word \<Rightarrow> 'a word \<Rightarrow> 'a word option" where
  "checked_sub a b = (if b \<le> a then Some (a - b) else None)"

text \<open>The sum of a list of integers as an iterator of checked additions
  computes it.\<close>

primrec checked_sum_from :: "'a::len word \<Rightarrow> 'a word list \<Rightarrow> 'a word option" where
  "checked_sum_from acc [] = Some acc"
| "checked_sum_from acc (x # xs) =
     (case checked_add acc x of None \<Rightarrow> None | Some acc' \<Rightarrow> checked_sum_from acc' xs)"

section \<open>Results\<close>

text \<open>A Rust Result<T, E> is E + T: Inl is the
  error branch. The question-mark operator is rbind; a guard that
  returns early is require.\<close>

definition rbind :: "'e + 'a \<Rightarrow> ('a \<Rightarrow> 'e + 'b) \<Rightarrow> 'e + 'b" where
  "rbind m f = (case m of Inl e \<Rightarrow> Inl e | Inr x \<Rightarrow> f x)"

definition require :: "bool \<Rightarrow> 'e \<Rightarrow> 'e + unit" where
  "require b e = (if b then Inr () else Inl e)"

definition map_err :: "('e \<Rightarrow> 'f) \<Rightarrow> 'e + 'a \<Rightarrow> 'f + 'a" where
  "map_err f m = (case m of Inl e \<Rightarrow> Inl (f e) | Inr x \<Rightarrow> Inr x)"

definition ok_or :: "'a option \<Rightarrow> 'e \<Rightarrow> 'e + 'a" where
  "ok_or m e = (case m of None \<Rightarrow> Inl e | Some x \<Rightarrow> Inr x)"

definition is_ok :: "'e + 'a \<Rightarrow> bool" where
  "is_ok m = (case m of Inl _ \<Rightarrow> False | Inr _ \<Rightarrow> True)"

text \<open>A for loop whose body may return early, and the same loop with
  an accumulator.\<close>

primrec for_each :: "('a \<Rightarrow> 'e + unit) \<Rightarrow> 'a list \<Rightarrow> 'e + unit" where
  "for_each f [] = Inr ()"
| "for_each f (x # xs) = rbind (f x) (\<lambda>_. for_each f xs)"

primrec foldM :: "('s \<Rightarrow> 'a \<Rightarrow> 'e + 's) \<Rightarrow> 's \<Rightarrow> 'a list \<Rightarrow> 'e + 's" where
  "foldM f s [] = Inr s"
| "foldM f s (x # xs) = rbind (f s x) (\<lambda>s'. foldM f s' xs)"

primrec mapM :: "('a \<Rightarrow> 'e + 'b) \<Rightarrow> 'a list \<Rightarrow> 'e + 'b list" where
  "mapM f [] = Inr []"
| "mapM f (x # xs) = rbind (f x) (\<lambda>y. rbind (mapM f xs) (\<lambda>ys. Inr (y # ys)))"

text \<open>A function that may also panic (an expect, an unwrap, an index out of
  range, an explicit panic) returns its errors as faults: either the error value
  of the source or a panic.\<close>

datatype 'e fault = Fails 'e | Panics

definition may_fail :: "'e + 'a \<Rightarrow> 'e fault + 'a" where
  "may_fail m = map_err Fails m"

definition expect :: "'e + 'a \<Rightarrow> 'f fault + 'a" where
  "expect m = map_err (\<lambda>_. Panics) m"

definition err_into :: "('e \<Rightarrow> 'f) \<Rightarrow> 'e fault + 'a \<Rightarrow> 'f fault + 'a" where
  "err_into f m = map_err (\<lambda>x. case x of Fails e \<Rightarrow> Fails (f e) | Panics \<Rightarrow> Panics) m"

section \<open>Readers\<close>

text \<open>A reader is the bytes that are left. Reading an exact number of bytes fails at
  the end of the input.\<close>

definition read_exact :: "nat \<Rightarrow> bytes \<Rightarrow> (bytes \<times> bytes) option" where
  "read_exact n bs = (if length bs < n then None else Some (take n bs, drop n bs))"

fun read_u8 :: "bytes \<Rightarrow> (u8 \<times> bytes) option" where
  "read_u8 [] = None"
| "read_u8 (b # bs) = Some (b, bs)"

text \<open>The test of String::from_utf8: well-formed UTF-8, without overlong forms and
  surrogates.\<close>

definition in_range :: "u8 \<Rightarrow> u8 \<Rightarrow> u8 \<Rightarrow> bool" where
  "in_range lo hi b = (lo \<le> b \<and> b \<le> hi)"

fun is_utf8 :: "bytes \<Rightarrow> bool" where
  "is_utf8 [] = True"
| "is_utf8 (b # bs) =
     (if b < 0x80 then is_utf8 bs
      else if in_range 0xC2 0xDF b then
        (case bs of c # rest \<Rightarrow> in_range 0x80 0xBF c \<and> is_utf8 rest | _ \<Rightarrow> False)
      else if in_range 0xE0 0xEF b then
        (case bs of c # d # rest \<Rightarrow>
            in_range (if b = 0xE0 then 0xA0 else 0x80) (if b = 0xED then 0x9F else 0xBF) c
            \<and> in_range 0x80 0xBF d \<and> is_utf8 rest
         | _ \<Rightarrow> False)
      else if in_range 0xF0 0xF4 b then
        (case bs of c # d # e # rest \<Rightarrow>
            in_range (if b = 0xF0 then 0x90 else 0x80) (if b = 0xF4 then 0x8F else 0xBF) c
            \<and> in_range 0x80 0xBF d \<and> in_range 0x80 0xBF e \<and> is_utf8 rest
         | _ \<Rightarrow> False)
      else False)"

section \<open>Hash maps\<close>

text \<open>A hash map is an association list with distinct keys. The order of the
  list is the order in which an iteration visits it.\<close>

type_synonym ('k, 'v) hmap = "('k \<times> 'v) list"

abbreviation hget :: "('k, 'v) hmap \<Rightarrow> 'k \<Rightarrow> 'v option" where
  "hget m k \<equiv> map_of m k"

abbreviation hinsert :: "'k \<Rightarrow> 'v \<Rightarrow> ('k, 'v) hmap \<Rightarrow> ('k, 'v) hmap" where
  "hinsert k v m \<equiv> AList.update k v m"

abbreviation hremove :: "'k \<Rightarrow> ('k, 'v) hmap \<Rightarrow> ('k, 'v) hmap" where
  "hremove k m \<equiv> AList.delete k m"

definition hcontains :: "('k, 'v) hmap \<Rightarrow> 'k \<Rightarrow> bool" where
  "hcontains m k = (map_of m k \<noteq> None)"

definition hget_or :: "('k, 'v) hmap \<Rightarrow> 'k \<Rightarrow> 'v \<Rightarrow> 'v" where
  "hget_or m k d = (case map_of m k of None \<Rightarrow> d | Some v \<Rightarrow> v)"

section \<open>Lemma collections\<close>

named_theorems codec_simps \<open>rules that rewrite a decoder applied to an encoding\<close>
named_theorems result_simps \<open>inversion of successful results\<close>

section \<open>Bytes: lemmas\<close>

lemma unat_bound: "unat w < 2 ^ LENGTH('a)" for w :: "'a::len word"
  by (rule unsigned_less)

lemma length_nat_le [simp]: "length (nat_le n x) = n"
  by (induction n arbitrary: x) simp_all

lemma unat_of_nat_byte: "unat (of_nat (x mod 256) :: u8) = x mod 256"
  by (simp add: unat_of_nat)

lemma le_nat_nat_le: "le_nat (nat_le n x) = x mod 256 ^ n"
proof (induction n arbitrary: x)
  case (Suc n)
  have "x mod 256 ^ Suc n = x mod 256 + 256 * (x div 256 mod 256 ^ n)"
    using mod_mult2_eq [of x 256 "256 ^ n"] by simp
  then show ?case
    by (simp add: Suc unat_of_nat_byte)
qed simp

lemma nat_le_le_nat: "length bs = n \<Longrightarrow> nat_le n (le_nat bs) = bs"
proof (induction bs arbitrary: n)
  case (Cons b bs)
  have b: "unat b < 256"
    using unat_bound [of b] by simp
  then show ?case
    using Cons by (auto simp: div_add1_eq)
qed simp

lemma le_nat_less: "le_nat bs < 256 ^ length bs"
proof (induction bs)
  case (Cons b bs)
  have "unat b < 256"
    using unat_bound [of b] by simp
  with Cons have "unat b + 256 * le_nat bs < 256 * (le_nat bs + 1)"
    by simp
  also have "\<dots> \<le> 256 * 256 ^ length bs"
    using Cons by (intro mult_le_mono2) simp
  finally show ?case by simp
qed simp

lemma pow256_len:
  assumes "8 dvd n" shows "(256::nat) ^ (n div 8) = 2 ^ n"
proof -
  have "(256::nat) ^ (n div 8) = (2 ^ 8) ^ (n div 8)" by simp
  also have "\<dots> = 2 ^ (8 * (n div 8))" by (simp only: power_mult)
  finally show ?thesis using assms by simp
qed

lemma length_to_le_bytes [simp]: "length (to_le_bytes (w :: 'a::len word)) = LENGTH('a) div 8"
  by (simp add: to_le_bytes_def)

lemma length_to_be_bytes [simp]: "length (to_be_bytes (w :: 'a::len word)) = LENGTH('a) div 8"
  by (simp add: to_be_bytes_def)

lemma from_to_le_bytes [simp, codec_simps]:
  assumes "8 dvd LENGTH('a)"
  shows "from_le_bytes (to_le_bytes w) = (w :: 'a::len word)"
proof -
  have "unat w < 2 ^ LENGTH('a)" by (rule unat_bound)
  then show ?thesis
    by (simp add: from_le_bytes_def to_le_bytes_def le_nat_nat_le pow256_len [OF assms])
qed

lemma from_to_be_bytes [simp, codec_simps]:
  "8 dvd LENGTH('a) \<Longrightarrow> from_be_bytes (to_be_bytes w) = (w :: 'a::len word)"
  by (simp add: from_be_bytes_def to_be_bytes_def)

lemma to_from_le_bytes:
  assumes "8 dvd LENGTH('a)" and "length bs = LENGTH('a) div 8"
  shows "to_le_bytes (from_le_bytes bs :: 'a::len word) = bs"
proof -
  have "le_nat bs < 2 ^ LENGTH('a)"
    using le_nat_less [of bs] assms pow256_len by metis
  then have "unat (of_nat (le_nat bs) :: 'a word) = le_nat bs"
    by (simp add: unat_of_nat)
  then show ?thesis
    using assms by (simp add: from_le_bytes_def to_le_bytes_def nat_le_le_nat)
qed

lemma to_from_be_bytes:
  "8 dvd LENGTH('a) \<Longrightarrow> length bs = LENGTH('a) div 8 \<Longrightarrow>
    to_be_bytes (from_be_bytes bs :: 'a::len word) = bs"
  by (simp add: from_be_bytes_def to_be_bytes_def to_from_le_bytes)

lemma read_exact_append [simp, codec_simps]:
  "length a = n \<Longrightarrow> read_exact n (a @ rest) = Some (a, rest)"
  by (auto simp: read_exact_def)

section \<open>Checked additions: lemmas\<close>

lemma checked_add_Some:
  "checked_add a b = Some c \<longleftrightarrow> unat c = unat a + unat b" for a b c :: "'a::len word"
proof
  assume "checked_add a b = Some c"
  then show "unat c = unat a + unat b"
    by (auto simp: checked_add_def unat_word_ariths split: if_splits)
next
  assume c: "unat c = unat a + unat b"
  then have "unat a + unat b < 2 ^ LENGTH('a)"
    using unat_bound [of c] by simp
  moreover have "c = a + b"
    using arg_cong [OF c, of "of_nat :: nat \<Rightarrow> 'a word"] by simp
  ultimately show "checked_add a b = Some c"
    by (simp add: checked_add_def)
qed

lemma checked_add_None:
  "checked_add a b = None \<longleftrightarrow> 2 ^ LENGTH('a) \<le> unat a + unat b" for a b :: "'a::len word"
  by (auto simp: checked_add_def)

lemma checked_sum_from_Some:
  "checked_sum_from acc xs = Some s \<longleftrightarrow> unat s = unat acc + sum_list (map unat xs)"
  for acc s :: "'a::len word"
proof (induction xs arbitrary: acc)
  case Nil
  show ?case by (auto simp: word_unat_eq_iff)
next
  case (Cons x xs)
  show ?case
  proof (cases "checked_add acc x")
    case None
    then have "unat s < unat acc + unat x"
      using order_less_le_trans [OF unat_bound] by (auto simp: checked_add_None)
    with None show ?thesis by simp
  next
    case (Some a)
    then have "unat a = unat acc + unat x" by (simp add: checked_add_Some)
    with Some show ?thesis by (simp add: Cons add.assoc)
  qed
qed

section \<open>Results: lemmas\<close>

lemma rbind_simps [simp]:
  "rbind (Inl e) f = Inl e"
  "rbind (Inr x) f = f x"
  by (simp_all add: rbind_def)

lemma rbind_Inr_iff [result_simps]:
  "rbind m f = Inr v \<longleftrightarrow> (\<exists>x. m = Inr x \<and> f x = Inr v)"
  by (cases m) simp_all

lemma rbind_Inl_iff:
  "rbind m f = Inl e \<longleftrightarrow> m = Inl e \<or> (\<exists>x. m = Inr x \<and> f x = Inl e)"
  by (cases m) simp_all

lemma require_Inr [simp, result_simps]: "require b e = Inr u \<longleftrightarrow> b"
  by (simp add: require_def)

lemma require_Inl [simp]: "require b e = Inl e' \<longleftrightarrow> \<not> b \<and> e' = e"
  by (auto simp: require_def)

lemma require_True [simp]: "require True e = Inr ()"
  by (simp add: require_def)

lemma map_err_simps [simp]:
  "map_err f (Inl e) = Inl (f e)"
  "map_err f (Inr x) = Inr x"
  by (simp_all add: map_err_def)

lemma map_err_Inr [simp, result_simps]: "map_err f m = Inr x \<longleftrightarrow> m = Inr x"
  by (cases m) simp_all

lemma ok_or_simps [simp]:
  "ok_or None e = Inl e"
  "ok_or (Some x) e = Inr x"
  by (simp_all add: ok_or_def)

lemma ok_or_Inr [simp, result_simps]: "ok_or m e = Inr x \<longleftrightarrow> m = Some x"
  by (cases m) simp_all

lemma is_ok_simps [simp]: "is_ok (Inr x)" "\<not> is_ok (Inl e)"
  by (simp_all add: is_ok_def)

lemma is_ok_iff: "is_ok m \<longleftrightarrow> (\<exists>x. m = Inr x)"
  by (cases m) simp_all

lemma for_each_Inr [result_simps]:
  "for_each f xs = Inr u \<longleftrightarrow> (\<forall>x\<in>set xs. f x = Inr ())"
  by (induction xs) (auto simp: rbind_Inr_iff)

lemma for_each_append:
  "for_each f (xs @ ys) = rbind (for_each f xs) (\<lambda>_. for_each f ys)"
proof (induction xs)
  case (Cons x xs)
  then show ?case by (cases "f x") simp_all
qed simp

lemma foldM_append: "foldM f s (xs @ ys) = rbind (foldM f s xs) (\<lambda>s'. foldM f s' ys)"
proof (induction xs arbitrary: s)
  case (Cons x xs)
  then show ?case by (cases "f s x") simp_all
qed simp

text \<open>An invariant of the loop body is an invariant of the loop.\<close>

lemma foldM_inv:
  assumes "foldM f s xs = Inr s'" and "P s"
    and "\<And>s x s'. x \<in> set xs \<Longrightarrow> P s \<Longrightarrow> f s x = Inr s' \<Longrightarrow> P s'"
  shows "P s'"
  using assms
proof (induction xs arbitrary: s)
  case (Cons x xs)
  then show ?case by (auto simp: rbind_Inr_iff)
qed simp

lemma fold_inv:
  assumes "P s" and "\<And>s x. x \<in> set xs \<Longrightarrow> P s \<Longrightarrow> P (f x s)"
  shows "P (fold f xs s)"
  using assms by (induction xs arbitrary: s) simp_all

lemma mapM_Inr_iff [result_simps]:
  "mapM f xs = Inr ys \<longleftrightarrow> list_all2 (\<lambda>x y. f x = Inr y) xs ys"
  by (induction xs arbitrary: ys) (auto simp: rbind_Inr_iff list_all2_Cons1)

lemma may_fail_simps [simp]:
  "may_fail (Inr x) = Inr x"
  "may_fail (Inl e) = Inl (Fails e)"
  by (simp_all add: may_fail_def)

lemma may_fail_Inr [simp, result_simps]: "may_fail m = Inr x \<longleftrightarrow> m = Inr x"
  by (simp add: may_fail_def)

lemma may_fail_Panics [simp]: "may_fail m \<noteq> Inl Panics"
  by (cases m) simp_all

lemma expect_Inr [simp, result_simps]: "expect m = Inr x \<longleftrightarrow> m = Inr x"
  by (simp add: expect_def)

lemma expect_simps [simp]:
  "expect (Inr x) = Inr x"
  "expect (Inl e) = Inl Panics"
  by (simp_all add: expect_def)

lemma err_into_Inr [simp, result_simps]: "err_into f m = Inr x \<longleftrightarrow> m = Inr x"
  by (simp add: err_into_def)

lemma err_into_Panics [simp]: "err_into f m = Inl Panics \<longleftrightarrow> m = Inl Panics"
  by (auto simp: err_into_def map_err_def split: sum.splits fault.splits)

section \<open>Hash maps: lemmas\<close>

lemma hcontains_iff [simp]: "hcontains m k \<longleftrightarrow> k \<in> fst ` set m"
  by (simp add: hcontains_def map_of_eq_None_iff)

lemma hget_update [simp]: "hget (hinsert k v m) k' = (if k' = k then Some v else hget m k')"
  by (simp add: update_conv')

lemma hget_delete [simp]: "hget (hremove k m) k' = (if k' = k then None else hget m k')"
  by (simp add: delete_conv')

lemma keys_update [simp]: "fst ` set (hinsert k v m) = insert k (fst ` set m)"
  by (simp add: dom_map_of_conv_image_fst [symmetric] update_conv')

lemma keys_delete [simp]: "fst ` set (hremove k m) = fst ` set m - {k}"
  by (simp add: dom_map_of_conv_image_fst [symmetric] delete_conv')

lemma hget_or_update [simp]:
  "hget_or (hinsert k v m) k' d = (if k' = k then v else hget_or m k' d)"
  by (simp add: hget_or_def)

lemma hget_or_Nil [simp]: "hget_or [] k d = d"
  by (simp add: hget_or_def)

lemma distinct_hinsert [simp]:
  "distinct (map fst m) \<Longrightarrow> distinct (map fst (hinsert k v m))"
  by (rule distinct_update)

lemma distinct_hremove [simp]:
  "distinct (map fst m) \<Longrightarrow> distinct (map fst (hremove k m))"
  by (rule distinct_delete)

lemma length_hremove_less:
  "k \<in> fst ` set m \<Longrightarrow> length (hremove k m) < length m"
proof -
  assume "k \<in> fst ` set m"
  then obtain p where "p \<in> set m" "fst p = k" by auto
  then have "length (filter (\<lambda>q. k \<noteq> fst q) m) < length m"
    by (intro length_filter_less) auto
  then show ?thesis by (simp add: AList.delete_eq case_prod_unfold)
qed

end
