(* ===== verification/Bitcoin_Lib.thy ===== *)
theory Bitcoin_Lib
  imports Prelude
begin

text \<open>
  The vocabulary the program takes from rust-bitcoin, secp256k1 and serde_json:
  keys, scripts, outpoints and transactions as plain data, and the record lib of
  the functions of those packages the program calls. Every definition that calls
  one of them takes the record as its first argument, so nothing is assumed of
  them beyond the hypotheses a theorem states.
\<close>

section \<open>Data\<close>

type_synonym hash256 = "256 word"
type_synonym hash160 = "160 word"
type_synonym txid = hash256
type_synonym block_hash = hash256
type_synonym script = bytes

text \<open>A public key is its compressed serialisation of 33 bytes, read as one
  big-endian number; the order of keys is the order of those bytes.\<close>

datatype PublicKey = PublicKey "264 word"
datatype XOnlyPublicKey = XOnlyPublicKey "256 word"
datatype SecretKey = SecretKey "256 word"

text \<open>A JSON value stands for itself by its compact text.\<close>

datatype json = Json bytes

record OutPoint =
  op_txid :: txid
  op_vout :: u32

record TxIn =
  previous_output :: OutPoint
  script_sig :: script
  witness :: "bytes list"

record TxOut =
  txout_value :: u64
  script_pubkey :: script

record Transaction =
  tx_version :: u32
  tx_lock_time :: u32
  tx_input :: "TxIn list"
  tx_output :: "TxOut list"

text \<open>What a script iterates into, and what the script builder is fed.\<close>

datatype Instruction = Op u8 | PushBytes bytes

datatype builder_item =
    PushOpcode u8
  | PushSlice bytes
  | PushInt int
  | PushKey PublicKey
  | PushXOnlyKey XOnlyPublicKey
  | PushLockTime u32

text \<open>The opcodes the program names.\<close>

definition OP_RETURN :: u8 where "OP_RETURN = 0x6a"
definition OP_IF :: u8 where "OP_IF = 0x63"
definition OP_NOTIF :: u8 where "OP_NOTIF = 0x64"
definition OP_ELSE :: u8 where "OP_ELSE = 0x67"
definition OP_ENDIF :: u8 where "OP_ENDIF = 0x68"
definition OP_DROP :: u8 where "OP_DROP = 0x75"
definition OP_DUP :: u8 where "OP_DUP = 0x76"
definition OP_SIZE :: u8 where "OP_SIZE = 0x82"
definition OP_SWAP :: u8 where "OP_SWAP = 0x7c"
definition OP_EQUAL :: u8 where "OP_EQUAL = 0x87"
definition OP_EQUALVERIFY :: u8 where "OP_EQUALVERIFY = 0x88"
definition OP_HASH160 :: u8 where "OP_HASH160 = 0xa9"
definition OP_CHECKSIG :: u8 where "OP_CHECKSIG = 0xac"
definition OP_CHECKSIGVERIFY :: u8 where "OP_CHECKSIGVERIFY = 0xad"
definition OP_CHECKMULTISIG :: u8 where "OP_CHECKMULTISIG = 0xae"
definition OP_CLTV :: u8 where "OP_CLTV = 0xb1"
definition OP_CSV :: u8 where "OP_CSV = 0xb2"

section \<open>Functions of the packages\<close>

record lib =
  pk_from_slice :: "bytes \<Rightarrow> PublicKey option"
  xonly_from_slice :: "bytes \<Rightarrow> XOnlyPublicKey option"
  xonly_public_key :: "XOnlyPublicKey \<Rightarrow> PublicKey"
  pk_x_only :: "PublicKey \<Rightarrow> XOnlyPublicKey"
  add_exp_tweak :: "PublicKey \<Rightarrow> hash256 \<Rightarrow> PublicKey option"
  sk_add_tweak :: "SecretKey \<Rightarrow> hash256 \<Rightarrow> SecretKey option"
  sk_public_key :: "SecretKey \<Rightarrow> PublicKey"
  scalar_in_range :: "hash256 \<Rightarrow> bool"
  sha256 :: "bytes \<Rightarrow> hash256"
  hash160_of :: "bytes \<Rightarrow> hash160"
  wpubkey_hash :: "PublicKey \<Rightarrow> hash160 option"
  new_p2wpkh :: "hash160 \<Rightarrow> script"
  new_p2wsh :: "hash256 \<Rightarrow> script"
  new_p2pkh :: "hash160 \<Rightarrow> script"
  new_p2sh :: "hash160 \<Rightarrow> script"
  to_p2wsh :: "script \<Rightarrow> script"
  wscript_hash :: "script \<Rightarrow> hash256"
  new_p2tr :: "XOnlyPublicKey \<Rightarrow> script"
  new_p2tr_tweaked :: "XOnlyPublicKey \<Rightarrow> script"
  taproot_add_leaf :: "u8 \<Rightarrow> script \<Rightarrow> bytes option"
  taproot_finalize :: "bytes \<Rightarrow> XOnlyPublicKey \<Rightarrow> XOnlyPublicKey option"
  locktime_from_height :: "u32 \<Rightarrow> u32 option"
  ecdsa_sig_from_slice :: "bytes \<Rightarrow> bytes option"
  is_coinbase :: "Transaction \<Rightarrow> bool"
  is_op_return :: "script \<Rightarrow> bool"
  is_p2pkh :: "script \<Rightarrow> bool"
  is_p2sh :: "script \<Rightarrow> bool"
  is_p2wpkh :: "script \<Rightarrow> bool"
  is_p2wsh :: "script \<Rightarrow> bool"
  is_p2tr :: "script \<Rightarrow> bool"
  instructions :: "script \<Rightarrow> (unit + Instruction) list"
  build_script :: "builder_item list \<Rightarrow> script"
  ecdsa_from_der :: "bytes \<Rightarrow> bytes option"
  ecdsa_from_compact :: "bytes \<Rightarrow> bytes option"
  schnorr_from_slice :: "bytes \<Rightarrow> bytes option"
  secret_from_slice :: "bytes \<Rightarrow> SecretKey option"
  verify_ecdsa :: "bytes \<Rightarrow> hash256 \<Rightarrow> PublicKey \<Rightarrow> bool"
  verify_schnorr :: "bytes \<Rightarrow> hash256 \<Rightarrow> XOnlyPublicKey \<Rightarrow> bool"
  json_to_vec :: "json \<Rightarrow> bytes option"
  json_from_slice :: "bytes \<Rightarrow> json option"
  json_to_exit_metadata :: "json \<Rightarrow> (hash256 \<times> u32) option"
  hash_to_string :: "hash256 \<Rightarrow> bytes"
  tx_txid :: "Transaction \<Rightarrow> txid"

section \<open>Keys\<close>

primrec pk_serialize :: "PublicKey \<Rightarrow> bytes" where
  "pk_serialize (PublicKey w) = to_be_bytes w"

primrec secret_bytes :: "SecretKey \<Rightarrow> bytes" where
  "secret_bytes (SecretKey w) = to_be_bytes w"

primrec xonly_serialize :: "XOnlyPublicKey \<Rightarrow> bytes" where
  "xonly_serialize (XOnlyPublicKey w) = to_be_bytes w"

text \<open>A key that the library accepts: the parser returns it from its own
  serialisation.\<close>

definition valid_key :: "lib \<Rightarrow> PublicKey \<Rightarrow> bool" where
  "valid_key L k = (pk_from_slice L (pk_serialize k) = Some k)"

instantiation PublicKey :: linorder
begin

primrec key_word :: "PublicKey \<Rightarrow> 264 word" where
  "key_word (PublicKey w) = w"

definition less_eq_PublicKey :: "PublicKey \<Rightarrow> PublicKey \<Rightarrow> bool" where
  "less_eq_PublicKey a b = (key_word a \<le> key_word b)"

definition less_PublicKey :: "PublicKey \<Rightarrow> PublicKey \<Rightarrow> bool" where
  "less_PublicKey a b = (key_word a < key_word b)"

instance
proof
  fix a b c :: PublicKey
  show "(a < b) = (a \<le> b \<and> \<not> b \<le> a)"
    by (auto simp: less_PublicKey_def less_eq_PublicKey_def)
  show "a \<le> a"
    by (simp add: less_eq_PublicKey_def)
  show "a \<le> b \<Longrightarrow> b \<le> c \<Longrightarrow> a \<le> c"
    by (simp add: less_eq_PublicKey_def)
  show "a \<le> b \<Longrightarrow> b \<le> a \<Longrightarrow> a = b"
    by (cases a; cases b) (simp add: less_eq_PublicKey_def)
  show "a \<le> b \<or> b \<le> a"
    by (auto simp: less_eq_PublicKey_def)
qed

end

section \<open>An instance\<close>

text \<open>A concrete choice of the library functions, on which the hypotheses of the
  theorems are shown to be satisfiable. It is a toy in its algebra (keys add as
  numbers, the digest is a polynomial) and exact where the documented laws of
  the packages matter: parsing inverts serialising, building inverts iterating.\<close>

fun item_bytes :: "builder_item \<Rightarrow> bytes" where
  "item_bytes (PushOpcode c) = [0, c]"
| "item_bytes (PushSlice bs) = 1 # of_nat (length bs) # bs"
| "item_bytes (PushInt i) = [0, of_int (i + 0x50)]"
| "item_bytes (PushKey k) = 1 # 33 # pk_serialize k"
| "item_bytes (PushXOnlyKey k) = 1 # 32 # xonly_serialize k"
| "item_bytes (PushLockTime t) = 1 # 4 # to_le_bytes t"

fun item_parse :: "nat \<Rightarrow> bytes \<Rightarrow> (unit + Instruction) list" where
  "item_parse 0 bs = []"
| "item_parse (Suc n) [] = []"
| "item_parse (Suc n) [b] = [Inl ()]"
| "item_parse (Suc n) (b # c # bs) =
     (if b = 0 then Inr (Op c) # item_parse n bs
      else Inr (PushBytes (take (unat c) bs)) # item_parse n (drop (unat c) bs))"

definition lib0 :: lib where
  "lib0 = \<lparr>
     pk_from_slice = (\<lambda>bs. if length bs = 33 then Some (PublicKey (from_be_bytes bs)) else None),
     xonly_from_slice = (\<lambda>bs. if length bs = 32 then Some (XOnlyPublicKey (from_be_bytes bs)) else None),
     xonly_public_key = (\<lambda>x. case x of XOnlyPublicKey w \<Rightarrow> PublicKey (ucast w + push_bit 256 2)),
     pk_x_only = (\<lambda>k. case k of PublicKey w \<Rightarrow> XOnlyPublicKey (ucast w)),
     add_exp_tweak = (\<lambda>k t. case k of PublicKey w \<Rightarrow> Some (PublicKey (ucast (ucast w + t)))),
     sk_add_tweak = (\<lambda>k t. case k of SecretKey w \<Rightarrow> Some (SecretKey (w + t))),
     sk_public_key = (\<lambda>k. case k of SecretKey w \<Rightarrow> PublicKey (ucast w)),
     scalar_in_range = (\<lambda>_. True),
     sha256 = (\<lambda>bs. of_nat (foldl (\<lambda>a b. a * 257 + unat b + 1) 0 bs)),
     hash160_of = (\<lambda>bs. of_nat (foldl (\<lambda>a b. a * 257 + unat b + 1) 0 bs)),
     wpubkey_hash = (\<lambda>k. case k of PublicKey w \<Rightarrow> Some (ucast w)),
     new_p2wpkh = (\<lambda>h. 0 # 20 # to_be_bytes h),
     new_p2wsh = (\<lambda>h. 0 # 32 # to_be_bytes h),
     new_p2pkh = (\<lambda>h. 0x76 # 20 # to_be_bytes h),
     new_p2sh = (\<lambda>h. 0xa9 # 20 # to_be_bytes h),
     to_p2wsh = (\<lambda>s. 0 # 32 # to_be_bytes (of_nat (length s) :: hash256)),
     wscript_hash = (\<lambda>s. of_nat (length s)),
     new_p2tr = (\<lambda>x. 0x51 # 32 # xonly_serialize x),
     new_p2tr_tweaked = (\<lambda>x. 0x51 # 32 # xonly_serialize x),
     taproot_add_leaf = (\<lambda>d s. Some s),
     taproot_finalize = (\<lambda>s x. Some x),
     locktime_from_height = (\<lambda>h. if h < 500000000 then Some h else None),
     ecdsa_sig_from_slice = Some,
     is_coinbase = (\<lambda>t. tx_input t = []),
     is_op_return = (\<lambda>s. take 2 s = [0, OP_RETURN]),
     is_p2pkh = (\<lambda>s. False),
     is_p2sh = (\<lambda>s. False),
     is_p2wpkh = (\<lambda>s. take 2 s = [0, 20] \<and> length s = 22),
     is_p2wsh = (\<lambda>s. take 2 s = [0, 32] \<and> length s = 34),
     is_p2tr = (\<lambda>s. take 2 s = [0x51, 32] \<and> length s = 34),
     instructions = (\<lambda>s. item_parse (length s) s),
     build_script = (\<lambda>is. concat (map item_bytes is)),
     ecdsa_from_der = (\<lambda>_. None),
     ecdsa_from_compact = (\<lambda>b. if length b = 64 then Some b else None),
     schnorr_from_slice = (\<lambda>b. if length b = 64 then Some b else None),
     secret_from_slice = (\<lambda>b. if length b = 32 then Some (SecretKey (from_be_bytes b)) else None),
     verify_ecdsa = (\<lambda>s m k. s = to_be_bytes m),
     verify_schnorr = (\<lambda>s m k. s = to_be_bytes m),
     json_to_vec = (\<lambda>j. case j of Json t \<Rightarrow> Some t),
     json_from_slice = (\<lambda>t. Some (Json t)),
     json_to_exit_metadata = (\<lambda>j. case j of Json t \<Rightarrow>
       if length t = 36 then Some (from_be_bytes (take 32 t), from_be_bytes (drop 32 t)) else None),
     hash_to_string = to_be_bytes,
     tx_txid = (\<lambda>t. of_nat (length (tx_input t) + 256 * length (tx_output t)) + ucast (tx_lock_time t) * 65536)
   \<rparr>"

text \<open>What secp256k1 documents of its two tweaks: adding a scalar to a secret key adds the
  same multiple of the generator to its public key.\<close>

definition tweaks_agree :: "lib \<Rightarrow> bool" where
  "tweaks_agree L = (\<forall>s t s'. sk_add_tweak L s t = Some s' \<longrightarrow>
     add_exp_tweak L (sk_public_key L s) t = Some (sk_public_key L s'))"

section \<open>Keys: lemmas\<close>

lemma length_pk_serialize [simp]: "length (pk_serialize k) = 33"
  by (cases k) simp

lemma length_xonly_serialize [simp]: "length (xonly_serialize k) = 32"
  by (cases k) simp

lemma pk_serialize_inj [simp]: "pk_serialize a = pk_serialize b \<longleftrightarrow> a = b"
proof (cases a; cases b)
  fix v w assume ab: "a = PublicKey v" "b = PublicKey w"
  have "v = w" if "to_be_bytes v = to_be_bytes w"
    using arg_cong [OF that, of "from_be_bytes :: bytes \<Rightarrow> 264 word"] by simp
  with ab show ?thesis by auto
qed

lemma valid_key_parse [simp]: "valid_key L k \<Longrightarrow> pk_from_slice L (pk_serialize k) = Some k"
  by (simp add: valid_key_def)

lemma valid_key_lib0 [simp]: "valid_key lib0 k"
  by (cases k) (simp add: valid_key_def lib0_def)

lemma tweaks_agree_lib0 [simp]: "tweaks_agree lib0"
proof -
  have "ucast (ucast w :: 264 word) = w" for w :: "256 word"
    by (rule bit_word_eqI) (simp add: bit_simps)
  then show ?thesis
    by (simp add: tweaks_agree_def lib0_def split: SecretKey.splits)
qed

end
