(* ===== verification/Receipt.thy ===== *)
theory Receipt
  imports Bitcoin_Lib
begin

text \<open>
  Receipts (crates/receipts: receipt.rs, hash.rs, keys.rs): the amount and the
  token of a coin, their fixed-size byte encodings, the receipt hash, and the
  public and private keys that a receipt hash tweaks.
\<close>

section \<open>Token amounts\<close>

definition TOKEN_AMOUNT_SIZE :: nat where "TOKEN_AMOUNT_SIZE = 32"
definition AMOUNT_SIZE :: nat where "AMOUNT_SIZE = 16"
definition BLINDING_FACTOR_SIZE :: nat where
  "BLINDING_FACTOR_SIZE = TOKEN_AMOUNT_SIZE - AMOUNT_SIZE"
definition TOKEN_PUBKEY_SIZE :: nat where "TOKEN_PUBKEY_SIZE = 33"
definition RECEIPT_SIZE :: nat where "RECEIPT_SIZE = TOKEN_AMOUNT_SIZE + TOKEN_PUBKEY_SIZE"

text \<open>The blinding factor is an array of 16 bytes, read as one big-endian
  number.\<close>

record TokenAmount =
  amount :: u128
  blinding_factor :: "128 word"

definition TokenAmount_from :: "u128 \<Rightarrow> TokenAmount" where
  "TokenAmount_from a = \<lparr>amount = a, blinding_factor = 0\<rparr>"

datatype TokenAmountParseError = TokenAmount_InvalidSize nat

definition TokenAmount_from_array :: "bytes \<Rightarrow> TokenAmount" where
  "TokenAmount_from_array bs =
     \<lparr>amount = from_be_bytes (take AMOUNT_SIZE bs),
      blinding_factor = from_be_bytes (drop AMOUNT_SIZE bs)\<rparr>"

definition TokenAmount_from_bytes :: "bytes \<Rightarrow> TokenAmountParseError + TokenAmount" where
  "TokenAmount_from_bytes bs =
     (if length bs < TOKEN_AMOUNT_SIZE then Inl (TokenAmount_InvalidSize (length bs))
      else Inr (TokenAmount_from_array (take TOKEN_AMOUNT_SIZE bs)))"

definition TokenAmount_to_bytes :: "TokenAmount \<Rightarrow> bytes" where
  "TokenAmount_to_bytes a = to_be_bytes (amount a) @ to_be_bytes (blinding_factor a)"

section \<open>Tokens\<close>

datatype TokenPubkey = TokenPubkey (pubkey: PublicKey)

datatype TokenPubkeyParseError =
    TokenPubkey_InvalidSize nat
  | TokenPubkey_InvalidPublicKey
  | TokenPubkey_InvalidAddressType
  | TokenPubkey_InvalidWitnessProgramVersion nat
  | TokenPubkey_InvalidWitnessProgramLength nat

definition TokenPubkey_to_bytes :: "TokenPubkey \<Rightarrow> bytes" where
  "TokenPubkey_to_bytes t = pk_serialize (pubkey t)"

definition TokenPubkey_from_bytes :: "lib \<Rightarrow> bytes \<Rightarrow> TokenPubkeyParseError + TokenPubkey" where
  "TokenPubkey_from_bytes L bs =
     (if length bs < TOKEN_PUBKEY_SIZE then Inl (TokenPubkey_InvalidSize (length bs))
      else rbind (ok_or (pk_from_slice L bs) TokenPubkey_InvalidPublicKey)
                 (\<lambda>k. Inr (TokenPubkey k)))"

definition TokenPubkey_from_xonly :: "lib \<Rightarrow> XOnlyPublicKey \<Rightarrow> TokenPubkey" where
  "TokenPubkey_from_xonly L x = TokenPubkey (xonly_public_key L x)"

instantiation TokenPubkey :: linorder
begin

definition less_eq_TokenPubkey :: "TokenPubkey \<Rightarrow> TokenPubkey \<Rightarrow> bool" where
  "less_eq_TokenPubkey a b = (pubkey a \<le> pubkey b)"

definition less_TokenPubkey :: "TokenPubkey \<Rightarrow> TokenPubkey \<Rightarrow> bool" where
  "less_TokenPubkey a b = (pubkey a < pubkey b)"

instance
  by standard (auto simp: less_eq_TokenPubkey_def less_TokenPubkey_def TokenPubkey.expand)

end

text \<open>The key that marks an empty receipt: thirty-three bytes 0x02.\<close>

definition ZERO_PUBKEY_BYTES :: bytes where
  "ZERO_PUBKEY_BYTES = replicate 33 0x02"

definition ZERO_PUBLIC_KEY :: PublicKey where
  "ZERO_PUBLIC_KEY = PublicKey (from_be_bytes ZERO_PUBKEY_BYTES)"

section \<open>Receipts\<close>

record Receipt =
  token_amount :: TokenAmount
  token_pubkey :: TokenPubkey

datatype ReceiptParseError =
    Receipt_IncorrectSize nat
  | Receipt_InvalidTokenAmount TokenAmountParseError
  | Receipt_InvalidTokenPubkey TokenPubkeyParseError

definition Receipt_new :: "TokenAmount \<Rightarrow> TokenPubkey \<Rightarrow> Receipt" where
  "Receipt_new a t = \<lparr>token_amount = a, token_pubkey = t\<rparr>"

definition Receipt_empty :: Receipt where
  "Receipt_empty = Receipt_new (TokenAmount_from 0) (TokenPubkey ZERO_PUBLIC_KEY)"

definition Receipt_to_bytes :: "Receipt \<Rightarrow> bytes" where
  "Receipt_to_bytes r =
     TokenAmount_to_bytes (token_amount r) @ TokenPubkey_to_bytes (token_pubkey r)"

definition Receipt_from_bytes :: "lib \<Rightarrow> bytes \<Rightarrow> ReceiptParseError + Receipt" where
  "Receipt_from_bytes L bs =
     (if length bs < RECEIPT_SIZE then Inl (Receipt_IncorrectSize (length bs))
      else rbind (map_err Receipt_InvalidTokenAmount
                   (TokenAmount_from_bytes (take TOKEN_AMOUNT_SIZE bs))) (\<lambda>a.
           rbind (map_err Receipt_InvalidTokenPubkey
                   (TokenPubkey_from_bytes L
                     (drop TOKEN_AMOUNT_SIZE (take RECEIPT_SIZE bs)))) (\<lambda>t.
           Inr \<lparr>token_amount = a, token_pubkey = t\<rparr>)))"

section \<open>Receipt hashes\<close>

type_synonym ReceiptHash = hash256

text \<open>The input fed to the digest: the digest of the amount, then all 33 bytes of
  the token.\<close>

definition receipt_hash_engine :: "lib \<Rightarrow> Receipt \<Rightarrow> bytes" where
  "receipt_hash_engine L r =
     to_be_bytes (sha256 L (TokenAmount_to_bytes (token_amount r)))
       @ pk_serialize (pubkey (token_pubkey r))"

definition ReceiptHash_from :: "lib \<Rightarrow> Receipt \<Rightarrow> ReceiptHash" where
  "ReceiptHash_from L r = sha256 L (receipt_hash_engine L r)"

datatype ReceiptHashError = InvalidMetadataJson

text \<open>The conversion from a proof, given the receipt and the metadata the proof
  carries.\<close>

definition ReceiptHash_try_from ::
  "lib \<Rightarrow> Receipt \<Rightarrow> json option \<Rightarrow> ReceiptHashError + ReceiptHash" where
  "ReceiptHash_try_from L r md =
     (case md of
        None \<Rightarrow> Inr (sha256 L (receipt_hash_engine L r))
      | Some m \<Rightarrow>
          rbind (ok_or (json_to_vec L m) InvalidMetadataJson) (\<lambda>bs.
            Inr (sha256 L (receipt_hash_engine L r @ to_be_bytes (sha256 L bs)))))"

section \<open>Receipt keys\<close>

datatype ReceiptKeyError =
    Secp256k1Error
  | PublicKeyError
  | KeyReceiptHashError ReceiptHashError
  | ReceiptHashOutOfRange
  | UncompressedKey

datatype ReceiptKey = ReceiptKey (inner: PublicKey)
datatype ReceiptPrivateKey = ReceiptPrivateKey (secret: SecretKey)

definition receipthash_pubkey_hash :: "lib \<Rightarrow> ReceiptHash \<Rightarrow> PublicKey \<Rightarrow> hash256" where
  "receipthash_pubkey_hash L pxh k = sha256 L (to_be_bytes pxh @ pk_serialize k)"

definition receipt_hash_pubkey_scalar ::
  "lib \<Rightarrow> ReceiptHash \<Rightarrow> PublicKey \<Rightarrow> ReceiptKeyError + hash256" where
  "receipt_hash_pubkey_scalar L pxh k =
     (let h = receipthash_pubkey_hash L pxh k in
      if scalar_in_range L h then Inr h else Inl ReceiptHashOutOfRange)"

definition ReceiptKey_new_with_ctx ::
  "lib \<Rightarrow> ReceiptHash \<Rightarrow> PublicKey \<Rightarrow> ReceiptKeyError + ReceiptKey" where
  "ReceiptKey_new_with_ctx L pxh inner_key =
     rbind (receipt_hash_pubkey_scalar L pxh inner_key) (\<lambda>pxh_b.
     rbind (ok_or (add_exp_tweak L inner_key pxh_b) Secp256k1Error) (\<lambda>k.
     Inr (ReceiptKey k)))"

definition ReceiptKey_new ::
  "lib \<Rightarrow> ReceiptHash \<Rightarrow> PublicKey \<Rightarrow> ReceiptKeyError + ReceiptKey" where
  "ReceiptKey_new L pxh inner_key = ReceiptKey_new_with_ctx L pxh inner_key"

definition ReceiptKey_to_p2wpkh :: "lib \<Rightarrow> ReceiptKey \<Rightarrow> script option" where
  "ReceiptKey_to_p2wpkh L k = map_option (new_p2wpkh L) (wpubkey_hash L (inner k))"

definition ReceiptPrivateKey_new_with_ctx ::
  "lib \<Rightarrow> ReceiptHash \<Rightarrow> SecretKey \<Rightarrow> ReceiptKeyError + ReceiptPrivateKey" where
  "ReceiptPrivateKey_new_with_ctx L pxh inner_key =
     rbind (receipt_hash_pubkey_scalar L pxh (sk_public_key L inner_key)) (\<lambda>pxh_b.
     rbind (ok_or (sk_add_tweak L inner_key pxh_b) Secp256k1Error) (\<lambda>k.
     Inr (ReceiptPrivateKey k)))"

section \<open>Lemmas\<close>

lemmas receipt_sizes =
  TOKEN_AMOUNT_SIZE_def AMOUNT_SIZE_def TOKEN_PUBKEY_SIZE_def RECEIPT_SIZE_def

lemma TokenAmount_to_bytes_length [simp]: "length (TokenAmount_to_bytes a) = 32"
  by (simp add: TokenAmount_to_bytes_def)

lemma TokenPubkey_to_bytes_length [simp]: "length (TokenPubkey_to_bytes t) = 33"
  by (simp add: TokenPubkey_to_bytes_def)

lemma Receipt_to_bytes_length [simp]: "length (Receipt_to_bytes r) = 65"
  by (simp add: Receipt_to_bytes_def)

lemma TokenAmount_roundtrip [codec_simps]:
  "TokenAmount_from_bytes (TokenAmount_to_bytes a @ rest) = Inr a"
  by (simp add: TokenAmount_from_bytes_def TokenAmount_from_array_def TokenAmount_to_bytes_def
      receipt_sizes)

lemma TokenPubkey_roundtrip [codec_simps]:
  "valid_key L (pubkey t) \<Longrightarrow> TokenPubkey_from_bytes L (TokenPubkey_to_bytes t) = Inr t"
  by (simp add: TokenPubkey_from_bytes_def TokenPubkey_to_bytes_def receipt_sizes)

lemma Receipt_roundtrip_ext [codec_simps]:
  assumes "valid_key L (pubkey (token_pubkey r))"
  shows "Receipt_from_bytes L (Receipt_to_bytes r @ rest) = Inr r"
proof -
  have "drop 32 (take 65 (Receipt_to_bytes r @ rest)) = TokenPubkey_to_bytes (token_pubkey r)"
    by (simp add: Receipt_to_bytes_def)
  moreover have "take 32 (Receipt_to_bytes r @ rest) = TokenAmount_to_bytes (token_amount r) @ []"
    by (simp add: Receipt_to_bytes_def)
  ultimately show ?thesis
    using assms TokenAmount_roundtrip [of "token_amount r" "[]"]
    by (simp add: Receipt_from_bytes_def receipt_sizes TokenPubkey_roundtrip)
qed

section \<open>Properties\<close>

text \<open>C15. A receipt survives its 65-byte encoding: parsing what to_bytes writes,
  followed by any bytes, gives back the receipt, for every receipt whose token key
  the key parser accepts.\<close>

theorem receipt_bytes_roundtrip:
  assumes "valid_key L (pubkey (token_pubkey r))"
  shows "length (Receipt_to_bytes r) = RECEIPT_SIZE
    \<and> Receipt_from_bytes L (Receipt_to_bytes r @ rest) = Inr r"
  using assms by (simp add: Receipt_roundtrip_ext receipt_sizes)

theorem receipt_bytes_roundtrip_witness:
  "Receipt_from_bytes lib0 (Receipt_to_bytes Receipt_empty @ [7]) = Inr Receipt_empty"
  using receipt_bytes_roundtrip [of lib0 Receipt_empty "[7]"] by simp

text \<open>C14. The owner of a receipt can spend it: when the private receipt key is derived from
  a secret key and a receipt hash, the public receipt key derived from the matching public
  key and the same hash exists and is the public key of the private one. The hypothesis is
  what secp256k1 documents of its two tweak functions.\<close>

theorem receipt_key_pair:
  assumes "tweaks_agree L"
    and "ReceiptPrivateKey_new_with_ctx L pxh sk = Inr p"
  shows "ReceiptKey_new L pxh (sk_public_key L sk) = Inr (ReceiptKey (sk_public_key L (secret p)))"
  using assms
  by (auto simp: ReceiptPrivateKey_new_with_ctx_def ReceiptKey_new_def ReceiptKey_new_with_ctx_def
      rbind_Inr_iff tweaks_agree_def)

theorem receipt_key_pair_witness:
  "\<exists>p. ReceiptPrivateKey_new_with_ctx lib0 7 (SecretKey 5) = Inr p
    \<and> ReceiptKey_new lib0 7 (sk_public_key lib0 (SecretKey 5))
        = Inr (ReceiptKey (sk_public_key lib0 (secret p)))"
proof -
  obtain p where p: "ReceiptPrivateKey_new_with_ctx lib0 7 (SecretKey 5) = Inr p"
    by (simp add: ReceiptPrivateKey_new_with_ctx_def receipt_hash_pubkey_scalar_def lib0_def Let_def)
  with receipt_key_pair [OF tweaks_agree_lib0 p] show ?thesis by blast
qed

end
