(* ===== verification/Proof.thy ===== *)
theory Proof
  imports Receipt
begin

text \<open>
  Receipt proofs (crates/receipts/src/proof.rs and proof/): the eight kinds of
  proof of ownership of the default build (the bulletproof feature is off), what
  each of them exposes, and the checks of a proof against the input that spends
  it and the output that holds it.
\<close>

section \<open>The kinds of proof\<close>

record P2WPKHProof =
  sig_receipt :: Receipt
  sig_inner_key :: PublicKey
  sig_metadata :: "json option"

record EmptyReceiptProof =
  empty_inner_key :: PublicKey

record MultisigReceiptProof =
  ms_receipt :: Receipt
  ms_inner_keys :: "PublicKey list"
  ms_m :: u8

record ToLocalScript =
  revocation_pubkey :: PublicKey
  to_self_delay :: u16
  local_delayed_pubkey :: PublicKey

record LightningCommitmentProof =
  ln_receipt :: Receipt
  ln_data :: ToLocalScript

datatype HtlcScriptKind = Offered | Received u32

record LightningHtlcData =
  revocation_key_hash :: hash160
  remote_htlc_key :: PublicKey
  local_htlc_key :: PublicKey
  payment_hash :: hash160
  htlc_kind :: HtlcScriptKind

record LightningHtlcProof =
  htlc_receipt :: Receipt
  htlc_data :: LightningHtlcData

record P2WSHProof =
  wsh_receipt :: Receipt
  wsh_inner_key :: PublicKey
  wsh_script :: script

record TaprootProof =
  tr_receipt :: Receipt
  tr_inner_key :: PublicKey
  tr_metadata :: "json option"

record SparkExitScript =
  revocation_key :: PublicKey
  delay_key :: PublicKey
  exit_locktime :: u32

record SparkExitProof =
  exit_receipt :: Receipt
  exit_script :: SparkExitScript
  exit_metadata :: "json option"

datatype ReceiptProof =
    EmptyReceipt EmptyReceiptProof
  | Sig P2WPKHProof
  | Multisig MultisigReceiptProof
  | Lightning LightningCommitmentProof
  | LightningHtlc LightningHtlcProof
  | P2WSH P2WSHProof
  | P2TR TaprootProof
  | SparkExit SparkExitProof

section \<open>What a proof exposes\<close>

fun receipt :: "ReceiptProof \<Rightarrow> Receipt" where
  "receipt (Sig p) = sig_receipt p"
| "receipt (P2WSH p) = wsh_receipt p"
| "receipt (P2TR p) = tr_receipt p"
| "receipt (EmptyReceipt _) = Receipt_empty"
| "receipt (Multisig p) = ms_receipt p"
| "receipt (Lightning p) = ln_receipt p"
| "receipt (LightningHtlc p) = htlc_receipt p"
| "receipt (SparkExit p) = exit_receipt p"

fun metadata :: "ReceiptProof \<Rightarrow> json option" where
  "metadata (Sig p) = sig_metadata p"
| "metadata (P2TR p) = tr_metadata p"
| "metadata _ = None"

definition proof_amount :: "ReceiptProof \<Rightarrow> u128" where
  "proof_amount p = amount (token_amount (receipt p))"

definition is_zero_amount :: "ReceiptProof \<Rightarrow> bool" where
  "is_zero_amount p = (proof_amount p = 0)"

fun is_burn :: "ReceiptProof \<Rightarrow> bool" where
  "is_burn (Sig p) = (sig_inner_key p = ZERO_PUBLIC_KEY)"
| "is_burn _ = False"

fun is_empty_receiptproof :: "ReceiptProof \<Rightarrow> bool" where
  "is_empty_receiptproof (EmptyReceipt _) = True"
| "is_empty_receiptproof _ = False"

fun spender_keys :: "ReceiptProof \<Rightarrow> PublicKey list" where
  "spender_keys (Sig p) = [sig_inner_key p]"
| "spender_keys (Multisig p) = ms_inner_keys p"
| "spender_keys (P2TR p) = [tr_inner_key p]"
| "spender_keys (Lightning p) =
     [revocation_pubkey (ln_data p), local_delayed_pubkey (ln_data p)]"
| "spender_keys (LightningHtlc p) =
     [remote_htlc_key (htlc_data p), local_htlc_key (htlc_data p)]"
| "spender_keys (EmptyReceipt p) = [empty_inner_key p]"
| "spender_keys (P2WSH p) = [wsh_inner_key p]"
| "spender_keys (SparkExit p) = [delay_key (exit_script p)]"

section \<open>Shared checks\<close>

definition METADATA_MAX_SIZE :: nat where
  "METADATA_MAX_SIZE = 128 * 1024 * 1024"

definition check_metadata_size :: "lib \<Rightarrow> json option \<Rightarrow> unit + bool" where
  "check_metadata_size L md =
     (case md of
        Some m \<Rightarrow> rbind (ok_or (json_to_vec L m) ()) (\<lambda>bs. Inr (length bs \<le> METADATA_MAX_SIZE))
      | None \<Rightarrow> Inr True)"

text \<open>Tweaking a key by a receipt; the source calls expect on the result.\<close>

definition tweak :: "lib \<Rightarrow> PublicKey \<Rightarrow> Receipt \<Rightarrow> 'e fault + PublicKey" where
  "tweak L k r =
     rbind (expect (ReceiptKey_new L (ReceiptHash_from L r) k)) (\<lambda>key. Inr (inner key))"

definition maybe_tweak :: "lib \<Rightarrow> PublicKey \<Rightarrow> Receipt option \<Rightarrow> 'e fault + PublicKey" where
  "maybe_tweak L k r = (case r of Some r \<Rightarrow> tweak L k r | None \<Rightarrow> Inr k)"

section \<open>Single signatures and empty receipts\<close>

datatype P2WPKHWitnessParseError =
    P2WPKH_InvalidPublicKey
  | P2WPKH_InvalidSignature
  | P2WPKH_StackLengthMismatch

datatype P2WPKHProofError =
    P2WPKH_ReceiptKeyError ReceiptKeyError
  | P2WPKH_WitnessParseError P2WPKHWitnessParseError
  | P2WPKH_ScriptPubKeyMismatch
  | P2WPKH_PublicKeyMismatch
  | P2WPKH_EmptyReceiptUsage
  | P2WPKH_InvalidMetadata
  | P2WPKH_MetadataBytesOverflow

record P2WPKHWitness =
  wpkh_signature :: bytes
  wpkh_pubkey :: PublicKey

definition P2WPKHWitness_from_witness ::
  "lib \<Rightarrow> bytes list \<Rightarrow> P2WPKHWitnessParseError + P2WPKHWitness" where
  "P2WPKHWitness_from_witness L w =
     (case w of
        [sg, pk] \<Rightarrow>
          rbind (ok_or (ecdsa_sig_from_slice L sg) P2WPKH_InvalidSignature) (\<lambda>s.
          rbind (ok_or (pk_from_slice L pk) P2WPKH_InvalidPublicKey) (\<lambda>k.
          Inr \<lparr>wpkh_signature = s, wpkh_pubkey = k\<rparr>))
      | _ \<Rightarrow> Inl P2WPKH_StackLengthMismatch)"

text \<open>The hash of the receipt of a proof, with its metadata, as a receipt-key
  error.\<close>

definition proof_hash :: "lib \<Rightarrow> ReceiptProof \<Rightarrow> ReceiptKeyError + ReceiptHash" where
  "proof_hash L p =
     map_err KeyReceiptHashError (ReceiptHash_try_from L (receipt p) (metadata p))"

definition P2WPKH_check_by_parsed_witness_data ::
  "lib \<Rightarrow> P2WPKHProof \<Rightarrow> bytes \<Rightarrow> PublicKey \<Rightarrow> P2WPKHProofError + unit" where
  "P2WPKH_check_by_parsed_witness_data L p sg pk =
     rbind (map_err P2WPKH_ReceiptKeyError (proof_hash L (Sig p))) (\<lambda>pxh.
     rbind (map_err P2WPKH_ReceiptKeyError (ReceiptKey_new L pxh (sig_inner_key p))) (\<lambda>k.
     require (inner k = pk) P2WPKH_PublicKeyMismatch))"

definition P2WPKH_check_by_input :: "lib \<Rightarrow> P2WPKHProof \<Rightarrow> TxIn \<Rightarrow> P2WPKHProofError + unit" where
  "P2WPKH_check_by_input L p txin =
     rbind (map_err P2WPKH_WitnessParseError (P2WPKHWitness_from_witness L (witness txin))) (\<lambda>d.
     P2WPKH_check_by_parsed_witness_data L p (wpkh_signature d) (wpkh_pubkey d))"

definition P2WPKH_check_by_output :: "lib \<Rightarrow> P2WPKHProof \<Rightarrow> TxOut \<Rightarrow> P2WPKHProofError + unit" where
  "P2WPKH_check_by_output L p txout =
     rbind (require (sig_receipt p \<noteq> Receipt_empty) P2WPKH_EmptyReceiptUsage) (\<lambda>_.
     rbind (map_err P2WPKH_ReceiptKeyError (proof_hash L (Sig p))) (\<lambda>pxh.
     rbind (map_err P2WPKH_ReceiptKeyError (ReceiptKey_new L pxh (sig_inner_key p))) (\<lambda>k.
     rbind (ok_or (ReceiptKey_to_p2wpkh L k) (P2WPKH_ReceiptKeyError UncompressedKey)) (\<lambda>expected.
     rbind (require (script_pubkey txout = expected) P2WPKH_ScriptPubKeyMismatch) (\<lambda>_.
     rbind (map_err (\<lambda>_. P2WPKH_InvalidMetadata) (check_metadata_size L (sig_metadata p))) (\<lambda>ok.
     require ok P2WPKH_MetadataBytesOverflow))))))"

definition Empty_check_by_parsed_witness_data ::
  "lib \<Rightarrow> EmptyReceiptProof \<Rightarrow> PublicKey \<Rightarrow> P2WPKHProofError + unit" where
  "Empty_check_by_parsed_witness_data L p pk =
     rbind (map_err P2WPKH_ReceiptKeyError
             (ReceiptKey_new L (ReceiptHash_from L Receipt_empty) (empty_inner_key p))) (\<lambda>k.
     require (inner k = pk) P2WPKH_PublicKeyMismatch)"

definition Empty_check_by_input :: "lib \<Rightarrow> EmptyReceiptProof \<Rightarrow> TxIn \<Rightarrow> P2WPKHProofError + unit" where
  "Empty_check_by_input L p txin =
     rbind (map_err P2WPKH_WitnessParseError (P2WPKHWitness_from_witness L (witness txin))) (\<lambda>d.
     Empty_check_by_parsed_witness_data L p (wpkh_pubkey d))"

definition Empty_check_by_output :: "lib \<Rightarrow> EmptyReceiptProof \<Rightarrow> TxOut \<Rightarrow> P2WPKHProofError + unit" where
  "Empty_check_by_output L p txout =
     rbind (map_err P2WPKH_ReceiptKeyError
             (ReceiptKey_new L (ReceiptHash_from L Receipt_empty) (empty_inner_key p))) (\<lambda>k.
     rbind (ok_or (ReceiptKey_to_p2wpkh L k) (P2WPKH_ReceiptKeyError UncompressedKey)) (\<lambda>expected.
     require (script_pubkey txout = expected) P2WPKH_ScriptPubKeyMismatch))"

section \<open>Taproot\<close>

datatype TaprootProofError =
    P2TR_ReceiptKeyError ReceiptKeyError
  | P2TR_ScriptPubKeyMismatch
  | P2TR_PublicKeyMismatch
  | P2TR_InvalidMetadata
  | P2TR_MetadataBytesOverflow

definition P2TR_to_witness_script :: "lib \<Rightarrow> TaprootProof \<Rightarrow> TaprootProofError + script" where
  "P2TR_to_witness_script L p =
     rbind (map_err P2TR_ReceiptKeyError (proof_hash L (P2TR p))) (\<lambda>pxh.
     rbind (map_err P2TR_ReceiptKeyError (ReceiptKey_new L pxh (tr_inner_key p))) (\<lambda>k.
     Inr (new_p2tr L (pk_x_only L (inner k)))))"

definition P2TR_check_by_input :: "TaprootProof \<Rightarrow> TxIn \<Rightarrow> TaprootProofError + unit" where
  "P2TR_check_by_input p txin = Inr ()"

definition P2TR_check_by_output :: "lib \<Rightarrow> TaprootProof \<Rightarrow> TxOut \<Rightarrow> TaprootProofError + unit" where
  "P2TR_check_by_output L p txout =
     rbind (map_err P2TR_ReceiptKeyError (proof_hash L (P2TR p))) (\<lambda>pxh.
     rbind (map_err P2TR_ReceiptKeyError (ReceiptKey_new L pxh (tr_inner_key p))) (\<lambda>k.
     rbind (require (script_pubkey txout = new_p2tr L (pk_x_only L (inner k)))
             P2TR_ScriptPubKeyMismatch) (\<lambda>_.
     rbind (map_err (\<lambda>_. P2TR_InvalidMetadata) (check_metadata_size L (tr_metadata p))) (\<lambda>ok.
     require ok P2TR_MetadataBytesOverflow))))"

section \<open>P2WSH\<close>

datatype P2WSHWitnessParseError =
    P2WSH_EmptyWitness
  | P2WSH_Script
  | P2WSH_Custom string

datatype P2WSHProofError =
    P2WSH_MissingPubkey
  | P2WSH_PubkeyMismatch
  | P2WSH_OutputScriptMismatch
  | P2WSH_InvalidWitness P2WSHWitnessParseError
  | P2WSH_RedeemScriptMismatch

text \<open>The witness is parsed into the redeem script (its last element) and the stack
  (all elements before it), the latter by the parser of the stack type.\<close>

definition P2WSHWitness_from_witness ::
  "(bytes list \<Rightarrow> P2WSHWitnessParseError + 'a) \<Rightarrow> bytes list \<Rightarrow>
     P2WSHWitnessParseError + ('a \<times> script)" where
  "P2WSHWitness_from_witness from_stack w =
     (if w = [] then Inl P2WSH_EmptyWitness
      else rbind (from_stack (butlast w)) (\<lambda>stack. Inr (stack, last w)))"

definition is_pubkey :: "bytes \<Rightarrow> bool" where
  "is_pubkey bs = (length bs = 33 \<and> (bs ! 0 = 0x02 \<or> bs ! 0 = 0x03))"

fun first_pubkey :: "(unit + Instruction) list \<Rightarrow> bytes option" where
  "first_pubkey (Inr (PushBytes bs) # is) = (if is_pubkey bs then Some bs else first_pubkey is)"
| "first_pubkey (Inr (Op c) # is) = first_pubkey is"
| "first_pubkey _ = None"

definition find_first_pubkey :: "lib \<Rightarrow> P2WSHProof \<Rightarrow> bytes option" where
  "find_first_pubkey L p = first_pubkey (instructions L (wsh_script p))"

definition P2WSH_check_pubkey :: "lib \<Rightarrow> P2WSHProof \<Rightarrow> P2WSHProofError fault + unit" where
  "P2WSH_check_pubkey L p =
     rbind (tweak L (wsh_inner_key p) (wsh_receipt p)) (\<lambda>tweaked.
     rbind (may_fail (ok_or (find_first_pubkey L p) P2WSH_MissingPubkey)) (\<lambda>bs.
     may_fail (require (bs = pk_serialize tweaked) P2WSH_PubkeyMismatch)))"

definition P2WSH_check_by_input :: "lib \<Rightarrow> P2WSHProof \<Rightarrow> TxIn \<Rightarrow> P2WSHProofError fault + unit" where
  "P2WSH_check_by_input L p txin =
     rbind (P2WSH_check_pubkey L p) (\<lambda>_.
     rbind (may_fail (map_err P2WSH_InvalidWitness
              (P2WSHWitness_from_witness Inr (witness txin)))) (\<lambda>w.
     may_fail (require (snd w = wsh_script p) P2WSH_RedeemScriptMismatch)))"

definition P2WSH_check_by_output :: "lib \<Rightarrow> P2WSHProof \<Rightarrow> TxOut \<Rightarrow> P2WSHProofError fault + unit" where
  "P2WSH_check_by_output L p txout =
     rbind (P2WSH_check_pubkey L p) (\<lambda>_.
     may_fail (require (new_p2wsh L (wscript_hash L (wsh_script p)) = script_pubkey txout)
       P2WSH_OutputScriptMismatch))"

section \<open>Multisignatures\<close>

datatype MultisigReceiptProofError =
    MS_ReceiptKeyError ReceiptKeyError
  | MS_InvalidNumberOfInnerKeys nat nat
  | MS_WitnessParseError P2WSHWitnessParseError
  | MS_InvalidNumberOfSignatures nat nat
  | MS_RedeemScriptMismatch

definition MultisigReceiptProof_new ::
  "Receipt \<Rightarrow> PublicKey list \<Rightarrow> u8 \<Rightarrow> MultisigReceiptProof" where
  "MultisigReceiptProof_new r keys m =
     \<lparr>ms_receipt = r, ms_inner_keys = sort keys, ms_m = m\<rparr>"

text \<open>Small integers are pushed as the opcodes of 1 to 16; anything else panics.\<close>

definition push_smallint :: "u8 \<Rightarrow> 'e fault + builder_item" where
  "push_smallint n =
     (if 1 \<le> n \<and> n \<le> 16 then Inr (PushOpcode (0x51 - 1 + n)) else Inl Panics)"

definition MultisigScript_to_script ::
  "lib \<Rightarrow> u8 \<Rightarrow> PublicKey list \<Rightarrow> 'e fault + script" where
  "MultisigScript_to_script L m keys =
     rbind (push_smallint (of_nat (length keys))) (\<lambda>n.
     rbind (push_smallint m) (\<lambda>m'.
     Inr (build_script L
       (n # map (\<lambda>k. PushSlice (pk_serialize k)) keys @ [m', PushOpcode OP_CHECKMULTISIG]))))"

definition sort_and_tweak_keys ::
  "lib \<Rightarrow> MultisigReceiptProof \<Rightarrow> MultisigReceiptProofError + PublicKey list" where
  "sort_and_tweak_keys L p =
     (case sort (ms_inner_keys p) of
        [] \<Rightarrow> Inl (MS_InvalidNumberOfInnerKeys 0 1)
      | first_key # rest \<Rightarrow>
          rbind (map_err MS_ReceiptKeyError
                  (ReceiptKey_new L (ReceiptHash_from L (ms_receipt p)) first_key)) (\<lambda>k.
          Inr (inner k # rest)))"

definition create_multisig_redeem_script ::
  "lib \<Rightarrow> MultisigReceiptProof \<Rightarrow> MultisigReceiptProofError fault + script" where
  "create_multisig_redeem_script L p =
     rbind (may_fail (sort_and_tweak_keys L p)) (\<lambda>keys.
     MultisigScript_to_script L (ms_m p) keys)"

definition MS_check_by_parsed_witness_data ::
  "lib \<Rightarrow> MultisigReceiptProof \<Rightarrow> bytes list \<Rightarrow> script \<Rightarrow> MultisigReceiptProofError fault + unit" where
  "MS_check_by_parsed_witness_data L p signatures redeem_script =
     rbind (may_fail (require (length signatures = unat (ms_m p))
              (MS_InvalidNumberOfSignatures (length signatures) (unat (ms_m p))))) (\<lambda>_.
     rbind (create_multisig_redeem_script L p) (\<lambda>expected.
     may_fail (require (expected = redeem_script) MS_RedeemScriptMismatch)))"

definition MultisigWitnessStack_from ::
  "lib \<Rightarrow> bytes list \<Rightarrow> P2WSHWitnessParseError + bytes list" where
  "MultisigWitnessStack_from L stack =
     (case stack of
        [] \<Rightarrow> Inl (P2WSH_Custom ''Empty stack element is missing'')
      | _ # rest \<Rightarrow>
          mapM (\<lambda>x. ok_or (ecdsa_sig_from_slice L x) (P2WSH_Custom ''Invalid signature'')) rest)"

definition MS_check_by_input ::
  "lib \<Rightarrow> MultisigReceiptProof \<Rightarrow> TxIn \<Rightarrow> MultisigReceiptProofError fault + unit" where
  "MS_check_by_input L p txin =
     rbind (may_fail (map_err MS_WitnessParseError
              (P2WSHWitness_from_witness (MultisigWitnessStack_from L) (witness txin)))) (\<lambda>w.
     MS_check_by_parsed_witness_data L p (fst w) (snd w))"

definition MS_check_by_output ::
  "lib \<Rightarrow> MultisigReceiptProof \<Rightarrow> TxOut \<Rightarrow> MultisigReceiptProofError fault + unit" where
  "MS_check_by_output L p txout =
     rbind (create_multisig_redeem_script L p) (\<lambda>expected.
     may_fail (require (script_pubkey txout = to_p2wsh L expected) MS_RedeemScriptMismatch))"

text \<open>The parser of multisignature scripts.\<close>

datatype MultisigScriptError = InvalidMultisigScript | ParsePubkeyError

fun instruction_to_smallint :: "Instruction \<Rightarrow> MultisigScriptError + u8" where
  "instruction_to_smallint (Op c) =
     (if 0x51 \<le> c \<and> c \<le> 0x60 then Inr (c - 0x51 + 1) else Inl InvalidMultisigScript)"
| "instruction_to_smallint (PushBytes _) = Inl InvalidMultisigScript"

fun next_smallint ::
  "(unit + Instruction) list \<Rightarrow> MultisigScriptError + (u8 \<times> (unit + Instruction) list)" where
  "next_smallint (Inr i # is) = rbind (instruction_to_smallint i) (\<lambda>n. Inr (n, is))"
| "next_smallint _ = Inl InvalidMultisigScript"

fun next_pubkeys ::
  "lib \<Rightarrow> nat \<Rightarrow> (unit + Instruction) list \<Rightarrow>
     MultisigScriptError + (PublicKey list \<times> (unit + Instruction) list)" where
  "next_pubkeys L 0 is = Inr ([], is)"
| "next_pubkeys L (Suc n) (Inr (PushBytes bs) # is) =
     rbind (ok_or (pk_from_slice L bs) ParsePubkeyError) (\<lambda>k.
     rbind (next_pubkeys L n is) (\<lambda>(ks, is'). Inr (k # ks, is')))"
| "next_pubkeys L (Suc n) _ = Inl InvalidMultisigScript"

definition MultisigScript_from_script ::
  "lib \<Rightarrow> script \<Rightarrow> MultisigScriptError + (u8 \<times> PublicKey list)" where
  "MultisigScript_from_script L s =
     rbind (next_smallint (instructions L s)) (\<lambda>(n, is1).
     rbind (next_pubkeys L (unat n) is1) (\<lambda>(keys, is2).
     rbind (next_smallint is2) (\<lambda>(m, is3).
     if is3 \<noteq> [] then Inl InvalidMultisigScript else Inr (m, keys))))"

text \<open>What the iterator over instructions returns for a script assembled of opcodes
  that push nothing and of slices.\<close>

fun plain_instruction :: "builder_item \<Rightarrow> Instruction option" where
  "plain_instruction (PushOpcode c) = (if 0x50 \<le> c then Some (Op c) else None)"
| "plain_instruction (PushSlice bs) =
     (if length bs < 256 \<and> bs \<noteq> [] then Some (PushBytes bs) else None)"
| "plain_instruction _ = None"

definition iterates_back :: "lib \<Rightarrow> bool" where
  "iterates_back L = (\<forall>items is. map plain_instruction items = map Some is \<longrightarrow>
     instructions L (build_script L items) = map Inr is)"

section \<open>Lightning commitments\<close>

datatype LightningCommitmentProofError =
    LN_ReceiptKeyError ReceiptKeyError
  | LN_InvalidWitnessData P2WSHWitnessParseError
  | LN_RedeemScriptMismatch script script
  | LN_MismatchScriptPubkey script script

definition ToLocalScript_to_script :: "lib \<Rightarrow> ToLocalScript \<Rightarrow> script" where
  "ToLocalScript_to_script L s = build_script L
     [PushOpcode OP_IF, PushSlice (pk_serialize (revocation_pubkey s)), PushOpcode OP_ELSE,
      PushInt (uint (to_self_delay s)), PushOpcode OP_CSV, PushOpcode OP_DROP,
      PushSlice (pk_serialize (local_delayed_pubkey s)), PushOpcode OP_ENDIF,
      PushOpcode OP_CHECKSIG]"

record LightningCommitmentWitnessStack =
  lnw_signature :: bytes
  is_revocation :: bool

definition LightningCommitmentWitnessStack_from ::
  "lib \<Rightarrow> bytes list \<Rightarrow> P2WSHWitnessParseError + LightningCommitmentWitnessStack" where
  "LightningCommitmentWitnessStack_from L stack =
     (case stack of
        [s0, s1] \<Rightarrow>
          rbind (ok_or (ecdsa_sig_from_slice L s0)
                  (P2WSH_Custom ''invalid signature in witness'')) (\<lambda>sg.
          rbind (require (length s1 \<le> 1) (P2WSH_Custom ''invalid is_revocation flag'')) (\<lambda>_.
          Inr \<lparr>lnw_signature = sg, is_revocation = (s1 \<noteq> [] \<and> s1 ! 0 = 0x01)\<rparr>))
      | _ \<Rightarrow> Inl (P2WSH_Custom ''invalid witness length''))"

definition LN_to_redeem_script ::
  "lib \<Rightarrow> LightningCommitmentProof \<Rightarrow> LightningCommitmentProofError + ToLocalScript" where
  "LN_to_redeem_script L p =
     rbind (map_err LN_ReceiptKeyError
             (ReceiptKey_new L (ReceiptHash_from L (ln_receipt p))
               (revocation_pubkey (ln_data p)))) (\<lambda>k.
     Inr \<lparr>revocation_pubkey = inner k, to_self_delay = to_self_delay (ln_data p),
          local_delayed_pubkey = local_delayed_pubkey (ln_data p)\<rparr>)"

definition LN_to_script_pubkey ::
  "lib \<Rightarrow> LightningCommitmentProof \<Rightarrow> LightningCommitmentProofError + script" where
  "LN_to_script_pubkey L p =
     rbind (LN_to_redeem_script L p) (\<lambda>s. Inr (to_p2wsh L (ToLocalScript_to_script L s)))"

definition LN_check_by_input ::
  "lib \<Rightarrow> LightningCommitmentProof \<Rightarrow> TxIn \<Rightarrow> LightningCommitmentProofError + unit" where
  "LN_check_by_input L p txin =
     rbind (map_err LN_InvalidWitnessData
             (P2WSHWitness_from_witness (LightningCommitmentWitnessStack_from L)
               (witness txin))) (\<lambda>w.
     rbind (LN_to_redeem_script L p) (\<lambda>s.
     require (ToLocalScript_to_script L s = snd w)
       (LN_RedeemScriptMismatch (ToLocalScript_to_script L s) (snd w))))"

definition LN_check_by_output ::
  "lib \<Rightarrow> LightningCommitmentProof \<Rightarrow> TxOut \<Rightarrow> LightningCommitmentProofError + unit" where
  "LN_check_by_output L p txout =
     rbind (LN_to_script_pubkey L p) (\<lambda>expected.
     require (script_pubkey txout = expected)
       (LN_MismatchScriptPubkey expected (script_pubkey txout)))"

section \<open>Lightning HTLCs\<close>

datatype LightningHtlcProofError =
    HTLC_InvalidScriptKind
  | HTLC_InvalidWitnessProgramStructure
  | HTLC_Script
  | HTLC_InvalidScriptStructure
  | HTLC_Hash
  | HTLC_PublicKey
  | HTLC_InvalidWScriptHashSize nat
  | HTLC_ScriptHashMismatch hash256 hash256

definition PAYMENT_HASH_SIZE :: int where "PAYMENT_HASH_SIZE = 32"

definition push_local_key_multisig_check :: "PublicKey \<Rightarrow> builder_item list" where
  "push_local_key_multisig_check k =
     [PushInt 2, PushOpcode OP_SWAP, PushKey k, PushInt 2, PushOpcode OP_CHECKMULTISIG]"

definition push_payment_hash_check :: "hash160 \<Rightarrow> builder_item list" where
  "push_payment_hash_check h =
     [PushOpcode OP_HASH160, PushSlice (to_be_bytes h), PushOpcode OP_EQUALVERIFY]"

definition LightningHtlcData_to_script :: "lib \<Rightarrow> LightningHtlcData \<Rightarrow> script" where
  "LightningHtlcData_to_script L d = build_script L (
     [PushOpcode OP_DUP, PushOpcode OP_HASH160, PushSlice (to_be_bytes (revocation_key_hash d)),
      PushOpcode OP_EQUAL, PushOpcode OP_IF, PushOpcode OP_CHECKSIG, PushOpcode OP_ELSE,
      PushKey (remote_htlc_key d), PushOpcode OP_SWAP, PushOpcode OP_SIZE,
      PushInt PAYMENT_HASH_SIZE, PushOpcode OP_EQUAL]
     @ (case htlc_kind d of
          Offered \<Rightarrow>
            [PushOpcode OP_NOTIF, PushOpcode OP_DROP]
            @ push_local_key_multisig_check (local_htlc_key d)
            @ [PushOpcode OP_ELSE]
            @ push_payment_hash_check (payment_hash d)
        | Received cltv_expiry \<Rightarrow>
            [PushOpcode OP_IF]
            @ push_payment_hash_check (payment_hash d)
            @ push_local_key_multisig_check (local_htlc_key d)
            @ [PushOpcode OP_ELSE, PushOpcode OP_DROP, PushInt (uint cltv_expiry),
               PushOpcode OP_CLTV, PushOpcode OP_DROP])
     @ [PushOpcode OP_CHECKSIG, PushOpcode OP_ENDIF, PushOpcode OP_ENDIF])"

definition HTLC_to_script :: "lib \<Rightarrow> LightningHtlcProof \<Rightarrow> 'e fault + LightningHtlcData" where
  "HTLC_to_script L p =
     rbind (tweak L (remote_htlc_key (htlc_data p)) (htlc_receipt p)) (\<lambda>k.
     Inr ((htlc_data p)\<lparr>remote_htlc_key := k\<rparr>))"

definition HTLC_script_hash :: "lib \<Rightarrow> LightningHtlcData \<Rightarrow> hash256" where
  "HTLC_script_hash L d = wscript_hash L (LightningHtlcData_to_script L d)"

definition HTLC_check_by_input ::
  "lib \<Rightarrow> LightningHtlcProof \<Rightarrow> TxIn \<Rightarrow> LightningHtlcProofError fault + unit" where
  "HTLC_check_by_input L p txin =
     (if witness txin = [] then Inl (Fails HTLC_InvalidWitnessProgramStructure)
      else let got = wscript_hash L (last (witness txin)) in
        rbind (HTLC_to_script L p) (\<lambda>d.
        may_fail (require (got = HTLC_script_hash L d)
          (HTLC_ScriptHashMismatch got (HTLC_script_hash L d)))))"

definition HTLC_check_by_output ::
  "lib \<Rightarrow> LightningHtlcProof \<Rightarrow> TxOut \<Rightarrow> LightningHtlcProofError fault + unit" where
  "HTLC_check_by_output L p txout =
     rbind (HTLC_to_script L p) (\<lambda>d.
     let expected = HTLC_script_hash L d; is = instructions L (script_pubkey txout) in
     rbind (may_fail (require (is_p2wsh L (script_pubkey txout)) HTLC_InvalidScriptKind)) (\<lambda>_.
     case (if is = [] then None else Some (last is)) of
       Some (Inr (PushBytes h)) \<Rightarrow>
         rbind (may_fail (require (length h = 32) (HTLC_InvalidWScriptHashSize (length h)))) (\<lambda>_.
         may_fail (require (expected = from_be_bytes h)
           (HTLC_ScriptHashMismatch (from_be_bytes h) expected)))
     | _ \<Rightarrow> Inl (Fails HTLC_InvalidWitnessProgramStructure)))"

section \<open>Spark exits\<close>

datatype SparkExitProofError =
    UnavailableTapSpendInfo
  | EXIT_ReceiptKeyError ReceiptKeyError
  | EXIT_TaprootError
  | EXIT_ScriptPubkeyMismatch script script
  | EXIT_LocktimeError

definition timelock_script ::
  "lib \<Rightarrow> SparkExitScript \<Rightarrow> Receipt \<Rightarrow> SparkExitProofError + script" where
  "timelock_script L s r =
     rbind (map_err EXIT_ReceiptKeyError
             (ReceiptKey_new L (ReceiptHash_from L r) (delay_key s))) (\<lambda>k.
     rbind (ok_or (locktime_from_height L (exit_locktime s)) EXIT_LocktimeError) (\<lambda>t.
     Inr (build_script L
       [PushLockTime t, PushOpcode OP_CLTV, PushOpcode OP_DROP,
        PushXOnlyKey (pk_x_only L (inner k)), PushOpcode OP_CHECKSIG])))"

text \<open>The taproot spending data, of which the output key is used.\<close>

definition tap_spend_info ::
  "lib \<Rightarrow> SparkExitProof \<Rightarrow> SparkExitProofError + XOnlyPublicKey" where
  "tap_spend_info L p =
     rbind (timelock_script L (exit_script p) (exit_receipt p)) (\<lambda>s.
     rbind (ok_or (taproot_add_leaf L 0 s) EXIT_TaprootError) (\<lambda>b.
     ok_or (taproot_finalize L b (pk_x_only L (revocation_key (exit_script p))))
       UnavailableTapSpendInfo))"

definition EXIT_check_by_input :: "SparkExitProof \<Rightarrow> TxIn \<Rightarrow> SparkExitProofError + unit" where
  "EXIT_check_by_input p txin = Inr ()"

definition EXIT_check_by_output ::
  "lib \<Rightarrow> SparkExitProof \<Rightarrow> TxOut \<Rightarrow> SparkExitProofError + unit" where
  "EXIT_check_by_output L p txout =
     rbind (tap_spend_info L p) (\<lambda>output_key.
     let expected = new_p2tr_tweaked L output_key in
     require (expected = script_pubkey txout)
       (EXIT_ScriptPubkeyMismatch expected (script_pubkey txout)))"

section \<open>Checks of any proof\<close>

datatype ReceiptProofError =
    P2WPKH_error P2WPKHProofError
  | P2WSH_error P2WSHProofError
  | P2TR_error TaprootProofError
  | EmptyReceipt_error P2WPKHProofError
  | Multisig_error MultisigReceiptProofError
  | Lightning_error LightningCommitmentProofError
  | LightningHtlc_error LightningHtlcProofError
  | SparkExit_error SparkExitProofError

text \<open>The conversion of errors picks the variant by the type of the error, so an
  error of an empty-receipt proof is reported as a P2WPKH error.\<close>

fun checked_check_by_input ::
  "lib \<Rightarrow> ReceiptProof \<Rightarrow> TxIn \<Rightarrow> ReceiptProofError fault + unit" where
  "checked_check_by_input L (Sig p) txin =
     may_fail (map_err P2WPKH_error (P2WPKH_check_by_input L p txin))"
| "checked_check_by_input L (P2WSH p) txin = err_into P2WSH_error (P2WSH_check_by_input L p txin)"
| "checked_check_by_input L (P2TR p) txin =
     may_fail (map_err P2TR_error (P2TR_check_by_input p txin))"
| "checked_check_by_input L (EmptyReceipt p) txin =
     may_fail (map_err P2WPKH_error (Empty_check_by_input L p txin))"
| "checked_check_by_input L (Multisig p) txin = err_into Multisig_error (MS_check_by_input L p txin)"
| "checked_check_by_input L (Lightning p) txin =
     may_fail (map_err Lightning_error (LN_check_by_input L p txin))"
| "checked_check_by_input L (LightningHtlc p) txin =
     err_into LightningHtlc_error (HTLC_check_by_input L p txin)"
| "checked_check_by_input L (SparkExit p) txin =
     may_fail (map_err SparkExit_error (EXIT_check_by_input p txin))"

fun checked_check_by_output ::
  "lib \<Rightarrow> ReceiptProof \<Rightarrow> TxOut \<Rightarrow> ReceiptProofError fault + unit" where
  "checked_check_by_output L (Sig p) txout =
     may_fail (map_err P2WPKH_error (P2WPKH_check_by_output L p txout))"
| "checked_check_by_output L (EmptyReceipt p) txout =
     may_fail (map_err P2WPKH_error (Empty_check_by_output L p txout))"
| "checked_check_by_output L (Multisig p) txout = err_into Multisig_error (MS_check_by_output L p txout)"
| "checked_check_by_output L (P2TR p) txout =
     may_fail (map_err P2TR_error (P2TR_check_by_output L p txout))"
| "checked_check_by_output L (Lightning p) txout =
     may_fail (map_err Lightning_error (LN_check_by_output L p txout))"
| "checked_check_by_output L (LightningHtlc p) txout =
     err_into LightningHtlc_error (HTLC_check_by_output L p txout)"
| "checked_check_by_output L (P2WSH p) txout = err_into P2WSH_error (P2WSH_check_by_output L p txout)"
| "checked_check_by_output L (SparkExit p) txout =
     may_fail (map_err SparkExit_error (EXIT_check_by_output L p txout))"

section \<open>Lemmas\<close>

text \<open>The script an output must carry for a proof to hold it, where it is a function
  of the proof alone.\<close>

lemma P2WPKH_check_by_output_Inr:
  "P2WPKH_check_by_output L p o' = Inr () \<longleftrightarrow>
     sig_receipt p \<noteq> Receipt_empty \<and> check_metadata_size L (sig_metadata p) = Inr True \<and>
     (\<exists>pxh k. proof_hash L (Sig p) = Inr pxh \<and> ReceiptKey_new L pxh (sig_inner_key p) = Inr k
        \<and> ReceiptKey_to_p2wpkh L k = Some (script_pubkey o'))"
  by (auto simp: P2WPKH_check_by_output_def result_simps)

lemma sort_and_tweak_keys_cong:
  "mset ks = mset (ms_inner_keys p) \<Longrightarrow>
    sort_and_tweak_keys L (p\<lparr>ms_inner_keys := ks\<rparr>) = sort_and_tweak_keys L p"
  by (simp add: sort_and_tweak_keys_def properties_for_sort [of "sort (ms_inner_keys p)" ks]
      split: list.split)

lemma push_smallint_panics: "push_smallint n = Inl e \<longleftrightarrow> e = Panics \<and> (n = 0 \<or> 16 < n)"
  by (auto simp: push_smallint_def word_le_nat_alt word_less_nat_alt word_unat_eq_iff)

lemma MultisigScript_to_script_panics:
  "MultisigScript_to_script L m keys = Inl Panics \<longleftrightarrow>
     (let n = of_nat (length keys) :: u8 in n = 0 \<or> 16 < n \<or> m = 0 \<or> 16 < m)"
  by (auto simp: MultisigScript_to_script_def rbind_Inl_iff push_smallint_panics Let_def)
     (auto simp: push_smallint_def word_le_nat_alt word_less_nat_alt word_unat_eq_iff)

lemma MultisigScript_to_script_ok:
  assumes "1 \<le> length keys" "length keys \<le> 16" "1 \<le> m" "m \<le> 16"
  shows "MultisigScript_to_script L m keys = Inr (build_script L
    (PushOpcode (0x50 + of_nat (length keys)) # map (\<lambda>k. PushSlice (pk_serialize k)) keys
      @ [PushOpcode (0x50 + m), PushOpcode OP_CHECKMULTISIG]))"
proof -
  have "unat (of_nat (length keys) :: u8) = length keys"
    using assms by (simp add: unat_of_nat)
  then show ?thesis
    using assms
    by (simp add: MultisigScript_to_script_def push_smallint_def word_le_nat_alt)
qed

lemma item_parse_concat:
  assumes "map plain_instruction items = map Some is"
    and "length (concat (map item_bytes items)) \<le> n"
  shows "item_parse n (concat (map item_bytes items)) = map Inr is"
  using assms
proof (induction items arbitrary: n "is")
  case Nil
  then show ?case by (cases n) simp_all
next
  case (Cons i items)
  obtain j js where js: "is = j # js" using Cons.prems(1) by (cases "is") simp_all
  show ?case
  proof (cases i)
    case (PushOpcode c)
    with Cons.prems obtain m where "n = Suc m" by (cases n) simp_all
    then show ?thesis
      using Cons.prems js PushOpcode by (auto simp: Cons.IH split: if_splits)
  next
    case (PushSlice bs)
    with Cons.prems obtain m where m: "n = Suc m" by (cases n) simp_all
    have "length bs < 256"
      using Cons.prems js PushSlice by (auto split: if_splits)
    then have "unat (of_nat (length bs) :: u8) = length bs"
      by (simp add: unat_of_nat)
    then show ?thesis
      using Cons.prems js PushSlice m by (auto simp: Cons.IH split: if_splits)
  qed (use Cons.prems js in auto)
qed

lemma lib0_iterates_back [simp]: "iterates_back lib0"
  by (simp add: iterates_back_def lib0_def item_parse_concat)

lemma next_pubkeys_map:
  assumes "\<And>k. k \<in> set keys \<Longrightarrow> valid_key L k"
  shows "next_pubkeys L (length keys) (map (\<lambda>k. Inr (PushBytes (pk_serialize k))) keys @ rest)
    = Inr (keys, rest)"
  using assms by (induction keys) simp_all

lemma MultisigScript_to_script_instructions:
  assumes "iterates_back L" "1 \<le> length keys" "length keys \<le> 16" "1 \<le> m" "m \<le> 16"
    and "MultisigScript_to_script L m keys = Inr s"
  shows "instructions L s = Inr (Op (0x50 + of_nat (length keys))) #
    map (\<lambda>k. Inr (PushBytes (pk_serialize k))) keys @ [Inr (Op (0x50 + m)), Inr (Op OP_CHECKMULTISIG)]"
proof -
  define n :: u8 where "n = of_nat (length keys)"
  have n: "unat n = length keys" using assms by (simp add: n_def unat_of_nat)
  have sum: "unat (0x50 + x) = 80 + unat x" if "x \<le> 16" for x :: u8
    using that by (simp add: unat_word_ariths word_le_nat_alt)
  have "n \<le> 16" using assms n by (simp add: word_le_nat_alt)
  have ser: "pk_serialize k \<noteq> []" for k
    using length_pk_serialize [of k] by (metis list.size(3) zero_neq_numeral)
  let ?is = "Op (0x50 + n) # map (\<lambda>k. PushBytes (pk_serialize k)) keys @
    [Op (0x50 + m), Op OP_CHECKMULTISIG]"
  have "map plain_instruction
      (PushOpcode (0x50 + n) # map (\<lambda>k. PushSlice (pk_serialize k)) keys
        @ [PushOpcode (0x50 + m), PushOpcode OP_CHECKMULTISIG]) = map Some ?is"
    using sum [OF \<open>n \<le> 16\<close>] sum [of m] assms ser by (simp add: word_le_nat_alt OP_CHECKMULTISIG_def)
  then have "instructions L (build_script L
      (PushOpcode (0x50 + n) # map (\<lambda>k. PushSlice (pk_serialize k)) keys
        @ [PushOpcode (0x50 + m), PushOpcode OP_CHECKMULTISIG])) = map Inr ?is"
    using assms(1) unfolding iterates_back_def by blast
  then show ?thesis
    using assms(6) by (auto simp: n_def comp_def MultisigScript_to_script_ok [OF assms(2-5)])
qed

section \<open>Properties\<close>

text \<open>C16. The order in which the participants of a multisignature proof are listed does
  not matter: two proofs with the same receipt, threshold and multiset of keys pass
  and fail the same checks, with the same outcome, on every input and output.\<close>

theorem multisig_key_order_irrelevant:
  assumes "mset ks = mset (ms_inner_keys p)"
  shows "checked_check_by_output L (Multisig (p\<lparr>ms_inner_keys := ks\<rparr>)) txout
      = checked_check_by_output L (Multisig p) txout
    \<and> checked_check_by_input L (Multisig (p\<lparr>ms_inner_keys := ks\<rparr>)) txin
      = checked_check_by_input L (Multisig p) txin"
  using sort_and_tweak_keys_cong [OF assms, of L]
  by (simp add: MS_check_by_output_def MS_check_by_input_def MS_check_by_parsed_witness_data_def
      create_multisig_redeem_script_def)

theorem multisig_key_order_irrelevant_witness:
  "checked_check_by_output lib0
      (Multisig \<lparr>ms_receipt = Receipt_empty, ms_inner_keys = [PublicKey 2, PublicKey 1], ms_m = 1\<rparr>)
      \<lparr>txout_value = 0, script_pubkey = []\<rparr>
    = checked_check_by_output lib0
      (Multisig \<lparr>ms_receipt = Receipt_empty, ms_inner_keys = [PublicKey 1, PublicKey 2], ms_m = 1\<rparr>)
      \<lparr>txout_value = 0, script_pubkey = []\<rparr>"
  using multisig_key_order_irrelevant
    [of "[PublicKey 2, PublicKey 1]"
      "\<lparr>ms_receipt = Receipt_empty, ms_inner_keys = [PublicKey 1, PublicKey 2], ms_m = 1\<rparr>"]
  by simp



text \<open>The multisignature script parser rejects every script the writer of the same
  type produces: it stops after the threshold and demands the end of the script, where
  the writer has put the opcode that checks the signatures.\<close>

theorem multisig_script_no_roundtrip:
  assumes "iterates_back L" and "\<And>k. k \<in> set keys \<Longrightarrow> valid_key L k"
    and "1 \<le> length keys" "length keys \<le> 16" "1 \<le> m" "m \<le> 16"
    and s: "MultisigScript_to_script L m keys = Inr s"
  shows "MultisigScript_from_script L s = Inl InvalidMultisigScript"
proof -
  define n :: u8 where "n = of_nat (length keys)"
  have n: "unat n = length keys" using assms by (simp add: n_def unat_of_nat)
  have "next_smallint (Inr (Op (0x50 + x)) # rest) = Inr (x, rest)" if "1 \<le> x" "x \<le> 16" for x rest
  proof -
    have "unat (0x50 + x) = 80 + unat x"
      using that by (simp add: unat_word_ariths word_le_nat_alt)
    with that show ?thesis by (simp add: word_le_nat_alt)
  qed
  moreover have "1 \<le> n" "n \<le> 16" using assms n by (simp_all add: word_le_nat_alt)
  ultimately show ?thesis
    using MultisigScript_to_script_instructions [OF assms(1,3-6) s] assms(2,5,6) n
    by (simp add: MultisigScript_from_script_def n_def [symmetric] next_pubkeys_map)
qed

theorem multisig_script_no_roundtrip_witness:
  "\<exists>s. MultisigScript_to_script lib0 1 [PublicKey 5, PublicKey 6] = (Inr s :: unit fault + script)
    \<and> MultisigScript_from_script lib0 s = Inl InvalidMultisigScript"
proof -
  obtain s where "MultisigScript_to_script lib0 1 [PublicKey 5, PublicKey 6] = (Inr s :: unit fault + script)"
    using MultisigScript_to_script_ok [of "[PublicKey 5, PublicKey 6]" 1 lib0] by simp
  then show ?thesis
    using multisig_script_no_roundtrip [of lib0 "[PublicKey 5, PublicKey 6]" 1 s] by simp
qed

end
