(* ===== verification/Announcements.thy ===== *)
theory Announcements
  imports Receipt
begin

text \<open>
  Announcements (crates/types/src/announcements): the six messages an issuer puts
  into an OP_RETURN output, their data encodings with the checks of the parsers,
  the common envelope of prefix and kind, and the OP_RETURN script around it.
  A string is the list of its UTF-8 bytes.
\<close>

section \<open>Networks\<close>

datatype Network = Bitcoin | Testnet | Signet | Regtest | Mutiny

section \<open>Messages\<close>

record IssueAnnouncement =
  issue_token_pubkey :: TokenPubkey
  issue_amount :: u128

record TokenPubkeyAnnouncement =
  tpa_token_pubkey :: TokenPubkey
  tpa_name :: bytes
  tpa_symbol :: bytes
  tpa_decimal :: u8
  tpa_max_supply :: u128
  tpa_is_freezable :: bool

record TokenPubkeyInfo =
  info_announcement :: "TokenPubkeyAnnouncement option"
  info_total_supply :: u128
  info_owner :: "script option"
  info_logo_url :: "bytes option"

record TransferOwnershipAnnouncement =
  to_token_pubkey :: TokenPubkey
  new_owner :: script

record TokenLogoAnnouncement =
  logo_token_pubkey :: TokenPubkey
  logo_url :: bytes

record TxFreezeAnnouncement =
  txf_token_pubkey :: TokenPubkey
  txf_outpoint :: OutPoint

record PubkeyFreezeAnnouncement =
  pkf_token_pubkey :: TokenPubkey
  pkf_pubkey :: PublicKey

datatype Announcement =
    TokenLogoA TokenLogoAnnouncement
  | TokenPubkeyA TokenPubkeyAnnouncement
  | TxFreezeA TxFreezeAnnouncement
  | PubkeyFreezeA PubkeyFreezeAnnouncement
  | IssueA IssueAnnouncement
  | TransferOwnershipA TransferOwnershipAnnouncement

section \<open>Errors\<close>

datatype IssueAnnouncementParseError =
    Issue_InvalidSize nat
  | Issue_InvalidTokenPubkey TokenPubkeyParseError

datatype TokenPubkeyAnnouncementParseError =
    TPA_ShortLength
  | TPA_InvalidAnnouncementData string
  | TPA_InvalidUtf8String
  | TPA_InvalidSymbolLength
  | TPA_InvalidNameLength
  | TPA_InvalidTokenPubkey TokenPubkeyParseError

datatype TransferOwnershipAnnouncementParseError =
    TO_InvalidSize nat
  | TO_InvalidTokenPubkey TokenPubkeyParseError
  | TO_MalformedScript

datatype TokenLogoAnnouncementParseError =
    Logo_ShortLength
  | Logo_InvalidAnnouncementData string
  | Logo_InvalidUtf8String
  | Logo_InvalidUrlLength
  | Logo_InvalidTokenPubkey TokenPubkeyParseError

datatype FreezeAnnouncementParseError =
    TXF_InvalidSize nat
  | TXF_InvalidTxHash
  | TXF_InvalidTokenPubkey TokenPubkeyParseError

datatype PubkeyFreezeAnnouncementParseError =
    PKF_InvalidSize nat
  | PKF_InvalidPublicKey
  | PKF_InvalidTokenPubkey TokenPubkeyParseError

text \<open>The source renders the error of the data into a string; here it is kept.\<close>

datatype announcement_data_error =
    IssueE IssueAnnouncementParseError
  | TokenPubkeyE TokenPubkeyAnnouncementParseError
  | TransferOwnershipE TransferOwnershipAnnouncementParseError
  | TokenLogoE TokenLogoAnnouncementParseError
  | TxFreezeE FreezeAnnouncementParseError
  | PubkeyFreezeE PubkeyFreezeAnnouncementParseError

datatype AnnouncementParseError =
    ShortLength
  | InvalidPrefix
  | UnknownAnnouncementKind
  | InvalidAnnouncementData announcement_data_error

section \<open>Issue\<close>

definition SCHNORR_PUBLIC_KEY_SIZE :: nat where "SCHNORR_PUBLIC_KEY_SIZE = 32"

definition ISSUE_ANNOUNCEMENT_MIN_SIZE :: nat where
  "ISSUE_ANNOUNCEMENT_MIN_SIZE = SCHNORR_PUBLIC_KEY_SIZE + 16"

definition ISSUE_ANNOUNCEMENT_MAX_SIZE :: nat where
  "ISSUE_ANNOUNCEMENT_MAX_SIZE = TOKEN_PUBKEY_SIZE + 16"

definition Issue_from_data :: "lib \<Rightarrow> bytes \<Rightarrow> IssueAnnouncementParseError + IssueAnnouncement" where
  "Issue_from_data L data =
     (if length data < ISSUE_ANNOUNCEMENT_MIN_SIZE \<or> ISSUE_ANNOUNCEMENT_MAX_SIZE < length data
      then Inl (Issue_InvalidSize (length data))
      else
        rbind (if length data = ISSUE_ANNOUNCEMENT_MIN_SIZE
               then rbind (ok_or (xonly_from_slice L (take SCHNORR_PUBLIC_KEY_SIZE data))
                            (Issue_InvalidTokenPubkey TokenPubkey_InvalidPublicKey))
                      (\<lambda>x. Inr (TokenPubkey_from_xonly L x))
               else map_err Issue_InvalidTokenPubkey
                      (TokenPubkey_from_bytes L (take TOKEN_PUBKEY_SIZE data))) (\<lambda>t.
        let index = (if length data = ISSUE_ANNOUNCEMENT_MIN_SIZE then SCHNORR_PUBLIC_KEY_SIZE
                     else TOKEN_PUBKEY_SIZE) in
        Inr \<lparr>issue_token_pubkey = t, issue_amount = from_le_bytes (drop index data)\<rparr>))"

definition Issue_to_data :: "IssueAnnouncement \<Rightarrow> bytes" where
  "Issue_to_data a =
     TokenPubkey_to_bytes (issue_token_pubkey a) @ to_le_bytes (issue_amount a)"

section \<open>Token announcement\<close>

definition MAX_NAME_SIZE :: nat where "MAX_NAME_SIZE = 17"
definition MIN_NAME_SIZE :: nat where "MIN_NAME_SIZE = 3"
definition MAX_SYMBOL_SIZE :: nat where "MAX_SYMBOL_SIZE = 6"
definition MIN_SYMBOL_SIZE :: nat where "MIN_SYMBOL_SIZE = 3"

definition MIN_TOKEN_PUBKEY_ANNOUNCEMENT_SIZE :: nat where
  "MIN_TOKEN_PUBKEY_ANNOUNCEMENT_SIZE =
     SCHNORR_PUBLIC_KEY_SIZE + 1 + MIN_NAME_SIZE + 1 + MIN_SYMBOL_SIZE + 1 + 16 + 1"

definition TokenPubkeyAnnouncement_new ::
  "TokenPubkey \<Rightarrow> bytes \<Rightarrow> bytes \<Rightarrow> u8 \<Rightarrow> u128 \<Rightarrow> bool \<Rightarrow>
     TokenPubkeyAnnouncementParseError + TokenPubkeyAnnouncement" where
  "TokenPubkeyAnnouncement_new t name symbol decimal max_supply is_freezable =
     (if length name < MIN_NAME_SIZE \<or> MAX_NAME_SIZE < length name then Inl TPA_InvalidNameLength
      else if length symbol < MIN_SYMBOL_SIZE \<or> MAX_SYMBOL_SIZE < length symbol
        then Inl TPA_InvalidSymbolLength
      else Inr \<lparr>tpa_token_pubkey = t, tpa_name = name, tpa_symbol = symbol, tpa_decimal = decimal,
                tpa_max_supply = max_supply, tpa_is_freezable = is_freezable\<rparr>)"

text \<open>A reader of a length byte within bounds followed by that many bytes of UTF-8.\<close>

definition read_string ::
  "nat \<Rightarrow> nat \<Rightarrow> 'e \<Rightarrow> 'e \<Rightarrow> 'e \<Rightarrow> 'e \<Rightarrow> bytes \<Rightarrow> 'e + (bytes \<times> bytes)" where
  "read_string lo hi len_err bounds_err read_err utf8_err cursor =
     rbind (ok_or (read_u8 cursor) len_err) (\<lambda>(n, cursor).
     rbind (require (lo \<le> unat n \<and> unat n \<le> hi) bounds_err) (\<lambda>_.
     rbind (ok_or (read_exact (unat n) cursor) read_err) (\<lambda>(s, cursor).
     rbind (require (is_utf8 s) utf8_err) (\<lambda>_.
     Inr (s, cursor)))))"

definition TPA_from_data ::
  "lib \<Rightarrow> bytes \<Rightarrow> TokenPubkeyAnnouncementParseError + TokenPubkeyAnnouncement" where
  "TPA_from_data L data =
     rbind (require (MIN_TOKEN_PUBKEY_ANNOUNCEMENT_SIZE \<le> length data) TPA_ShortLength) (\<lambda>_.
     rbind (map_err TPA_InvalidTokenPubkey
             (TokenPubkey_from_bytes L (take TOKEN_PUBKEY_SIZE data))) (\<lambda>t.
     rbind (read_string MIN_NAME_SIZE MAX_NAME_SIZE
              (TPA_InvalidAnnouncementData ''failed to read the name length'') TPA_InvalidNameLength
              (TPA_InvalidAnnouncementData ''failed to read the name'') TPA_InvalidUtf8String
              (drop TOKEN_PUBKEY_SIZE data)) (\<lambda>(name, cursor).
     rbind (read_string MIN_SYMBOL_SIZE MAX_SYMBOL_SIZE
              (TPA_InvalidAnnouncementData ''failed to read the symbol length'')
              TPA_InvalidSymbolLength
              (TPA_InvalidAnnouncementData ''failed to read the symbol'') TPA_InvalidUtf8String
              cursor) (\<lambda>(symbol, cursor).
     rbind (ok_or (read_u8 cursor)
             (TPA_InvalidAnnouncementData ''failed to read the decimal'')) (\<lambda>(decimal, cursor).
     rbind (ok_or (read_exact 16 cursor)
             (TPA_InvalidAnnouncementData ''failed to read the max supply'')) (\<lambda>(supply, cursor).
     rbind (ok_or (read_u8 cursor)
             (TPA_InvalidAnnouncementData ''failed to read is freezable'')) (\<lambda>(freezable, cursor).
     Inr \<lparr>tpa_token_pubkey = t, tpa_name = name, tpa_symbol = symbol, tpa_decimal = decimal,
          tpa_max_supply = from_le_bytes supply, tpa_is_freezable = (freezable \<noteq> 0)\<rparr>)))))))"

definition TPA_to_data :: "TokenPubkeyAnnouncement \<Rightarrow> bytes" where
  "TPA_to_data a =
     TokenPubkey_to_bytes (tpa_token_pubkey a)
     @ [of_nat (length (tpa_name a))] @ tpa_name a
     @ [of_nat (length (tpa_symbol a))] @ tpa_symbol a
     @ [tpa_decimal a]
     @ to_le_bytes (tpa_max_supply a)
     @ [if tpa_is_freezable a then 1 else 0]"

section \<open>Transfer of ownership\<close>

definition MAX_SCRIPT_SIZE :: nat where "MAX_SCRIPT_SIZE = 48"
definition MIN_SCRIPT_SIZE :: nat where "MIN_SCRIPT_SIZE = 16"

definition TRANSFER_OWNERSHIP_ANNOUNCEMENT_MAX_SIZE :: nat where
  "TRANSFER_OWNERSHIP_ANNOUNCEMENT_MAX_SIZE = TOKEN_PUBKEY_SIZE + MAX_SCRIPT_SIZE"

definition TRANSFER_OWNERSHIP_ANNOUNCEMENT_MIN_SIZE :: nat where
  "TRANSFER_OWNERSHIP_ANNOUNCEMENT_MIN_SIZE = SCHNORR_PUBLIC_KEY_SIZE + MIN_SCRIPT_SIZE"

text \<open>Both the token and the new owner are read from the bytes after position 33.\<close>

definition TO_from_data ::
  "lib \<Rightarrow> bytes \<Rightarrow> TransferOwnershipAnnouncementParseError + TransferOwnershipAnnouncement" where
  "TO_from_data L data =
     (if length data < TRANSFER_OWNERSHIP_ANNOUNCEMENT_MIN_SIZE
         \<or> TRANSFER_OWNERSHIP_ANNOUNCEMENT_MAX_SIZE < length data
      then Inl (TO_InvalidSize (length data))
      else
        rbind (map_err TO_InvalidTokenPubkey
                (TokenPubkey_from_bytes L (drop TOKEN_PUBKEY_SIZE data))) (\<lambda>t.
        Inr \<lparr>to_token_pubkey = t, new_owner = drop TOKEN_PUBKEY_SIZE data\<rparr>))"

definition TO_to_data :: "TransferOwnershipAnnouncement \<Rightarrow> bytes" where
  "TO_to_data a = TokenPubkey_to_bytes (to_token_pubkey a) @ new_owner a"

section \<open>Token logo\<close>

definition MAX_URL_SIZE :: nat where "MAX_URL_SIZE = 48"
definition MIN_URL_SIZE :: nat where "MIN_URL_SIZE = 15"

definition MIN_TOKEN_LOGO_ANNOUNCEMENT_SIZE :: nat where
  "MIN_TOKEN_LOGO_ANNOUNCEMENT_SIZE = TOKEN_PUBKEY_SIZE + MIN_URL_SIZE"

definition TokenLogoAnnouncement_new ::
  "TokenPubkey \<Rightarrow> bytes \<Rightarrow> TokenLogoAnnouncementParseError + TokenLogoAnnouncement" where
  "TokenLogoAnnouncement_new t url =
     (if length url < MIN_URL_SIZE \<or> MAX_URL_SIZE < length url then Inl Logo_InvalidUrlLength
      else Inr \<lparr>logo_token_pubkey = t, logo_url = url\<rparr>)"

definition Logo_from_data ::
  "lib \<Rightarrow> bytes \<Rightarrow> TokenLogoAnnouncementParseError + TokenLogoAnnouncement" where
  "Logo_from_data L data =
     rbind (require (MIN_TOKEN_LOGO_ANNOUNCEMENT_SIZE \<le> length data) Logo_ShortLength) (\<lambda>_.
     rbind (map_err Logo_InvalidTokenPubkey
             (TokenPubkey_from_bytes L (take TOKEN_PUBKEY_SIZE data))) (\<lambda>t.
     rbind (read_string MIN_URL_SIZE MAX_URL_SIZE
              (Logo_InvalidAnnouncementData ''failed to read the url length'') Logo_InvalidUrlLength
              (Logo_InvalidAnnouncementData ''failed to read the url'') Logo_InvalidUtf8String
              (drop TOKEN_PUBKEY_SIZE data)) (\<lambda>(url, cursor).
     TokenLogoAnnouncement_new t url)))"

definition Logo_to_data :: "TokenLogoAnnouncement \<Rightarrow> bytes" where
  "Logo_to_data a =
     TokenPubkey_to_bytes (logo_token_pubkey a) @ [of_nat (length (logo_url a))] @ logo_url a"

section \<open>Freezes\<close>

definition TX_ID_SIZE :: nat where "TX_ID_SIZE = 32"
definition VOUT_SIZE :: nat where "VOUT_SIZE = 4"

definition FREEZE_ENTRY_MIN_SIZE :: nat where
  "FREEZE_ENTRY_MIN_SIZE = TX_ID_SIZE + VOUT_SIZE + SCHNORR_PUBLIC_KEY_SIZE"

definition FREEZE_ENTRY_MAX_SIZE :: nat where
  "FREEZE_ENTRY_MAX_SIZE = TX_ID_SIZE + VOUT_SIZE + TOKEN_PUBKEY_SIZE"

definition TXF_from_data :: "lib \<Rightarrow> bytes \<Rightarrow> FreezeAnnouncementParseError + TxFreezeAnnouncement" where
  "TXF_from_data L data =
     (if length data < FREEZE_ENTRY_MIN_SIZE \<or> FREEZE_ENTRY_MAX_SIZE < length data
      then Inl (TXF_InvalidSize (length data))
      else
        let txid = from_be_bytes (take TX_ID_SIZE data);
            vout = from_be_bytes (take VOUT_SIZE (drop TX_ID_SIZE data));
            token_bytes = drop (TX_ID_SIZE + VOUT_SIZE) data in
        rbind (if length token_bytes = TOKEN_PUBKEY_SIZE
               then map_err TXF_InvalidTokenPubkey (TokenPubkey_from_bytes L token_bytes)
               else rbind (ok_or (xonly_from_slice L token_bytes)
                            (TXF_InvalidTokenPubkey TokenPubkey_InvalidPublicKey))
                      (\<lambda>x. Inr (TokenPubkey_from_xonly L x))) (\<lambda>t.
        Inr \<lparr>txf_token_pubkey = t, txf_outpoint = \<lparr>op_txid = txid, op_vout = vout\<rparr>\<rparr>))"

definition TXF_to_data :: "TxFreezeAnnouncement \<Rightarrow> bytes" where
  "TXF_to_data a =
     to_be_bytes (op_txid (txf_outpoint a)) @ to_be_bytes (op_vout (txf_outpoint a))
     @ TokenPubkey_to_bytes (txf_token_pubkey a)"

definition PUBKEY_FREEZE_ENTRY_SIZE :: nat where
  "PUBKEY_FREEZE_ENTRY_SIZE = 33 + TOKEN_PUBKEY_SIZE"

definition PKF_from_data ::
  "lib \<Rightarrow> bytes \<Rightarrow> PubkeyFreezeAnnouncementParseError + PubkeyFreezeAnnouncement" where
  "PKF_from_data L data =
     (if length data \<noteq> PUBKEY_FREEZE_ENTRY_SIZE then Inl (PKF_InvalidSize (length data))
      else
        rbind (ok_or (pk_from_slice L (take 33 data)) PKF_InvalidPublicKey) (\<lambda>k.
        rbind (map_err PKF_InvalidTokenPubkey (TokenPubkey_from_bytes L (drop 33 data))) (\<lambda>t.
        Inr \<lparr>pkf_token_pubkey = t, pkf_pubkey = k\<rparr>)))"

definition PKF_to_data :: "PubkeyFreezeAnnouncement \<Rightarrow> bytes" where
  "PKF_to_data a = pk_serialize (pkf_pubkey a) @ TokenPubkey_to_bytes (pkf_token_pubkey a)"

section \<open>The envelope\<close>

definition ANNOUNCEMENT_PREFIX :: bytes where "ANNOUNCEMENT_PREFIX = [76, 82, 67, 50, 48]"
definition ANNOUNCEMENT_KIND_LENGTH :: nat where "ANNOUNCEMENT_KIND_LENGTH = 2"
definition ANNOUNCEMENT_MINIMAL_LENGTH :: nat where
  "ANNOUNCEMENT_MINIMAL_LENGTH = length ANNOUNCEMENT_PREFIX + ANNOUNCEMENT_KIND_LENGTH"
definition ANNOUNCEMENT_INSTRUCTION_NUMBER :: nat where "ANNOUNCEMENT_INSTRUCTION_NUMBER = 3"

definition TOKEN_PUBKEY_ANNOUNCEMENT_KIND :: bytes where "TOKEN_PUBKEY_ANNOUNCEMENT_KIND = [0, 0]"
definition TX_FREEZE_ANNOUNCEMENT_KIND :: bytes where "TX_FREEZE_ANNOUNCEMENT_KIND = [0, 1]"
definition ISSUE_ANNOUNCEMENT_KIND :: bytes where "ISSUE_ANNOUNCEMENT_KIND = [0, 2]"
definition TRANSFER_OWNERSHIP_ANNOUNCEMENT_KIND :: bytes where
  "TRANSFER_OWNERSHIP_ANNOUNCEMENT_KIND = [0, 3]"
definition PUBKEY_FREEZE_ANNOUNCEMENT_KIND :: bytes where "PUBKEY_FREEZE_ANNOUNCEMENT_KIND = [0, 5]"
definition TOKEN_LOGO_ANNOUNCEMENT_KIND :: bytes where "TOKEN_LOGO_ANNOUNCEMENT_KIND = [0, 6]"

text \<open>The default methods of the trait AnyAnnouncement, given the kind and the data
  encoding of an implementation.\<close>

definition Any_to_bytes :: "bytes \<Rightarrow> ('a \<Rightarrow> bytes) \<Rightarrow> 'a \<Rightarrow> bytes" where
  "Any_to_bytes kind to_data a = ANNOUNCEMENT_PREFIX @ kind @ to_data a"

definition Any_from_bytes ::
  "(bytes \<Rightarrow> AnnouncementParseError + 'a) \<Rightarrow> bytes \<Rightarrow> AnnouncementParseError + 'a" where
  "Any_from_bytes from_data bs =
     (if length bs < ANNOUNCEMENT_MINIMAL_LENGTH then Inl ShortLength
      else if take 5 bs \<noteq> ANNOUNCEMENT_PREFIX then Inl InvalidPrefix
      else from_data (drop ANNOUNCEMENT_MINIMAL_LENGTH bs))"

definition Issue_from_bytes :: "lib \<Rightarrow> bytes \<Rightarrow> AnnouncementParseError + IssueAnnouncement" where
  "Issue_from_bytes L =
     Any_from_bytes (\<lambda>d. map_err (InvalidAnnouncementData \<circ> IssueE) (Issue_from_data L d))"

fun kind :: "Announcement \<Rightarrow> bytes" where
  "kind (TokenLogoA _) = TOKEN_LOGO_ANNOUNCEMENT_KIND"
| "kind (TokenPubkeyA _) = TOKEN_PUBKEY_ANNOUNCEMENT_KIND"
| "kind (TxFreezeA _) = TX_FREEZE_ANNOUNCEMENT_KIND"
| "kind (PubkeyFreezeA _) = PUBKEY_FREEZE_ANNOUNCEMENT_KIND"
| "kind (IssueA _) = ISSUE_ANNOUNCEMENT_KIND"
| "kind (TransferOwnershipA _) = TRANSFER_OWNERSHIP_ANNOUNCEMENT_KIND"

fun to_announcement_data_bytes :: "Announcement \<Rightarrow> bytes" where
  "to_announcement_data_bytes (TokenLogoA a) = Logo_to_data a"
| "to_announcement_data_bytes (TokenPubkeyA a) = TPA_to_data a"
| "to_announcement_data_bytes (TxFreezeA a) = TXF_to_data a"
| "to_announcement_data_bytes (PubkeyFreezeA a) = PKF_to_data a"
| "to_announcement_data_bytes (IssueA a) = Issue_to_data a"
| "to_announcement_data_bytes (TransferOwnershipA a) = TO_to_data a"

definition Announcement_to_bytes :: "Announcement \<Rightarrow> bytes" where
  "Announcement_to_bytes a = Any_to_bytes (kind a) to_announcement_data_bytes a"

fun announcement_token_pubkey :: "Announcement \<Rightarrow> TokenPubkey" where
  "announcement_token_pubkey (TokenLogoA a) = logo_token_pubkey a"
| "announcement_token_pubkey (TokenPubkeyA a) = tpa_token_pubkey a"
| "announcement_token_pubkey (TxFreezeA a) = txf_token_pubkey a"
| "announcement_token_pubkey (PubkeyFreezeA a) = pkf_token_pubkey a"
| "announcement_token_pubkey (IssueA a) = issue_token_pubkey a"
| "announcement_token_pubkey (TransferOwnershipA a) = to_token_pubkey a"

fun minimal_block_height :: "Announcement \<Rightarrow> Network \<Rightarrow> nat" where
  "minimal_block_height (TransferOwnershipA _) Bitcoin = 855000"
| "minimal_block_height (TransferOwnershipA _) Testnet = 2830000"
| "minimal_block_height (TransferOwnershipA _) Mutiny = 1200000"
| "minimal_block_height _ _ = 0"

definition announcement_from_bytes :: "lib \<Rightarrow> bytes \<Rightarrow> AnnouncementParseError + Announcement" where
  "announcement_from_bytes L bs =
     (if length bs < ANNOUNCEMENT_MINIMAL_LENGTH then Inl ShortLength
      else if take 5 bs \<noteq> ANNOUNCEMENT_PREFIX then Inl InvalidPrefix
      else
        let k = take 2 (drop 5 bs); d = drop ANNOUNCEMENT_MINIMAL_LENGTH bs in
        if k = TOKEN_PUBKEY_ANNOUNCEMENT_KIND then
          rbind (map_err (InvalidAnnouncementData \<circ> TokenPubkeyE) (TPA_from_data L d))
            (Inr \<circ> TokenPubkeyA)
        else if k = TX_FREEZE_ANNOUNCEMENT_KIND then
          rbind (map_err (InvalidAnnouncementData \<circ> TxFreezeE) (TXF_from_data L d))
            (Inr \<circ> TxFreezeA)
        else if k = PUBKEY_FREEZE_ANNOUNCEMENT_KIND then
          rbind (map_err (InvalidAnnouncementData \<circ> PubkeyFreezeE) (PKF_from_data L d))
            (Inr \<circ> PubkeyFreezeA)
        else if k = ISSUE_ANNOUNCEMENT_KIND then
          rbind (map_err (InvalidAnnouncementData \<circ> IssueE) (Issue_from_data L d))
            (Inr \<circ> IssueA)
        else if k = TRANSFER_OWNERSHIP_ANNOUNCEMENT_KIND then
          rbind (map_err (InvalidAnnouncementData \<circ> TransferOwnershipE) (TO_from_data L d))
            (Inr \<circ> TransferOwnershipA)
        else if k = TOKEN_LOGO_ANNOUNCEMENT_KIND then
          rbind (map_err (InvalidAnnouncementData \<circ> TokenLogoE) (Logo_from_data L d))
            (Inr \<circ> TokenLogoA)
        else Inl UnknownAnnouncementKind)"

section \<open>OP_RETURN scripts\<close>

datatype 'e ParseOpReturnError =
    InvalidInstructionsNumber nat
  | NoOpReturn
  | InvalidInstruction u8
  | ScriptError
  | IsNotAnnouncement
  | InvaliOpReturnData 'e

definition is_announcement :: "bytes \<Rightarrow> bool" where
  "is_announcement src = (ANNOUNCEMENT_MINIMAL_LENGTH \<le> length src \<and> take 5 src = ANNOUNCEMENT_PREFIX)"

definition parse_op_return_script ::
  "lib \<Rightarrow> script \<Rightarrow> (bytes \<Rightarrow> 'e + 'a) \<Rightarrow> 'e ParseOpReturnError + 'a" where
  "parse_op_return_script L s parse_fn =
     rbind (require (is_op_return L s) NoOpReturn) (\<lambda>_.
     rbind (map_err (\<lambda>_. ScriptError) (mapM id (instructions L s))) (\<lambda>is.
     rbind (require (length is = ANNOUNCEMENT_INSTRUCTION_NUMBER - 1)
             (InvalidInstructionsNumber (length is))) (\<lambda>_.
     case is ! 1 of
       PushBytes bs \<Rightarrow>
         rbind (require (is_announcement bs) IsNotAnnouncement) (\<lambda>_.
         map_err InvaliOpReturnData (parse_fn bs))
     | Op c \<Rightarrow> Inl (InvalidInstruction c))))"

definition announcement_from_script ::
  "lib \<Rightarrow> script \<Rightarrow> AnnouncementParseError ParseOpReturnError + Announcement" where
  "announcement_from_script L s = parse_op_return_script L s (announcement_from_bytes L)"

definition Announcement_to_script :: "lib \<Rightarrow> Announcement \<Rightarrow> script" where
  "Announcement_to_script L a =
     build_script L [PushOpcode OP_RETURN, PushSlice (Announcement_to_bytes a)]"

section \<open>Well-formed announcements\<close>

text \<open>What the constructors of the source enforce, plus that the keys are keys.\<close>

fun wf_announcement :: "lib \<Rightarrow> Announcement \<Rightarrow> bool" where
  "wf_announcement L (IssueA a) = valid_key L (pubkey (issue_token_pubkey a))"
| "wf_announcement L (TokenPubkeyA a) =
     (valid_key L (pubkey (tpa_token_pubkey a))
      \<and> MIN_NAME_SIZE \<le> length (tpa_name a) \<and> length (tpa_name a) \<le> MAX_NAME_SIZE
      \<and> MIN_SYMBOL_SIZE \<le> length (tpa_symbol a) \<and> length (tpa_symbol a) \<le> MAX_SYMBOL_SIZE
      \<and> is_utf8 (tpa_name a) \<and> is_utf8 (tpa_symbol a))"
| "wf_announcement L (TokenLogoA a) =
     (valid_key L (pubkey (logo_token_pubkey a)) \<and> is_utf8 (logo_url a)
      \<and> MIN_URL_SIZE \<le> length (logo_url a) \<and> length (logo_url a) \<le> MAX_URL_SIZE)"
| "wf_announcement L (TxFreezeA a) = valid_key L (pubkey (txf_token_pubkey a))"
| "wf_announcement L (PubkeyFreezeA a) =
     (valid_key L (pubkey (pkf_token_pubkey a)) \<and> valid_key L (pkf_pubkey a))"
| "wf_announcement L (TransferOwnershipA a) =
     (valid_key L (pubkey (to_token_pubkey a))
      \<and> MIN_SCRIPT_SIZE \<le> length (new_owner a) \<and> length (new_owner a) \<le> MAX_SCRIPT_SIZE)"

section \<open>The contract of an announcement type\<close>

text \<open>What an implementation of AnyAnnouncement promises to the default methods: its
  kind has two bytes and its data parser inverts its data writer on well-formed
  messages.\<close>

locale any_announcement =
  fixes ann_kind :: bytes
    and to_data :: "'a \<Rightarrow> bytes"
    and from_data :: "bytes \<Rightarrow> AnnouncementParseError + 'a"
    and wf :: "'a \<Rightarrow> bool"
  assumes kind_length: "length ann_kind = ANNOUNCEMENT_KIND_LENGTH"
    and data_roundtrip: "wf a \<Longrightarrow> from_data (to_data a) = Inr a"
begin

lemma to_bytes_shape:
  "\<not> length (Any_to_bytes ann_kind to_data a) < ANNOUNCEMENT_MINIMAL_LENGTH"
  "take 5 (Any_to_bytes ann_kind to_data a) = ANNOUNCEMENT_PREFIX"
  "take 2 (drop 5 (Any_to_bytes ann_kind to_data a)) = ann_kind"
  "drop ANNOUNCEMENT_MINIMAL_LENGTH (Any_to_bytes ann_kind to_data a) = to_data a"
  using kind_length
  by (simp_all add: Any_to_bytes_def ANNOUNCEMENT_MINIMAL_LENGTH_def ANNOUNCEMENT_PREFIX_def
      ANNOUNCEMENT_KIND_LENGTH_def)

lemma bytes_roundtrip:
  "wf a \<Longrightarrow> Any_from_bytes from_data (Any_to_bytes ann_kind to_data a) = Inr a"
  using to_bytes_shape [of a] by (simp add: Any_from_bytes_def data_roundtrip)

lemma to_bytes_inj:
  "wf a \<Longrightarrow> wf b \<Longrightarrow> Any_to_bytes ann_kind to_data a = Any_to_bytes ann_kind to_data b \<Longrightarrow> a = b"
  using bytes_roundtrip by (metis Inr_inject)

end

section \<open>Lemmas\<close>

lemmas announcement_sizes = receipt_sizes
  SCHNORR_PUBLIC_KEY_SIZE_def ISSUE_ANNOUNCEMENT_MIN_SIZE_def ISSUE_ANNOUNCEMENT_MAX_SIZE_def
  MAX_NAME_SIZE_def MIN_NAME_SIZE_def MAX_SYMBOL_SIZE_def MIN_SYMBOL_SIZE_def
  MIN_TOKEN_PUBKEY_ANNOUNCEMENT_SIZE_def MAX_SCRIPT_SIZE_def MIN_SCRIPT_SIZE_def
  TRANSFER_OWNERSHIP_ANNOUNCEMENT_MAX_SIZE_def TRANSFER_OWNERSHIP_ANNOUNCEMENT_MIN_SIZE_def
  MAX_URL_SIZE_def MIN_URL_SIZE_def MIN_TOKEN_LOGO_ANNOUNCEMENT_SIZE_def
  TX_ID_SIZE_def VOUT_SIZE_def FREEZE_ENTRY_MIN_SIZE_def FREEZE_ENTRY_MAX_SIZE_def
  PUBKEY_FREEZE_ENTRY_SIZE_def

lemmas announcement_kinds =
  TOKEN_PUBKEY_ANNOUNCEMENT_KIND_def TX_FREEZE_ANNOUNCEMENT_KIND_def ISSUE_ANNOUNCEMENT_KIND_def
  TRANSFER_OWNERSHIP_ANNOUNCEMENT_KIND_def PUBKEY_FREEZE_ANNOUNCEMENT_KIND_def
  TOKEN_LOGO_ANNOUNCEMENT_KIND_def

lemma read_string_append [codec_simps]:
  assumes "lo \<le> length s" "length s \<le> hi" "hi < 256" "is_utf8 s"
  shows "read_string lo hi e1 e2 e3 e4 (of_nat (length s) # s @ rest) = Inr (s, rest)"
proof -
  have "unat (of_nat (length s) :: u8) = length s"
    using assms by (simp add: unat_of_nat)
  with assms show ?thesis by (simp add: read_string_def)
qed

lemmas read_string_all = read_string_append [where rest = "[]", simplified]

lemma Issue_data_roundtrip:
  "valid_key L (pubkey (issue_token_pubkey a)) \<Longrightarrow> Issue_from_data L (Issue_to_data a) = Inr a"
  by (simp add: Issue_from_data_def Issue_to_data_def announcement_sizes
      TokenPubkey_roundtrip Let_def)

lemma TXF_data_roundtrip:
  "valid_key L (pubkey (txf_token_pubkey a)) \<Longrightarrow> TXF_from_data L (TXF_to_data a) = Inr a"
  by (simp add: TXF_from_data_def TXF_to_data_def announcement_sizes
      TokenPubkey_roundtrip Let_def)

lemma PKF_data_roundtrip:
  "valid_key L (pubkey (pkf_token_pubkey a)) \<Longrightarrow> valid_key L (pkf_pubkey a) \<Longrightarrow>
    PKF_from_data L (PKF_to_data a) = Inr a"
  by (simp add: PKF_from_data_def PKF_to_data_def announcement_sizes TokenPubkey_roundtrip)

lemma Logo_data_roundtrip:
  assumes "wf_announcement L (TokenLogoA a)"
  shows "Logo_from_data L (Logo_to_data a) = Inr a"
  using assms
  by (simp add: Logo_from_data_def Logo_to_data_def announcement_sizes TokenPubkey_roundtrip
      read_string_all TokenLogoAnnouncement_new_def)

lemma TPA_data_roundtrip:
  assumes "wf_announcement L (TokenPubkeyA a)"
  shows "TPA_from_data L (TPA_to_data a) = Inr a"
proof -
  have "3 \<le> length (tpa_name a)" "length (tpa_name a) \<le> 17" "is_utf8 (tpa_name a)"
    "3 \<le> length (tpa_symbol a)" "length (tpa_symbol a) \<le> 6" "is_utf8 (tpa_symbol a)"
    "valid_key L (pubkey (tpa_token_pubkey a))"
    using assms by (simp_all add: announcement_sizes)
  then show ?thesis
    by (simp add: TPA_from_data_def TPA_to_data_def announcement_sizes TokenPubkey_roundtrip
        read_string_append)
qed

interpretation issue_ann: any_announcement ISSUE_ANNOUNCEMENT_KIND Issue_to_data
    "\<lambda>d. map_err (InvalidAnnouncementData \<circ> IssueE) (Issue_from_data L d)"
    "\<lambda>a. wf_announcement L (IssueA a)" for L
  by unfold_locales
    (simp_all add: announcement_kinds ANNOUNCEMENT_KIND_LENGTH_def Issue_data_roundtrip)

interpretation token_pubkey_ann: any_announcement TOKEN_PUBKEY_ANNOUNCEMENT_KIND TPA_to_data
    "\<lambda>d. map_err (InvalidAnnouncementData \<circ> TokenPubkeyE) (TPA_from_data L d)"
    "\<lambda>a. wf_announcement L (TokenPubkeyA a)" for L
  by unfold_locales
    (simp_all add: announcement_kinds ANNOUNCEMENT_KIND_LENGTH_def TPA_data_roundtrip
      del: wf_announcement.simps)

interpretation token_logo_ann: any_announcement TOKEN_LOGO_ANNOUNCEMENT_KIND Logo_to_data
    "\<lambda>d. map_err (InvalidAnnouncementData \<circ> TokenLogoE) (Logo_from_data L d)"
    "\<lambda>a. wf_announcement L (TokenLogoA a)" for L
  by unfold_locales
    (simp_all add: announcement_kinds ANNOUNCEMENT_KIND_LENGTH_def Logo_data_roundtrip
      del: wf_announcement.simps)

interpretation tx_freeze_ann: any_announcement TX_FREEZE_ANNOUNCEMENT_KIND TXF_to_data
    "\<lambda>d. map_err (InvalidAnnouncementData \<circ> TxFreezeE) (TXF_from_data L d)"
    "\<lambda>a. wf_announcement L (TxFreezeA a)" for L
  by unfold_locales
    (simp_all add: announcement_kinds ANNOUNCEMENT_KIND_LENGTH_def TXF_data_roundtrip)

interpretation pubkey_freeze_ann: any_announcement PUBKEY_FREEZE_ANNOUNCEMENT_KIND PKF_to_data
    "\<lambda>d. map_err (InvalidAnnouncementData \<circ> PubkeyFreezeE) (PKF_from_data L d)"
    "\<lambda>a. wf_announcement L (PubkeyFreezeA a)" for L
  by unfold_locales
    (simp_all add: announcement_kinds ANNOUNCEMENT_KIND_LENGTH_def PKF_data_roundtrip)

text \<open>The parser of any announcement sees the kind and the data the writer put into the
  envelope.\<close>

lemma Announcement_to_bytes_shape:
  "\<not> length (Announcement_to_bytes a) < ANNOUNCEMENT_MINIMAL_LENGTH"
  "take 5 (Announcement_to_bytes a) = ANNOUNCEMENT_PREFIX"
  "take 2 (drop 5 (Announcement_to_bytes a)) = kind a"
  "drop ANNOUNCEMENT_MINIMAL_LENGTH (Announcement_to_bytes a) = to_announcement_data_bytes a"
  by (cases a; simp add: Announcement_to_bytes_def Any_to_bytes_def ANNOUNCEMENT_PREFIX_def
      ANNOUNCEMENT_MINIMAL_LENGTH_def ANNOUNCEMENT_KIND_LENGTH_def announcement_kinds)+

lemma announcement_from_bytes_roundtrip:
  assumes "wf_announcement L a" and "\<nexists>t. a = TransferOwnershipA t"
  shows "announcement_from_bytes L (Announcement_to_bytes a) = Inr a"
  using Announcement_to_bytes_shape [of a] assms
  by (cases a) (simp_all add: announcement_from_bytes_def announcement_kinds Issue_data_roundtrip
      TPA_data_roundtrip Logo_data_roundtrip TXF_data_roundtrip PKF_data_roundtrip
      del: wf_announcement.simps(2,3))

section \<open>Properties\<close>

text \<open>C13. Every well-formed announcement except a transfer of ownership survives the
  envelope: parsing the bytes its writer produces returns the same announcement, the
  kind bytes included.\<close>

theorem announcement_bytes_roundtrip:
  assumes "wf_announcement L a" and "kind a \<noteq> TRANSFER_OWNERSHIP_ANNOUNCEMENT_KIND"
  shows "announcement_from_bytes L (Announcement_to_bytes a) = Inr a"
  using assms by (intro announcement_from_bytes_roundtrip) auto

theorem announcement_bytes_roundtrip_witness:
  "announcement_from_bytes lib0 (Announcement_to_bytes
     (TokenPubkeyA \<lparr>tpa_token_pubkey = TokenPubkey (PublicKey 9), tpa_name = [65, 66, 67],
        tpa_symbol = [65, 66, 67], tpa_decimal = 8, tpa_max_supply = 21, tpa_is_freezable = True\<rparr>))
   = Inr (TokenPubkeyA \<lparr>tpa_token_pubkey = TokenPubkey (PublicKey 9), tpa_name = [65, 66, 67],
        tpa_symbol = [65, 66, 67], tpa_decimal = 8, tpa_max_supply = 21, tpa_is_freezable = True\<rparr>)"
  by (rule announcement_bytes_roundtrip) (simp_all add: announcement_sizes announcement_kinds)

text \<open>C22. A transfer of ownership does not survive: the parser reads the token from the
  bytes of the new owner's script, so an announcement whose script is shorter than a key,
  such as every pay-to-witness-public-key-hash script, is rejected, and one that is
  accepted names the key spelled by the script as its token.\<close>

theorem transfer_ownership_bytes:
  assumes "wf_announcement L (TransferOwnershipA a)"
  shows "announcement_from_bytes L (Announcement_to_bytes (TransferOwnershipA a)) =
    (if length (new_owner a) < 33
     then Inl (InvalidAnnouncementData (TransferOwnershipE
            (TO_InvalidTokenPubkey (TokenPubkey_InvalidSize (length (new_owner a))))))
     else case pk_from_slice L (new_owner a) of
            None \<Rightarrow> Inl (InvalidAnnouncementData (TransferOwnershipE
                      (TO_InvalidTokenPubkey TokenPubkey_InvalidPublicKey)))
          | Some k \<Rightarrow> Inr (TransferOwnershipA (a\<lparr>to_token_pubkey := TokenPubkey k\<rparr>)))"
proof -
  have d: "to_announcement_data_bytes (TransferOwnershipA a)
      = TokenPubkey_to_bytes (to_token_pubkey a) @ new_owner a"
    by (simp add: TO_to_data_def)
  have "16 \<le> length (new_owner a)" "length (new_owner a) \<le> 48"
    using assms by (simp_all add: announcement_sizes)
  then show ?thesis
    using Announcement_to_bytes_shape [of "TransferOwnershipA a"] unfolding d
    by (simp add: announcement_from_bytes_def announcement_kinds TO_from_data_def
        announcement_sizes TokenPubkey_from_bytes_def split: option.splits)
qed

theorem transfer_ownership_bytes_witness:
  "\<not> is_ok (announcement_from_bytes lib0 (Announcement_to_bytes
     (TransferOwnershipA \<lparr>to_token_pubkey = TokenPubkey (PublicKey 9),
        new_owner = new_p2wpkh lib0 7\<rparr>)))"
proof -
  have "length (new_p2wpkh lib0 7) = 22" by (simp add: lib0_def)
  then show ?thesis
    using transfer_ownership_bytes
      [of lib0 "\<lparr>to_token_pubkey = TokenPubkey (PublicKey 9), new_owner = new_p2wpkh lib0 7\<rparr>"]
    by (simp add: announcement_sizes)
qed

text \<open>The parser of an issue message looks at the prefix and the data and never at the
  kind: whatever two bytes stand in the place of the kind, the result is the same.\<close>

theorem issue_parser_ignores_kind:
  assumes "length k = 2" "length k' = 2"
  shows "Issue_from_bytes L (ANNOUNCEMENT_PREFIX @ k @ d) = Issue_from_bytes L (ANNOUNCEMENT_PREFIX @ k' @ d)"
  using assms
  by (simp add: Issue_from_bytes_def Any_from_bytes_def ANNOUNCEMENT_PREFIX_def
      ANNOUNCEMENT_MINIMAL_LENGTH_def ANNOUNCEMENT_KIND_LENGTH_def)

theorem issue_parser_ignores_kind_witness:
  "Issue_from_bytes lib0 (ANNOUNCEMENT_PREFIX @ TX_FREEZE_ANNOUNCEMENT_KIND @ Issue_to_data
      \<lparr>issue_token_pubkey = TokenPubkey (PublicKey 9), issue_amount = 5\<rparr>)
   = Inr \<lparr>issue_token_pubkey = TokenPubkey (PublicKey 9), issue_amount = 5\<rparr>"
  using issue_parser_ignores_kind [of TX_FREEZE_ANNOUNCEMENT_KIND ISSUE_ANNOUNCEMENT_KIND lib0]
    issue_ann.bytes_roundtrip [of lib0 "\<lparr>issue_token_pubkey = TokenPubkey (PublicKey 9), issue_amount = 5\<rparr>"]
  by (simp add: announcement_kinds Issue_from_bytes_def Any_to_bytes_def)

end
