(* ===== verification/Transactions.thy ===== *)
theory Transactions
  imports Proof Announcements
begin

text \<open>
  LRC20 transactions (crates/types/src/transactions, proofs.rs): a Bitcoin
  transaction together with what it means for the tokens, and the maps of proofs
  by input and output index. A BTreeMap is the list of its entries in ascending
  order of the keys.
\<close>

type_synonym ('k, 'v) btree_map = "('k \<times> 'v) list"
type_synonym ProofMap = "(u32, ReceiptProof) btree_map"

text \<open>Inserting replaces the value of a key that is present.\<close>

fun btree_insert :: "'k::linorder \<Rightarrow> 'v \<Rightarrow> ('k, 'v) btree_map \<Rightarrow> ('k, 'v) btree_map" where
  "btree_insert k v [] = [(k, v)]"
| "btree_insert k v ((k', v') # m) =
     (if k < k' then (k, v) # (k', v') # m
      else if k = k' then (k, v) # m
      else (k', v') # btree_insert k v m)"

definition wf_btree :: "('k::linorder, 'v) btree_map \<Rightarrow> bool" where
  "wf_btree m = sorted_wrt (<) (map fst m)"

datatype Lrc20TxType =
    Issue "ProofMap option" IssueAnnouncement
  | Transfer ProofMap ProofMap
  | AnnouncementTx Announcement
  | SparkExitTx ProofMap

record Lrc20Transaction =
  bitcoin_tx :: Transaction
  tx_type :: Lrc20TxType

fun output_proofs :: "Lrc20TxType \<Rightarrow> ProofMap option" where
  "output_proofs (Issue ps _) = ps"
| "output_proofs (Transfer _ ps) = Some ps"
| "output_proofs (SparkExitTx ps) = Some ps"
| "output_proofs (AnnouncementTx _) = None"

fun input_proofs :: "Lrc20TxType \<Rightarrow> ProofMap option" where
  "input_proofs (Transfer ps _) = Some ps"
| "input_proofs _ = None"

definition Lrc20Transaction_is_burn :: "Lrc20Transaction \<Rightarrow> bool" where
  "Lrc20Transaction_is_burn tx =
     (case output_proofs (tx_type tx) of
        None \<Rightarrow> False
      | Some ps \<Rightarrow> list_ex is_burn (map snd ps))"

fun is_spark_exit_type :: "Lrc20TxType \<Rightarrow> bool" where
  "is_spark_exit_type (SparkExitTx _) = True"
| "is_spark_exit_type _ = False"

definition is_spark_exit :: "Lrc20Transaction \<Rightarrow> bool" where
  "is_spark_exit tx = is_spark_exit_type (tx_type tx)"

definition ltxid :: "lib \<Rightarrow> Lrc20Transaction \<Rightarrow> txid" where
  "ltxid L tx = tx_txid L (bitcoin_tx tx)"

section \<open>Lemmas\<close>

lemma btree_insert_get [simp]:
  "wf_btree m \<Longrightarrow> map_of (btree_insert k v m) = (map_of m)(k \<mapsto> v)"
proof (induction m)
  case (Cons p m)
  then show ?case
    by (cases p) (auto simp: wf_btree_def fun_eq_iff dest!: map_of_SomeD)
qed simp

lemma btree_insert_keys: "fst ` set (btree_insert k v m) = insert k (fst ` set m)"
  by (induction k v m rule: btree_insert.induct) auto

lemma wf_btree_insert [simp]: "wf_btree m \<Longrightarrow> wf_btree (btree_insert k v m)"
proof (induction m)
  case (Cons p m)
  then show ?case
    using btree_insert_keys [of k v m]
    by (cases p) (auto simp: wf_btree_def)
qed (simp add: wf_btree_def)

lemma btree_insert_last:
  "\<forall>k' \<in> fst ` set m. k' < k \<Longrightarrow> btree_insert k v m = m @ [(k, v)]"
  by (induction k v m rule: btree_insert.induct) auto

lemma wf_btree_distinct: "wf_btree m \<Longrightarrow> distinct (map fst m)"
  by (simp add: wf_btree_def strict_sorted_iff)

section \<open>Announcements in scripts\<close>

text \<open>The package documents a script as an OP_RETURN output when it starts with that
  opcode.\<close>

definition op_return_first :: "lib \<Rightarrow> bool" where
  "op_return_first L = (\<forall>items. is_op_return L (build_script L (PushOpcode OP_RETURN # items)))"

lemma op_return_first_lib0 [simp]: "op_return_first lib0"
  by (simp add: op_return_first_def lib0_def OP_RETURN_def)

lemma Announcement_to_bytes_length:
  assumes "wf_announcement L a"
  shows "length (Announcement_to_bytes a) < 256"
  using assms
  by (cases a) (simp_all add: Announcement_to_bytes_def Any_to_bytes_def ANNOUNCEMENT_PREFIX_def
      announcement_kinds announcement_sizes Issue_to_data_def TPA_to_data_def TO_to_data_def
      Logo_to_data_def TXF_to_data_def PKF_to_data_def)

lemma parse_op_return_to_script:
  assumes "iterates_back L" "op_return_first L" "wf_announcement L a"
  shows "parse_op_return_script L (Announcement_to_script L a) f =
    map_err InvaliOpReturnData (f (Announcement_to_bytes a))"
proof -
  let ?b = "Announcement_to_bytes a"
  have shape: "\<not> length ?b < ANNOUNCEMENT_MINIMAL_LENGTH" "take 5 ?b = ANNOUNCEMENT_PREFIX"
    by (rule Announcement_to_bytes_shape)+
  then have "?b \<noteq> []"
    by (auto simp: ANNOUNCEMENT_MINIMAL_LENGTH_def ANNOUNCEMENT_PREFIX_def)
  then have "map plain_instruction [PushOpcode OP_RETURN, PushSlice ?b]
      = map Some [Op OP_RETURN, PushBytes ?b]"
    using Announcement_to_bytes_length [OF assms(3)] by (simp add: OP_RETURN_def)
  then have "instructions L (Announcement_to_script L a) = map Inr [Op OP_RETURN, PushBytes ?b]"
    using assms(1) unfolding iterates_back_def Announcement_to_script_def by blast
  moreover have "is_op_return L (Announcement_to_script L a)"
    using assms(2) by (simp add: op_return_first_def Announcement_to_script_def)
  ultimately show ?thesis
    using shape by (simp add: parse_op_return_script_def is_announcement_def
        ANNOUNCEMENT_INSTRUCTION_NUMBER_def)
qed

section \<open>Properties\<close>

text \<open>C12. An announcement published in an OP_RETURN output is read back from the script:
  for every well-formed announcement except a transfer of ownership, the parser of
  scripts returns the announcement the writer of scripts was given.\<close>

theorem announcement_script_roundtrip:
  assumes "iterates_back L" "op_return_first L"
    and "wf_announcement L a" "kind a \<noteq> TRANSFER_OWNERSHIP_ANNOUNCEMENT_KIND"
  shows "announcement_from_script L (Announcement_to_script L a) = Inr a"
proof -
  have "announcement_from_bytes L (Announcement_to_bytes a) = Inr a"
    using assms(3,4) by (intro announcement_from_bytes_roundtrip) auto
  then show ?thesis
    by (simp add: announcement_from_script_def parse_op_return_to_script [OF assms(1-3)])
qed

theorem announcement_script_roundtrip_witness:
  "announcement_from_script lib0 (Announcement_to_script lib0
     (PubkeyFreezeA \<lparr>pkf_token_pubkey = TokenPubkey (PublicKey 9), pkf_pubkey = PublicKey 5\<rparr>))
   = Inr (PubkeyFreezeA \<lparr>pkf_token_pubkey = TokenPubkey (PublicKey 9), pkf_pubkey = PublicKey 5\<rparr>)"
  by (rule announcement_script_roundtrip) (simp_all add: announcement_kinds)


end
