(* ===== verification/Consensus.thy ===== *)
theory Consensus
  imports Transactions
begin

text \<open>
  Consensus encodings (crates/receipts: consensus.rs, metadata.rs and the
  consensus.rs of every kind of proof; crates/types/src/consensus.rs): writers and
  readers of receipts, proofs, proof maps and transactions. The encodings of
  integers, scripts and Bitcoin transactions belong to rust-bitcoin and are the
  fields of the record wire.
\<close>

datatype EncodeError = ParseFailed string | IoError

type_synonym 'a reader = "bytes \<Rightarrow> EncodeError + 'a \<times> bytes"
type_synonym 'a wire_codec = "('a \<Rightarrow> bytes) \<times> 'a reader"

record wire =
  w_u8 :: "u8 wire_codec"
  w_u16 :: "u16 wire_codec"
  w_u32 :: "u32 wire_codec"
  w_script :: "script wire_codec"
  w_tx :: "Transaction wire_codec"

text \<open>Documented of Encodable and Decodable: what is written is read back, and
  nothing beyond it is consumed.\<close>

definition lawful :: "'a wire_codec \<Rightarrow> bool" where
  "lawful c = (\<forall>x rest. snd c (fst c x @ rest) = Inr (x, rest))"

definition lawful_wire :: "wire \<Rightarrow> bool" where
  "lawful_wire W = (lawful (w_u8 W) \<and> lawful (w_u16 W) \<and> lawful (w_u32 W) \<and> lawful (w_script W))"

definition tx_reads_back :: "wire \<Rightarrow> Transaction \<Rightarrow> bool" where
  "tx_reads_back W t = (\<forall>rest. snd (w_tx W) (fst (w_tx W) t @ rest) = Inr (t, rest))"

section \<open>Writers and readers\<close>

text \<open>A writer appends what its parts write, up to the first that fails.\<close>

definition enc_seq :: "(EncodeError + bytes) list \<Rightarrow> EncodeError + bytes" where
  "enc_seq ms = rbind (mapM id ms) (\<lambda>bs. Inr (concat bs))"

definition take_bytes :: "nat \<Rightarrow> bytes reader" where
  "take_bytes n bs = ok_or (read_exact n bs) IoError"

definition decode_pubkey :: "lib \<Rightarrow> string \<Rightarrow> PublicKey reader" where
  "decode_pubkey L msg bs =
     rbind (take_bytes 33 bs) (\<lambda>(b, bs).
     rbind (ok_or (pk_from_slice L b) (ParseFailed msg)) (\<lambda>k. Inr (k, bs)))"

text \<open>A loop that reads a number of elements.\<close>

fun decode_n :: "nat \<Rightarrow> 'a reader \<Rightarrow> 'a list reader" where
  "decode_n 0 dec bs = Inr ([], bs)"
| "decode_n (Suc n) dec bs =
     rbind (dec bs) (\<lambda>(x, bs). rbind (decode_n n dec bs) (\<lambda>(xs, bs). Inr (x # xs, bs)))"

section \<open>Metadata\<close>

definition try_write_metadata :: "lib \<Rightarrow> json option \<Rightarrow> EncodeError + bytes" where
  "try_write_metadata L m =
     (case m of
        Some j \<Rightarrow>
          rbind (ok_or (json_to_vec L j) IoError) (\<lambda>bs.
          Inr (to_be_bytes (of_nat (length bs) :: u32) @ bs))
      | None \<Rightarrow> Inr (to_be_bytes (0 :: u32)))"

text \<open>Reading to the end of a limited reader stops at the end of the input as well.\<close>

definition try_read_metadata :: "lib \<Rightarrow> json option reader" where
  "try_read_metadata L bs =
     rbind (take_bytes 4 bs) (\<lambda>(lb, bs).
     let n = unat (from_be_bytes lb :: u32) in
     if 0 < n then
       rbind (ok_or (json_from_slice L (take n bs)) (ParseFailed ''Failed to parse metadata'')) (\<lambda>j.
       Inr (Some j, drop n bs))
     else Inr (None, bs))"

section \<open>Receipts and proofs\<close>

definition Receipt_encode :: "Receipt \<Rightarrow> EncodeError + bytes" where
  "Receipt_encode r = Inr (Receipt_to_bytes r)"

definition Receipt_decode :: "lib \<Rightarrow> Receipt reader" where
  "Receipt_decode L bs =
     rbind (take_bytes RECEIPT_SIZE bs) (\<lambda>(b, bs).
     rbind (map_err (\<lambda>_. ParseFailed ''failed to parse the Receipt'') (Receipt_from_bytes L b)) (\<lambda>r.
     Inr (r, bs)))"

definition P2WPKH_encode :: "lib \<Rightarrow> P2WPKHProof \<Rightarrow> EncodeError + bytes" where
  "P2WPKH_encode L p = enc_seq
     [Receipt_encode (sig_receipt p), Inr (pk_serialize (sig_inner_key p)),
      try_write_metadata L (sig_metadata p)]"

definition P2WPKH_decode :: "lib \<Rightarrow> P2WPKHProof reader" where
  "P2WPKH_decode L bs =
     rbind (Receipt_decode L bs) (\<lambda>(r, bs).
     rbind (decode_pubkey L ''Failed to parse public key bytes'' bs) (\<lambda>(k, bs).
     rbind (try_read_metadata L bs) (\<lambda>(m, bs).
     Inr (\<lparr>sig_receipt = r, sig_inner_key = k, sig_metadata = m\<rparr>, bs))))"

definition P2TR_encode :: "lib \<Rightarrow> TaprootProof \<Rightarrow> EncodeError + bytes" where
  "P2TR_encode L p = enc_seq
     [Receipt_encode (tr_receipt p), Inr (pk_serialize (tr_inner_key p)),
      try_write_metadata L (tr_metadata p)]"

definition P2TR_decode :: "lib \<Rightarrow> TaprootProof reader" where
  "P2TR_decode L bs =
     rbind (Receipt_decode L bs) (\<lambda>(r, bs).
     rbind (decode_pubkey L ''Failed to parse public key bytes'' bs) (\<lambda>(k, bs).
     rbind (try_read_metadata L bs) (\<lambda>(m, bs).
     Inr (\<lparr>tr_receipt = r, tr_inner_key = k, tr_metadata = m\<rparr>, bs))))"

definition P2WSH_encode :: "wire \<Rightarrow> P2WSHProof \<Rightarrow> EncodeError + bytes" where
  "P2WSH_encode W p = enc_seq
     [Receipt_encode (wsh_receipt p), Inr (pk_serialize (wsh_inner_key p)),
      Inr (fst (w_script W) (wsh_script p))]"

definition P2WSH_decode :: "lib \<Rightarrow> wire \<Rightarrow> P2WSHProof reader" where
  "P2WSH_decode L W bs =
     rbind (Receipt_decode L bs) (\<lambda>(r, bs).
     rbind (decode_pubkey L ''Failed to parse public key bytes'' bs) (\<lambda>(k, bs).
     rbind (snd (w_script W) bs) (\<lambda>(s, bs).
     Inr (\<lparr>wsh_receipt = r, wsh_inner_key = k, wsh_script = s\<rparr>, bs))))"

definition Empty_encode :: "EmptyReceiptProof \<Rightarrow> EncodeError + bytes" where
  "Empty_encode p = Inr (pk_serialize (empty_inner_key p))"

definition Empty_decode :: "lib \<Rightarrow> EmptyReceiptProof reader" where
  "Empty_decode L bs =
     rbind (decode_pubkey L ''Failed to parse the public key'' bs) (\<lambda>(k, bs).
     Inr (\<lparr>empty_inner_key = k\<rparr>, bs))"

definition Multisig_encode :: "wire \<Rightarrow> MultisigReceiptProof \<Rightarrow> EncodeError + bytes" where
  "Multisig_encode W p = enc_seq
     ([Receipt_encode (ms_receipt p), Inr (fst (w_u32 W) (of_nat (length (ms_inner_keys p))))]
      @ map (\<lambda>k. Inr (pk_serialize k)) (ms_inner_keys p)
      @ [Inr (fst (w_u8 W) (ms_m p))])"

text \<open>The key reader of this kind reports the end of the input as a parse failure.\<close>

definition decode_ms_key :: "lib \<Rightarrow> PublicKey reader" where
  "decode_ms_key L bs =
     rbind (map_err (\<lambda>_. ParseFailed ''Failed to parse the public key'') (take_bytes 33 bs)) (\<lambda>(b, bs).
     rbind (ok_or (pk_from_slice L b) (ParseFailed ''Failed to create public key from bytes'')) (\<lambda>k.
     Inr (k, bs)))"

definition Multisig_decode :: "lib \<Rightarrow> wire \<Rightarrow> MultisigReceiptProof reader" where
  "Multisig_decode L W bs =
     rbind (Receipt_decode L bs) (\<lambda>(r, bs).
     rbind (snd (w_u32 W) bs) (\<lambda>(n, bs).
     rbind (decode_n (unat n) (decode_ms_key L) bs) (\<lambda>(ks, bs).
     rbind (snd (w_u8 W) bs) (\<lambda>(m, bs).
     Inr (MultisigReceiptProof_new r ks m, bs)))))"

definition LN_encode :: "wire \<Rightarrow> LightningCommitmentProof \<Rightarrow> EncodeError + bytes" where
  "LN_encode W p = enc_seq
     [Receipt_encode (ln_receipt p), Inr (pk_serialize (revocation_pubkey (ln_data p))),
      Inr (fst (w_u16 W) (to_self_delay (ln_data p))),
      Inr (pk_serialize (local_delayed_pubkey (ln_data p)))]"

definition LN_decode :: "lib \<Rightarrow> wire \<Rightarrow> LightningCommitmentProof reader" where
  "LN_decode L W bs =
     rbind (Receipt_decode L bs) (\<lambda>(r, bs).
     rbind (decode_pubkey L ''Failed to parse the public key'' bs) (\<lambda>(rk, bs).
     rbind (snd (w_u16 W) bs) (\<lambda>(d, bs).
     rbind (decode_pubkey L ''Failed to parse the public key'' bs) (\<lambda>(lk, bs).
     Inr (\<lparr>ln_receipt = r, ln_data = \<lparr>revocation_pubkey = rk, to_self_delay = d,
             local_delayed_pubkey = lk\<rparr>\<rparr>, bs)))))"

fun HtlcScriptKind_encode :: "wire \<Rightarrow> HtlcScriptKind \<Rightarrow> bytes" where
  "HtlcScriptKind_encode W Offered = fst (w_u8 W) 0"
| "HtlcScriptKind_encode W (Received cltv) = fst (w_u8 W) 1 @ fst (w_u32 W) cltv"

definition HtlcScriptKind_decode :: "wire \<Rightarrow> HtlcScriptKind reader" where
  "HtlcScriptKind_decode W bs =
     rbind (snd (w_u8 W) bs) (\<lambda>(b, bs).
     if b = 0 then Inr (Offered, bs)
     else if b = 1 then rbind (snd (w_u32 W) bs) (\<lambda>(c, bs). Inr (Received c, bs))
     else Inl (ParseFailed ''Unknown HTLC script kind''))"

definition HtlcData_encode :: "wire \<Rightarrow> LightningHtlcData \<Rightarrow> bytes" where
  "HtlcData_encode W d =
     to_be_bytes (revocation_key_hash d) @ pk_serialize (remote_htlc_key d)
     @ pk_serialize (local_htlc_key d) @ to_be_bytes (payment_hash d)
     @ HtlcScriptKind_encode W (htlc_kind d)"

definition HtlcData_decode :: "lib \<Rightarrow> wire \<Rightarrow> LightningHtlcData reader" where
  "HtlcData_decode L W bs =
     rbind (take_bytes 20 bs) (\<lambda>(rh, bs).
     rbind (decode_pubkey L ''Failed to parse the public key'' bs) (\<lambda>(rk, bs).
     rbind (decode_pubkey L ''Failed to parse the hash'' bs) (\<lambda>(lk, bs).
     rbind (take_bytes 20 bs) (\<lambda>(ph, bs).
     rbind (HtlcScriptKind_decode W bs) (\<lambda>(k, bs).
     Inr (\<lparr>revocation_key_hash = from_be_bytes rh, remote_htlc_key = rk, local_htlc_key = lk,
           payment_hash = from_be_bytes ph, htlc_kind = k\<rparr>, bs))))))"

definition HTLC_encode :: "wire \<Rightarrow> LightningHtlcProof \<Rightarrow> EncodeError + bytes" where
  "HTLC_encode W p = enc_seq [Receipt_encode (htlc_receipt p), Inr (HtlcData_encode W (htlc_data p))]"

definition HTLC_decode :: "lib \<Rightarrow> wire \<Rightarrow> LightningHtlcProof reader" where
  "HTLC_decode L W bs =
     rbind (Receipt_decode L bs) (\<lambda>(r, bs).
     rbind (HtlcData_decode L W bs) (\<lambda>(d, bs).
     Inr (\<lparr>htlc_receipt = r, htlc_data = d\<rparr>, bs)))"

definition EXIT_encode :: "lib \<Rightarrow> wire \<Rightarrow> SparkExitProof \<Rightarrow> EncodeError + bytes" where
  "EXIT_encode L W p = enc_seq
     [Receipt_encode (exit_receipt p), Inr (pk_serialize (revocation_key (exit_script p))),
      Inr (fst (w_u32 W) (exit_locktime (exit_script p))),
      Inr (pk_serialize (delay_key (exit_script p))), try_write_metadata L (exit_metadata p)]"

definition EXIT_decode :: "lib \<Rightarrow> wire \<Rightarrow> SparkExitProof reader" where
  "EXIT_decode L W bs =
     rbind (Receipt_decode L bs) (\<lambda>(r, bs).
     rbind (decode_pubkey L ''Failed to parse the public key'' bs) (\<lambda>(rk, bs).
     rbind (snd (w_u32 W) bs) (\<lambda>(t, bs).
     rbind (decode_pubkey L ''Failed to parse the public key'' bs) (\<lambda>(dk, bs).
     rbind (try_read_metadata L bs) (\<lambda>(m, bs).
     Inr (\<lparr>exit_receipt = r, exit_script = \<lparr>revocation_key = rk, delay_key = dk,
             exit_locktime = t\<rparr>, exit_metadata = m\<rparr>, bs))))))"

text \<open>The flag of the kind, then the proof.\<close>

fun ReceiptProof_encode :: "lib \<Rightarrow> wire \<Rightarrow> ReceiptProof \<Rightarrow> EncodeError + bytes" where
  "ReceiptProof_encode L W (Sig p) = enc_seq [Inr (fst (w_u8 W) 0), P2WPKH_encode L p]"
| "ReceiptProof_encode L W (P2WSH p) = enc_seq [Inr (fst (w_u8 W) 6), P2WSH_encode W p]"
| "ReceiptProof_encode L W (P2TR p) = enc_seq [Inr (fst (w_u8 W) 7), P2TR_encode L p]"
| "ReceiptProof_encode L W (EmptyReceipt p) = enc_seq [Inr (fst (w_u8 W) 5), Empty_encode p]"
| "ReceiptProof_encode L W (Multisig p) = enc_seq [Inr (fst (w_u8 W) 1), Multisig_encode W p]"
| "ReceiptProof_encode L W (Lightning p) = enc_seq [Inr (fst (w_u8 W) 2), LN_encode W p]"
| "ReceiptProof_encode L W (LightningHtlc p) = enc_seq [Inr (fst (w_u8 W) 3), HTLC_encode W p]"
| "ReceiptProof_encode L W (SparkExit p) = enc_seq [Inr (fst (w_u8 W) 8), EXIT_encode L W p]"

text \<open>Reading one value and wrapping it.\<close>

definition dec_map :: "('a \<Rightarrow> 'b) \<Rightarrow> 'a reader \<Rightarrow> 'b reader" where
  "dec_map f dec bs = rbind (dec bs) (\<lambda>(x, bs). Inr (f x, bs))"

definition ReceiptProof_decode :: "lib \<Rightarrow> wire \<Rightarrow> ReceiptProof reader" where
  "ReceiptProof_decode L W bs =
     rbind (snd (w_u8 W) bs) (\<lambda>(flag, bs).
     if flag = 0 then dec_map Sig (P2WPKH_decode L) bs
     else if flag = 6 then dec_map P2WSH (P2WSH_decode L W) bs
     else if flag = 7 then dec_map P2TR (P2TR_decode L) bs
     else if flag = 5 then dec_map EmptyReceipt (Empty_decode L) bs
     else if flag = 1 then dec_map Multisig (Multisig_decode L W) bs
     else if flag = 2 then dec_map Lightning (LN_decode L W) bs
     else if flag = 3 then dec_map LightningHtlc (HTLC_decode L W) bs
     else if flag = 8 then dec_map SparkExit (EXIT_decode L W) bs
     else Inl (ParseFailed ''Unknown receipt proof''))"

section \<open>Maps and options\<close>

definition BTreeMap_encode ::
  "wire \<Rightarrow> ('k \<Rightarrow> EncodeError + bytes) \<Rightarrow> ('v \<Rightarrow> EncodeError + bytes) \<Rightarrow> ('k, 'v) btree_map \<Rightarrow>
     EncodeError + bytes" where
  "BTreeMap_encode W enc_k enc_v m = enc_seq
     (Inr (fst (w_u32 W) (of_nat (length m))) # concat (map (\<lambda>(k, v). [enc_k k, enc_v v]) m))"

definition dec_pair :: "'k reader \<Rightarrow> 'v reader \<Rightarrow> ('k \<times> 'v) reader" where
  "dec_pair dec_k dec_v bs =
     rbind (dec_k bs) (\<lambda>(k, bs). rbind (dec_v bs) (\<lambda>(v, bs). Inr ((k, v), bs)))"

definition BTreeMap_decode ::
  "wire \<Rightarrow> 'k::linorder reader \<Rightarrow> 'v reader \<Rightarrow> ('k, 'v) btree_map reader" where
  "BTreeMap_decode W dec_k dec_v bs =
     rbind (snd (w_u32 W) bs) (\<lambda>(n, bs).
     rbind (decode_n (unat n) (dec_pair dec_k dec_v) bs) (\<lambda>(ps, bs).
     Inr (fold (\<lambda>(k, v). btree_insert k v) ps [], bs)))"

definition Option_encode ::
  "wire \<Rightarrow> ('a \<Rightarrow> EncodeError + bytes) \<Rightarrow> 'a option \<Rightarrow> EncodeError + bytes" where
  "Option_encode W enc v =
     (case v of Some x \<Rightarrow> enc_seq [Inr (fst (w_u8 W) 1), enc x] | None \<Rightarrow> Inr (fst (w_u8 W) 0))"

definition Option_decode :: "wire \<Rightarrow> 'a reader \<Rightarrow> 'a option reader" where
  "Option_decode W dec bs =
     rbind (snd (w_u8 W) bs) (\<lambda>(v, bs). if v = 0 then Inr (None, bs) else dec_map Some dec bs)"

definition ProofMap_encode :: "lib \<Rightarrow> wire \<Rightarrow> ProofMap \<Rightarrow> EncodeError + bytes" where
  "ProofMap_encode L W =
     BTreeMap_encode W (\<lambda>k. Inr (fst (w_u32 W) k)) (ReceiptProof_encode L W)"

definition ProofMap_decode :: "lib \<Rightarrow> wire \<Rightarrow> ProofMap reader" where
  "ProofMap_decode L W = BTreeMap_decode W (snd (w_u32 W)) (ReceiptProof_decode L W)"

section \<open>Transactions\<close>

definition IssueAnnouncement_encode :: "IssueAnnouncement \<Rightarrow> EncodeError + bytes" where
  "IssueAnnouncement_encode a = Inr (Any_to_bytes ISSUE_ANNOUNCEMENT_KIND Issue_to_data a)"

definition IssueAnnouncement_decode :: "lib \<Rightarrow> IssueAnnouncement reader" where
  "IssueAnnouncement_decode L bs =
     rbind (take_bytes (ISSUE_ANNOUNCEMENT_MAX_SIZE + ANNOUNCEMENT_MINIMAL_LENGTH) bs) (\<lambda>(b, bs).
     rbind (map_err (\<lambda>_. IoError) (Issue_from_bytes L b)) (\<lambda>a. Inr (a, bs)))"

definition Announcement_encode :: "Announcement \<Rightarrow> EncodeError + bytes" where
  "Announcement_encode a = Inr (Announcement_to_bytes a)"

text \<open>The reader of an announcement consumes everything that is left.\<close>

definition Announcement_decode :: "lib \<Rightarrow> Announcement reader" where
  "Announcement_decode L bs =
     rbind (map_err (\<lambda>_. IoError) (announcement_from_bytes L bs)) (\<lambda>a. Inr (a, []))"

fun Lrc20TxType_encode :: "lib \<Rightarrow> wire \<Rightarrow> Lrc20TxType \<Rightarrow> EncodeError + bytes" where
  "Lrc20TxType_encode L W (Issue ps a) = enc_seq
     [Inr (fst (w_u8 W) 0), IssueAnnouncement_encode a, Option_encode W (ProofMap_encode L W) ps]"
| "Lrc20TxType_encode L W (Transfer is os) = enc_seq
     [Inr (fst (w_u8 W) 1), ProofMap_encode L W is, ProofMap_encode L W os]"
| "Lrc20TxType_encode L W (AnnouncementTx a) = enc_seq
     [Inr (fst (w_u8 W) 2), Announcement_encode a]"
| "Lrc20TxType_encode L W (SparkExitTx os) = enc_seq
     [Inr (fst (w_u8 W) 4), ProofMap_encode L W os]"

definition Lrc20TxType_decode :: "lib \<Rightarrow> wire \<Rightarrow> Lrc20TxType reader" where
  "Lrc20TxType_decode L W bs =
     rbind (snd (w_u8 W) bs) (\<lambda>(flag, bs).
     if flag = 0 then
       rbind (IssueAnnouncement_decode L bs) (\<lambda>(a, bs).
       rbind (Option_decode W (ProofMap_decode L W) bs) (\<lambda>(ps, bs).
       Inr (Issue ps a, bs)))
     else if flag = 1 then
       rbind (ProofMap_decode L W bs) (\<lambda>(is, bs).
       rbind (ProofMap_decode L W bs) (\<lambda>(os, bs).
       Inr (Transfer is os, bs)))
     else if flag = 2 then dec_map AnnouncementTx (Announcement_decode L) bs
     else if flag = 4 then dec_map SparkExitTx (ProofMap_decode L W) bs
     else Inl (ParseFailed ''Unknown LRC20 tx type''))"

definition Lrc20Transaction_encode :: "lib \<Rightarrow> wire \<Rightarrow> Lrc20Transaction \<Rightarrow> EncodeError + bytes" where
  "Lrc20Transaction_encode L W tx = enc_seq
     [Inr (fst (w_tx W) (bitcoin_tx tx)), Lrc20TxType_encode L W (tx_type tx)]"

definition Lrc20Transaction_decode :: "lib \<Rightarrow> wire \<Rightarrow> Lrc20Transaction reader" where
  "Lrc20Transaction_decode L W bs =
     rbind (snd (w_tx W) bs) (\<lambda>(t, bs).
     rbind (Lrc20TxType_decode L W bs) (\<lambda>(ty, bs).
     Inr (\<lparr>bitcoin_tx = t, tx_type = ty\<rparr>, bs)))"

text \<open>Vectors of transactions: a count, then the elements.\<close>

definition Vec_encode :: "wire \<Rightarrow> ('a \<Rightarrow> EncodeError + bytes) \<Rightarrow> 'a list \<Rightarrow> EncodeError + bytes" where
  "Vec_encode W enc xs = enc_seq (Inr (fst (w_u32 W) (of_nat (length xs))) # map enc xs)"

definition Vec_decode :: "wire \<Rightarrow> 'a reader \<Rightarrow> 'a list reader" where
  "Vec_decode W dec bs = rbind (snd (w_u32 W) bs) (\<lambda>(n, bs). decode_n (unat n) dec bs)"

definition Lrc20Txs_encode :: "lib \<Rightarrow> wire \<Rightarrow> Lrc20Transaction list \<Rightarrow> EncodeError + bytes" where
  "Lrc20Txs_encode L W = Vec_encode W (Lrc20Transaction_encode L W)"

definition Lrc20Txs_decode :: "lib \<Rightarrow> wire \<Rightarrow> Lrc20Transaction list reader" where
  "Lrc20Txs_decode L W = Vec_decode W (Lrc20Transaction_decode L W)"

section \<open>Well-formed values\<close>

definition wf_receipt :: "lib \<Rightarrow> Receipt \<Rightarrow> bool" where
  "wf_receipt L r = valid_key L (pubkey (token_pubkey r))"

text \<open>Metadata whose text fits the length field and parses back.\<close>

definition wf_metadata :: "lib \<Rightarrow> json option \<Rightarrow> bool" where
  "wf_metadata L m =
     (case m of
        None \<Rightarrow> True
      | Some j \<Rightarrow>
          (case json_to_vec L j of
             None \<Rightarrow> False
           | Some bs \<Rightarrow> bs \<noteq> [] \<and> length bs < 2 ^ 32 \<and> json_from_slice L bs = Some j))"

fun wf_proof :: "lib \<Rightarrow> ReceiptProof \<Rightarrow> bool" where
  "wf_proof L (Sig p) =
     (wf_receipt L (sig_receipt p) \<and> valid_key L (sig_inner_key p) \<and> wf_metadata L (sig_metadata p))"
| "wf_proof L (P2TR p) =
     (wf_receipt L (tr_receipt p) \<and> valid_key L (tr_inner_key p) \<and> wf_metadata L (tr_metadata p))"
| "wf_proof L (P2WSH p) = (wf_receipt L (wsh_receipt p) \<and> valid_key L (wsh_inner_key p))"
| "wf_proof L (EmptyReceipt p) = valid_key L (empty_inner_key p)"
| "wf_proof L (Multisig p) =
     (wf_receipt L (ms_receipt p) \<and> list_all (valid_key L) (ms_inner_keys p)
      \<and> sorted (ms_inner_keys p) \<and> length (ms_inner_keys p) < 2 ^ 32)"
| "wf_proof L (Lightning p) =
     (wf_receipt L (ln_receipt p) \<and> valid_key L (revocation_pubkey (ln_data p))
      \<and> valid_key L (local_delayed_pubkey (ln_data p)))"
| "wf_proof L (LightningHtlc p) =
     (wf_receipt L (htlc_receipt p) \<and> valid_key L (remote_htlc_key (htlc_data p))
      \<and> valid_key L (local_htlc_key (htlc_data p)))"
| "wf_proof L (SparkExit p) =
     (wf_receipt L (exit_receipt p) \<and> valid_key L (revocation_key (exit_script p))
      \<and> valid_key L (delay_key (exit_script p)) \<and> wf_metadata L (exit_metadata p))"

definition wf_proof_map :: "lib \<Rightarrow> ProofMap \<Rightarrow> bool" where
  "wf_proof_map L m = (wf_btree m \<and> length m < 2 ^ 32 \<and> list_all (wf_proof L) (map snd m))"

text \<open>Transactions whose encoding does not consume what follows it: all but announcements.\<close>

fun wf_tx_type :: "lib \<Rightarrow> Lrc20TxType \<Rightarrow> bool" where
  "wf_tx_type L (Issue ps a) =
     (wf_announcement L (IssueA a) \<and> (case ps of None \<Rightarrow> True | Some m \<Rightarrow> wf_proof_map L m))"
| "wf_tx_type L (Transfer is os) = (wf_proof_map L is \<and> wf_proof_map L os)"
| "wf_tx_type L (AnnouncementTx a) = False"
| "wf_tx_type L (SparkExitTx os) = wf_proof_map L os"

text \<open>A value that its encoder writes and its decoder reads back, leaving what follows.\<close>

definition reads_back :: "('a \<Rightarrow> EncodeError + bytes) \<Rightarrow> 'a reader \<Rightarrow> 'a \<Rightarrow> bool" where
  "reads_back enc dec x = (\<exists>bs. enc x = Inr bs \<and> (\<forall>rest. dec (bs @ rest) = Inr (x, rest)))"

text \<open>A concrete wire on which the law holds: little-endian integers, and scripts byte by
  byte with a marker before each byte.\<close>

fun marked_script :: "script reader" where
  "marked_script (m # b # bs) =
     (if m = 0 then Inr ([], b # bs) else rbind (marked_script bs) (\<lambda>(s, r). Inr (b # s, r)))"
| "marked_script [m] = (if m = 0 then Inr ([], []) else Inl IoError)"
| "marked_script [] = Inl IoError"

definition wire0 :: "Transaction \<Rightarrow> wire" where
  "wire0 t = \<lparr>
     w_u8 = (\<lambda>b. [b], \<lambda>bs. ok_or (read_u8 bs) IoError),
     w_u16 = (to_le_bytes, \<lambda>bs. rbind (take_bytes 2 bs) (\<lambda>(b, r). Inr (from_le_bytes b, r))),
     w_u32 = (to_le_bytes, \<lambda>bs. rbind (take_bytes 4 bs) (\<lambda>(b, r). Inr (from_le_bytes b, r))),
     w_script = (\<lambda>s. concat (map (\<lambda>b. [1, b]) s) @ [0], marked_script),
     w_tx = (\<lambda>_. [7], \<lambda>bs. rbind (take_bytes 1 bs) (\<lambda>(_, r). Inr (t, r)))\<rparr>"

definition tx0 :: Transaction where
  "tx0 = \<lparr>tx_version = 2, tx_lock_time = 0, tx_input = [], tx_output = []\<rparr>"

section \<open>The contract of an encoding\<close>

locale codec =
  fixes enc :: "'a \<Rightarrow> EncodeError + bytes"
    and dec :: "'a reader"
    and wf :: "'a \<Rightarrow> bool"
  assumes wf_reads_back: "wf x \<Longrightarrow> reads_back enc dec x"
begin

lemma encoded:
  assumes "wf x"
  obtains bs where "enc x = Inr bs" "\<And>rest. dec (bs @ rest) = Inr (x, rest)"
  using wf_reads_back [OF assms] by (auto simp: reads_back_def)

lemma prefix_free:
  assumes "wf x" "wf y" "enc x = Inr a" "enc y = Inr b" "a @ r = b @ s"
  shows "x = y \<and> r = s"
proof -
  have "dec (a @ r) = Inr (x, r)" "dec (b @ s) = Inr (y, s)"
    using assms encoded by (metis Inr_inject)+
  then show ?thesis using assms by simp
qed

lemma sequence:
  assumes "\<forall>x\<in>set xs. wf x"
  shows "\<exists>bss. mapM enc xs = Inr bss \<and>
    (\<forall>rest. decode_n (length xs) dec (concat bss @ rest) = Inr (xs, rest))"
  using assms
proof (induction xs)
  case (Cons x xs)
  obtain b where b: "enc x = Inr b" "\<And>rest. dec (b @ rest) = Inr (x, rest)"
    using Cons.prems encoded [of x] by auto
  obtain bss where "mapM enc xs = Inr bss"
    "\<And>rest. decode_n (length xs) dec (concat bss @ rest) = Inr (xs, rest)"
    using Cons by auto
  with b show ?case by simp
qed simp

end

section \<open>Lemmas\<close>

lemma enc_seq_Nil [simp]: "enc_seq [] = Inr []"
  by (simp add: enc_seq_def)

lemma enc_seq_Cons [simp]:
  "enc_seq (m # ms) = rbind m (\<lambda>b. rbind (enc_seq ms) (\<lambda>bs. Inr (b @ bs)))"
proof (cases m)
  case (Inr b)
  then show ?thesis by (cases "mapM id ms") (simp_all add: enc_seq_def)
qed (simp add: enc_seq_def)

lemma enc_seq_append:
  "enc_seq (ms @ ns) = rbind (enc_seq ms) (\<lambda>b. rbind (enc_seq ns) (\<lambda>bs. Inr (b @ bs)))"
proof (induction ms)
  case Nil
  then show ?case by (cases "enc_seq ns") simp_all
next
  case (Cons m ms)
  then show ?case
    by (cases m; cases "enc_seq ms"; cases "enc_seq ns") simp_all
qed

lemma enc_seq_map: "enc_seq (map f xs) = rbind (mapM f xs) (\<lambda>bss. Inr (concat bss))"
proof (induction xs)
  case (Cons x xs)
  then show ?case by (cases "f x"; cases "mapM f xs") simp_all
qed simp

lemma lawfulD: "lawful c \<Longrightarrow> snd c (fst c x @ rest) = Inr (x, rest)"
  by (simp add: lawful_def)

lemma wire_simps [codec_simps]:
  assumes "lawful_wire W"
  shows "snd (w_u8 W) (fst (w_u8 W) b @ rest) = Inr (b, rest)"
    and "snd (w_u16 W) (fst (w_u16 W) h @ rest) = Inr (h, rest)"
    and "snd (w_u32 W) (fst (w_u32 W) n @ rest) = Inr (n, rest)"
    and "snd (w_script W) (fst (w_script W) s @ rest) = Inr (s, rest)"
  using assms by (simp_all add: lawful_wire_def lawfulD)

lemma take_bytes_append [codec_simps]: "length a = n \<Longrightarrow> take_bytes n (a @ rest) = Inr (a, rest)"
  by (simp add: take_bytes_def)

lemma decode_pubkey_append [codec_simps]:
  "valid_key L k \<Longrightarrow> decode_pubkey L msg (pk_serialize k @ rest) = Inr (k, rest)"
  by (simp add: decode_pubkey_def take_bytes_append)

lemma decode_ms_key_append [codec_simps]:
  "valid_key L k \<Longrightarrow> decode_ms_key L (pk_serialize k @ rest) = Inr (k, rest)"
  by (simp add: decode_ms_key_def take_bytes_append)

lemma Receipt_decode_append [codec_simps]:
  "wf_receipt L r \<Longrightarrow> Receipt_decode L (Receipt_to_bytes r @ rest) = Inr (r, rest)"
  using Receipt_roundtrip_ext [of L r "[]"]
  by (simp add: Receipt_decode_def take_bytes_append receipt_sizes wf_receipt_def)

lemma metadata_reads_back:
  assumes "wf_metadata L m"
  obtains mb where "try_write_metadata L m = Inr mb"
    "\<And>rest. try_read_metadata L (mb @ rest) = Inr (m, rest)"
proof (cases m)
  case None
  show ?thesis
    by (rule that [of "to_be_bytes (0 :: u32)"])
      (simp_all add: None try_write_metadata_def try_read_metadata_def take_bytes_append)
next
  case (Some j)
  with assms obtain bs where bs: "json_to_vec L j = Some bs" "bs \<noteq> []" "length bs < 2 ^ 32"
      "json_from_slice L bs = Some j"
    by (auto simp: wf_metadata_def split: option.splits)
  then have "unat (of_nat (length bs) :: u32) = length bs"
    by (simp add: unat_of_nat)
  with bs Some show ?thesis
    by (intro that [of "to_be_bytes (of_nat (length bs) :: u32) @ bs"])
      (simp_all add: try_write_metadata_def try_read_metadata_def take_bytes_append)
qed

lemma P2WPKH_reads_back: "wf_proof L (Sig p) \<Longrightarrow> reads_back (P2WPKH_encode L) (P2WPKH_decode L) p"
  by (auto simp: reads_back_def P2WPKH_encode_def P2WPKH_decode_def Receipt_encode_def codec_simps
      elim!: metadata_reads_back)

lemma P2TR_reads_back: "wf_proof L (P2TR p) \<Longrightarrow> reads_back (P2TR_encode L) (P2TR_decode L) p"
  by (auto simp: reads_back_def P2TR_encode_def P2TR_decode_def Receipt_encode_def codec_simps
      elim!: metadata_reads_back)

lemma EXIT_reads_back:
  "lawful_wire W \<Longrightarrow> wf_proof L (SparkExit p) \<Longrightarrow> reads_back (EXIT_encode L W) (EXIT_decode L W) p"
  by (auto simp: reads_back_def EXIT_encode_def EXIT_decode_def Receipt_encode_def codec_simps
      elim!: metadata_reads_back)

lemma P2WSH_reads_back:
  "lawful_wire W \<Longrightarrow> wf_proof L (P2WSH p) \<Longrightarrow> reads_back (P2WSH_encode W) (P2WSH_decode L W) p"
  by (auto simp: reads_back_def P2WSH_encode_def P2WSH_decode_def Receipt_encode_def codec_simps)

lemma Empty_reads_back: "wf_proof L (EmptyReceipt p) \<Longrightarrow> reads_back Empty_encode (Empty_decode L) p"
  by (auto simp: reads_back_def Empty_encode_def Empty_decode_def codec_simps)

lemma LN_reads_back:
  "lawful_wire W \<Longrightarrow> wf_proof L (Lightning p) \<Longrightarrow> reads_back (LN_encode W) (LN_decode L W) p"
  by (auto simp: reads_back_def LN_encode_def LN_decode_def Receipt_encode_def codec_simps)

lemma HtlcScriptKind_append [codec_simps]:
  "lawful_wire W \<Longrightarrow> HtlcScriptKind_decode W (HtlcScriptKind_encode W k @ rest) = Inr (k, rest)"
  by (cases k) (simp_all add: HtlcScriptKind_decode_def codec_simps)

lemma HTLC_reads_back:
  "lawful_wire W \<Longrightarrow> wf_proof L (LightningHtlc p) \<Longrightarrow> reads_back (HTLC_encode W) (HTLC_decode L W) p"
  by (auto simp: reads_back_def HTLC_encode_def HTLC_decode_def HtlcData_encode_def
      HtlcData_decode_def Receipt_encode_def codec_simps)

interpretation ms_key: codec "\<lambda>k. Inr (pk_serialize k)" "decode_ms_key L" "valid_key L" for L
  by unfold_locales (auto simp: reads_back_def codec_simps)

lemma Multisig_reads_back:
  assumes "lawful_wire W" and "wf_proof L (Multisig p)"
  shows "reads_back (Multisig_encode W) (Multisig_decode L W) p"
proof -
  let ?ks = "ms_inner_keys p"
  obtain bss where bss: "mapM (\<lambda>k. Inr (pk_serialize k)) ?ks = (Inr bss :: EncodeError + bytes list)"
    "\<And>rest. decode_n (length ?ks) (decode_ms_key L) (concat bss @ rest) = Inr (?ks, rest)"
    using ms_key.sequence [of ?ks L] assms by (auto simp: list_all_iff)
  have "unat (of_nat (length ?ks) :: u32) = length ?ks"
    using assms by (simp add: unat_of_nat)
  moreover have "MultisigReceiptProof_new (ms_receipt p) ?ks (ms_m p) = p"
    using assms by (simp add: MultisigReceiptProof_new_def sorted_sort_id)
  ultimately show ?thesis
    using assms bss
    by (simp add: reads_back_def Multisig_encode_def Multisig_decode_def Receipt_encode_def
        enc_seq_append enc_seq_map codec_simps)
qed

lemma ReceiptProof_wrap:
  assumes "reads_back enc dec q"
    and "ReceiptProof_encode L W (c q) = enc_seq [Inr (fst (w_u8 W) f), enc q]"
    and "\<And>bs. ReceiptProof_decode L W (fst (w_u8 W) f @ bs) = dec_map c dec bs"
  shows "reads_back (ReceiptProof_encode L W) (ReceiptProof_decode L W) (c q)"
  using assms by (auto simp: reads_back_def dec_map_def)

lemma ReceiptProof_reads_back:
  assumes W: "lawful_wire W" and "wf_proof L p"
  shows "reads_back (ReceiptProof_encode L W) (ReceiptProof_decode L W) p"
proof (cases p)
  case (EmptyReceipt q)
  show ?thesis
    unfolding EmptyReceipt
    by (rule ReceiptProof_wrap [where f = 5 and c = EmptyReceipt, OF Empty_reads_back])
      (use assms in \<open>simp_all add: EmptyReceipt ReceiptProof_decode_def wire_simps [OF W]\<close>)
next
  case (Sig q)
  show ?thesis
    unfolding Sig
    by (rule ReceiptProof_wrap [where f = 0 and c = Sig, OF P2WPKH_reads_back])
      (use assms in \<open>simp_all add: Sig ReceiptProof_decode_def wire_simps [OF W]\<close>)
next
  case (Multisig q)
  show ?thesis
    unfolding Multisig
    by (rule ReceiptProof_wrap [where f = 1 and c = Multisig, OF Multisig_reads_back])
      (use assms in \<open>simp_all add: Multisig ReceiptProof_decode_def wire_simps [OF W]\<close>)
next
  case (Lightning q)
  show ?thesis
    unfolding Lightning
    by (rule ReceiptProof_wrap [where f = 2 and c = Lightning, OF LN_reads_back])
      (use assms in \<open>simp_all add: Lightning ReceiptProof_decode_def wire_simps [OF W]\<close>)
next
  case (LightningHtlc q)
  show ?thesis
    unfolding LightningHtlc
    by (rule ReceiptProof_wrap [where f = 3 and c = LightningHtlc, OF HTLC_reads_back])
      (use assms in \<open>simp_all add: LightningHtlc ReceiptProof_decode_def wire_simps [OF W]\<close>)
next
  case (P2WSH q)
  show ?thesis
    unfolding P2WSH
    by (rule ReceiptProof_wrap [where f = 6 and c = P2WSH, OF P2WSH_reads_back])
      (use assms in \<open>simp_all add: P2WSH ReceiptProof_decode_def wire_simps [OF W]\<close>)
next
  case (P2TR q)
  show ?thesis
    unfolding P2TR
    by (rule ReceiptProof_wrap [where f = 7 and c = P2TR, OF P2TR_reads_back])
      (use assms in \<open>simp_all add: P2TR ReceiptProof_decode_def wire_simps [OF W]\<close>)
next
  case (SparkExit q)
  show ?thesis
    unfolding SparkExit
    by (rule ReceiptProof_wrap [where f = 8 and c = SparkExit, OF EXIT_reads_back])
      (use assms in \<open>simp_all add: SparkExit ReceiptProof_decode_def wire_simps [OF W]\<close>)
qed

interpretation receipt_proof: codec "ReceiptProof_encode L W" "ReceiptProof_decode L W"
    "\<lambda>p. lawful_wire W \<and> wf_proof L p" for L W
  by unfold_locales (simp add: ReceiptProof_reads_back)

lemma pair_reads_back:
  "reads_back enc_k dec_k k \<Longrightarrow> reads_back enc_v dec_v v \<Longrightarrow>
    reads_back (\<lambda>(k, v). enc_seq [enc_k k, enc_v v]) (dec_pair dec_k dec_v) (k, v)"
  by (auto simp: reads_back_def dec_pair_def)

interpretation proof_entry: codec
    "\<lambda>(k, v). enc_seq [Inr (fst (w_u32 W) k), ReceiptProof_encode L W v]"
    "dec_pair (snd (w_u32 W)) (ReceiptProof_decode L W)"
    "\<lambda>(k, v). lawful_wire W \<and> wf_proof L v" for L W
proof
  fix x :: "u32 \<times> ReceiptProof"
  assume x: "case x of (k, v) \<Rightarrow> lawful_wire W \<and> wf_proof L v"
  obtain k v where kv: "x = (k, v)" by (cases x)
  have "reads_back (\<lambda>k. Inr (fst (w_u32 W) k)) (snd (w_u32 W)) k"
    using x kv by (simp add: reads_back_def wire_simps)
  then show "reads_back (\<lambda>(k, v). enc_seq [Inr (fst (w_u32 W) k), ReceiptProof_encode L W v])
      (dec_pair (snd (w_u32 W)) (ReceiptProof_decode L W)) x"
    using x unfolding kv by (intro pair_reads_back ReceiptProof_reads_back) simp_all
qed

lemma fold_btree_insert:
  "wf_btree (acc @ m) \<Longrightarrow> fold (\<lambda>(k, v). btree_insert k v) m acc = acc @ m"
proof (induction m arbitrary: acc)
  case (Cons p m)
  obtain k v where p: "p = (k, v)" by (cases p)
  have "\<forall>k' \<in> fst ` set acc. k' < k"
    using Cons.prems p by (auto simp: wf_btree_def sorted_wrt_append)
  then have "btree_insert k v acc = acc @ [(k, v)]"
    by (rule btree_insert_last)
  then show ?case
    using Cons.IH [of "acc @ [p]"] Cons.prems p by simp
qed simp

lemma enc_seq_pairs:
  "enc_seq (concat (map (\<lambda>(k, v). [f k, g v]) m)) = enc_seq (map (\<lambda>(k, v). enc_seq [f k, g v]) m)"
proof (induction m)
  case (Cons p m)
  obtain k v where p: "p = (k, v)" by (cases p)
  show ?case
    unfolding p list.map concat.simps prod.case append_Cons append_Nil enc_seq_Cons Cons
    by (cases "f k"; cases "g v"; cases "enc_seq (map (\<lambda>(k, v). enc_seq [f k, g v]) m)") simp_all
qed simp

lemma ProofMap_reads_back:
  assumes "lawful_wire W" and "wf_proof_map L m"
  shows "reads_back (ProofMap_encode L W) (ProofMap_decode L W) m"
proof -
  let ?enc = "\<lambda>(k, v). enc_seq [Inr (fst (w_u32 W) k), ReceiptProof_encode L W v]"
  obtain bss where bss: "mapM ?enc m = Inr bss"
    "\<And>rest. decode_n (length m) (dec_pair (snd (w_u32 W)) (ReceiptProof_decode L W))
        (concat bss @ rest) = Inr (m, rest)"
    using proof_entry.sequence [of m W L] assms by (force simp: wf_proof_map_def list_all_iff)
  have "unat (of_nat (length m) :: u32) = length m"
    using assms by (simp add: unat_of_nat wf_proof_map_def)
  moreover have "fold (\<lambda>(k, v). btree_insert k v) m [] = m"
    using assms fold_btree_insert [of "[]" m] by (simp add: wf_proof_map_def)
  moreover have "enc_seq (concat (map (\<lambda>(k, v). [Inr (fst (w_u32 W) k), ReceiptProof_encode L W v]) m))
      = Inr (concat bss)"
    using bss(1) unfolding enc_seq_pairs enc_seq_map by simp
  ultimately show ?thesis
    using assms bss(2)
    by (simp add: reads_back_def ProofMap_encode_def ProofMap_decode_def BTreeMap_encode_def
        BTreeMap_decode_def wire_simps)
qed

interpretation proof_map: codec "ProofMap_encode L W" "ProofMap_decode L W"
    "\<lambda>m. lawful_wire W \<and> wf_proof_map L m" for L W
  by unfold_locales (simp add: ProofMap_reads_back)

lemma IssueAnnouncement_reads_back:
  assumes "wf_announcement L (IssueA a)"
  shows "reads_back IssueAnnouncement_encode (IssueAnnouncement_decode L) a"
proof -
  have "length (Any_to_bytes ISSUE_ANNOUNCEMENT_KIND Issue_to_data a)
      = ISSUE_ANNOUNCEMENT_MAX_SIZE + ANNOUNCEMENT_MINIMAL_LENGTH"
    by (simp add: Any_to_bytes_def Issue_to_data_def ANNOUNCEMENT_PREFIX_def announcement_kinds
        announcement_sizes ANNOUNCEMENT_MINIMAL_LENGTH_def ANNOUNCEMENT_KIND_LENGTH_def)
  then show ?thesis
    using issue_ann.bytes_roundtrip [OF assms]
    by (simp add: reads_back_def IssueAnnouncement_encode_def IssueAnnouncement_decode_def
        take_bytes_append Issue_from_bytes_def)
qed

lemma Option_reads_back:
  "lawful_wire W \<Longrightarrow> (\<And>x. v = Some x \<Longrightarrow> reads_back enc dec x) \<Longrightarrow>
    reads_back (Option_encode W enc) (Option_decode W dec) v"
  by (cases v) (auto simp: reads_back_def Option_encode_def Option_decode_def dec_map_def wire_simps)

lemma Lrc20TxType_reads_back:
  assumes W: "lawful_wire W" and ty: "wf_tx_type L ty"
  shows "reads_back (Lrc20TxType_encode L W) (Lrc20TxType_decode L W) ty"
proof (cases ty)
  case (Issue ps a)
  have "reads_back IssueAnnouncement_encode (IssueAnnouncement_decode L) a"
    using ty Issue by (intro IssueAnnouncement_reads_back) simp
  moreover have "reads_back (Option_encode W (ProofMap_encode L W))
      (Option_decode W (ProofMap_decode L W)) ps"
    using W ty Issue by (intro Option_reads_back ProofMap_reads_back) auto
  ultimately show ?thesis
    unfolding Issue by (auto simp: reads_back_def Lrc20TxType_decode_def wire_simps [OF W])
next
  case (Transfer ips ops)
  then have "reads_back (ProofMap_encode L W) (ProofMap_decode L W) ips"
    "reads_back (ProofMap_encode L W) (ProofMap_decode L W) ops"
    using W ty by (simp_all add: ProofMap_reads_back)
  then show ?thesis
    unfolding Transfer by (auto simp: reads_back_def Lrc20TxType_decode_def wire_simps [OF W])
next
  case (SparkExitTx os)
  then have "reads_back (ProofMap_encode L W) (ProofMap_decode L W) os"
    using W ty by (simp add: ProofMap_reads_back)
  then show ?thesis
    unfolding SparkExitTx
    by (auto simp: reads_back_def Lrc20TxType_decode_def dec_map_def wire_simps [OF W])
qed (use ty in simp)

lemma Lrc20Transaction_reads_back:
  assumes "lawful_wire W" "tx_reads_back W (bitcoin_tx tx)" "wf_tx_type L (tx_type tx)"
  shows "reads_back (Lrc20Transaction_encode L W) (Lrc20Transaction_decode L W) tx"
  using Lrc20TxType_reads_back [OF assms(1,3)] assms(2)
  by (auto simp: reads_back_def Lrc20Transaction_encode_def Lrc20Transaction_decode_def
      tx_reads_back_def)

interpretation lrc20_tx: codec "Lrc20Transaction_encode L W" "Lrc20Transaction_decode L W"
    "\<lambda>tx. lawful_wire W \<and> tx_reads_back W (bitcoin_tx tx) \<and> wf_tx_type L (tx_type tx)" for L W
  by unfold_locales (simp add: Lrc20Transaction_reads_back)

lemma lawful_wire0 [simp]: "lawful_wire (wire0 t)"
proof -
  have "marked_script (concat (map (\<lambda>b. [1, b]) s) @ 0 # rest) = Inr (s, rest)" for s rest
  proof (induction s)
    case Nil
    show ?case by (cases rest) simp_all
  qed simp
  then show ?thesis
    by (simp add: lawful_wire_def lawful_def wire0_def take_bytes_append)
qed

lemma tx_reads_back_wire0 [simp]: "tx_reads_back (wire0 t) t"
  using take_bytes_append [of "[7]" 1] by (simp add: tx_reads_back_def wire0_def)

lemma wire0_empty [simp]: "snd (w_tx (wire0 t)) [] = Inl IoError"
  by (simp add: wire0_def take_bytes_def read_exact_def)

text \<open>Reading an announcement leaves nothing for the reader that follows.\<close>

lemma announcement_consumes_all:
  assumes "lawful_wire W" "tx_reads_back W (bitcoin_tx t)" "tx_type t = AnnouncementTx a"
    and "Lrc20Transaction_encode L W t = Inr bs"
    and "Lrc20Transaction_decode L W (bs @ rest) = Inr (x, left)"
  shows "left = []"
  using assms
  by (auto simp: Lrc20Transaction_encode_def Lrc20Transaction_decode_def Lrc20TxType_decode_def
      Announcement_encode_def tx_reads_back_def wire_simps dec_map_def Announcement_decode_def
      result_simps)

section \<open>Properties\<close>



text \<open>C11. The encodings of receipt proofs are unambiguous: of two streams that start with
  the encodings of well-formed proofs and are equal, the proofs are equal and so is what
  follows them.\<close>

theorem receipt_proof_prefix_free:
  assumes "lawful_wire W" "wf_proof L p" "wf_proof L q"
    and "ReceiptProof_encode L W p = Inr a" "ReceiptProof_encode L W q = Inr b" "a @ r = b @ s"
  shows "p = q \<and> r = s"
  using assms receipt_proof.prefix_free [of W L p q a b r s] by simp

theorem receipt_proof_prefix_free_witness:
  "\<exists>a. ReceiptProof_encode lib0 (wire0 tx0) (EmptyReceipt \<lparr>empty_inner_key = PublicKey 3\<rparr>) = Inr a
    \<and> (\<forall>q r s. wf_proof lib0 q \<longrightarrow> ReceiptProof_encode lib0 (wire0 tx0) q = Inr a \<longrightarrow> a @ r = a @ s
        \<longrightarrow> q = EmptyReceipt \<lparr>empty_inner_key = PublicKey 3\<rparr> \<and> r = s)"
proof -
  obtain a where a: "ReceiptProof_encode lib0 (wire0 tx0) (EmptyReceipt \<lparr>empty_inner_key = PublicKey 3\<rparr>) = Inr a"
    by (simp add: Empty_encode_def)
  then show ?thesis
    using receipt_proof_prefix_free [of "wire0 tx0" lib0 _ "EmptyReceipt \<lparr>empty_inner_key = PublicKey 3\<rparr>" a a]
    by auto
qed



end
