(* ===== verification/Isolated_Checks.thy ===== *)
theory Isolated_Checks
  imports Transactions
begin

text \<open>
  The checks of a transaction that need no storage (crates/tx-check:
  isolated_checks.rs, script_parser.rs, errors.rs): the number of proofs, the proofs
  against inputs and outputs, the conservation rule, the issue rule, and the search
  for the owner of a token among the inputs. Sums of amounts with the plain addition
  of the release build wrap around at 128 bits.
\<close>

section \<open>Errors\<close>

datatype CheckError =
    InvalidProof ReceiptProof u32 ReceiptProofError
  | NotEnoughProofs nat nat
  | NotSameTokenPubkey
  | ConservationRulesViolated
  | InputNotFound
  | ProofMappedToNotExistingInputOutput
  | AnnouncedAmountDoesNotMatch u128 u128
  | IssueAnnouncementMismatch
  | IssueAnnouncementNotProvided
  | BurntTokensSpending
  | AmountsSumOverflow
  | InvalidP2TRProof
  | ScriptTypeMismatch
  | ScriptPubKeyNotFound
  | InvalidReceiptKey
  | NewOwnerP2TRAddress
  | ZeroAmount

section \<open>Proofs with what they are about\<close>

record 'a ProofForCheck =
  statement :: 'a
  vout :: u32
  pf_inner :: ReceiptProof

definition extract_from_iterable_by_proof_map ::
  "ProofMap \<Rightarrow> 'a list \<Rightarrow> CheckError + 'a ProofForCheck list" where
  "extract_from_iterable_by_proof_map proof_map iterable =
     mapM (\<lambda>(i, p).
       if unat i < length iterable
       then Inr \<lparr>statement = iterable ! unat i, vout = i, pf_inner = p\<rparr>
       else Inl ProofMappedToNotExistingInputOutput) proof_map"

definition check_number_of_proofs :: "lib \<Rightarrow> Transaction \<Rightarrow> ProofMap \<Rightarrow> CheckError + unit" where
  "check_number_of_proofs L tx proofs =
     require (length (filter (\<lambda>out. \<not> is_op_return L (script_pubkey out)) (tx_output tx)) = length proofs)
       (NotEnoughProofs (length proofs) (length (tx_output tx)))"

section \<open>Conservation\<close>

text \<open>One step of the loop: the entry of the token grows by the amount, unless the sum
  overflows.\<close>

definition add_amount ::
  "(TokenPubkey, u128) hmap \<Rightarrow> TokenPubkey \<Rightarrow> u128 \<Rightarrow> (TokenPubkey, u128) hmap option" where
  "add_amount m t a =
     (case checked_add (hget_or m t 0) a of None \<Rightarrow> None | Some s \<Rightarrow> Some (hinsert t s m))"

fun sum_amounts ::
  "(TokenPubkey, u128) hmap \<Rightarrow> 'a ProofForCheck list \<Rightarrow> (TokenPubkey, u128) hmap option" where
  "sum_amounts m [] = Some m"
| "sum_amounts m (p # ps) =
     (let r = receipt (pf_inner p) in
      if is_empty_receiptproof (pf_inner p) \<or> amount (token_amount r) = 0 then sum_amounts m ps
      else case add_amount m (token_pubkey r) (amount (token_amount r)) of
             None \<Rightarrow> None
           | Some m' \<Rightarrow> sum_amounts m' ps)"

definition sum_amount_by_token_pubkey ::
  "'a ProofForCheck list \<Rightarrow> (TokenPubkey, u128) hmap option" where
  "sum_amount_by_token_pubkey proofs = sum_amounts [] proofs"

text \<open>Equality of hash maps: the same keys with the same values.\<close>

definition hmap_eq :: "('k, 'v) hmap \<Rightarrow> ('k, 'v) hmap \<Rightarrow> bool" where
  "hmap_eq a b =
     (list_all (\<lambda>(k, v). map_of b k = Some v) a \<and> list_all (\<lambda>(k, v). map_of a k = Some v) b)"

definition check_conservation_rules ::
  "TxIn ProofForCheck list \<Rightarrow> TxOut ProofForCheck list \<Rightarrow> CheckError + unit" where
  "check_conservation_rules inputs outputs =
     rbind (ok_or (sum_amount_by_token_pubkey inputs) AmountsSumOverflow) (\<lambda>i.
     rbind (ok_or (sum_amount_by_token_pubkey outputs) AmountsSumOverflow) (\<lambda>out.
     require (hmap_eq i out) ConservationRulesViolated))"

section \<open>Transfers\<close>

definition invalid_proof ::
  "'a ProofForCheck \<Rightarrow> ReceiptProofError fault + unit \<Rightarrow> CheckError fault + unit" where
  "invalid_proof p m = err_into (\<lambda>e. InvalidProof (pf_inner p) (vout p) e) m"

definition check_proofs_isolated ::
  "lib \<Rightarrow> Transaction \<Rightarrow> ProofMap \<Rightarrow> ProofMap \<Rightarrow> CheckError fault + unit" where
  "check_proofs_isolated L tx inputs outputs =
     rbind (may_fail (check_number_of_proofs L tx outputs)) (\<lambda>_.
     rbind (may_fail (extract_from_iterable_by_proof_map inputs (tx_input tx))) (\<lambda>gathered_inputs.
     rbind (may_fail (extract_from_iterable_by_proof_map outputs (tx_output tx))) (\<lambda>gathered_outputs.
     rbind (for_each (\<lambda>p.
         rbind (may_fail (require (\<not> is_burn (pf_inner p)) BurntTokensSpending)) (\<lambda>_.
         invalid_proof p (checked_check_by_input L (pf_inner p) (statement p)))) gathered_inputs) (\<lambda>_.
     rbind (for_each (\<lambda>p.
         invalid_proof p (checked_check_by_output L (pf_inner p) (statement p))) gathered_outputs) (\<lambda>_.
     may_fail (check_conservation_rules gathered_inputs gathered_outputs))))))"

definition check_transfer_isolated ::
  "lib \<Rightarrow> Transaction \<Rightarrow> ProofMap \<Rightarrow> ProofMap \<Rightarrow> CheckError fault + unit" where
  "check_transfer_isolated L tx inputs outputs = check_proofs_isolated L tx inputs outputs"

section \<open>Issues\<close>

text \<open>The first output whose script parses as an issue announcement decides.\<close>

fun find_issue_announcement ::
  "lib \<Rightarrow> TxOut list \<Rightarrow> IssueAnnouncement \<Rightarrow> CheckError + u128" where
  "find_issue_announcement L [] provided = Inl IssueAnnouncementNotProvided"
| "find_issue_announcement L (out # outs) provided =
     (case parse_op_return_script L (script_pubkey out) (Issue_from_bytes L) of
        Inr found \<Rightarrow>
          if found \<noteq> provided then Inl IssueAnnouncementMismatch else Inr (issue_amount found)
      | Inl _ \<Rightarrow> find_issue_announcement L outs provided)"

definition check_issue_announcement_isolated ::
  "lib \<Rightarrow> Transaction \<Rightarrow> IssueAnnouncement \<Rightarrow> CheckError + u128" where
  "check_issue_announcement_isolated L tx provided =
     find_issue_announcement L (tx_output tx) provided"

definition check_same_token_pubkey_proofs ::
  "ReceiptProof list \<Rightarrow> IssueAnnouncement \<Rightarrow> CheckError + unit" where
  "check_same_token_pubkey_proofs proofs announcement =
     (let filtered = filter (\<lambda>p. \<not> is_empty_receiptproof p) proofs in
      case filtered of
        [] \<Rightarrow> Inr ()
      | first_proof # _ \<Rightarrow>
          if token_pubkey (receipt first_proof) \<noteq> issue_token_pubkey announcement
          then Inl IssueAnnouncementMismatch
          else if list_all (\<lambda>p. token_pubkey (receipt p) = token_pubkey (receipt first_proof)) filtered
          then Inr ()
          else Inl NotSameTokenPubkey)"

text \<open>Proofs of outputs, skipping those mapped to OP_RETURN outputs.\<close>

definition check_outputs_skipping ::
  "lib \<Rightarrow> TxOut ProofForCheck list \<Rightarrow> CheckError fault + unit" where
  "check_outputs_skipping L gathered =
     for_each (\<lambda>p.
       if is_op_return L (script_pubkey (statement p)) then Inr ()
       else invalid_proof p (checked_check_by_output L (pf_inner p) (statement p))) gathered"

definition check_issue_isolated ::
  "lib \<Rightarrow> Transaction \<Rightarrow> ProofMap option \<Rightarrow> IssueAnnouncement \<Rightarrow> CheckError fault + unit" where
  "check_issue_isolated L tx output_proofs_opt announcement =
     (case output_proofs_opt of
        None \<Rightarrow> Inl (Fails (NotEnoughProofs 0 (length (tx_output tx))))
      | Some proofs \<Rightarrow>
          rbind (may_fail (check_issue_announcement_isolated L tx announcement)) (\<lambda>announced.
          rbind (may_fail (check_number_of_proofs L tx proofs)) (\<lambda>_.
          rbind (may_fail (check_same_token_pubkey_proofs (map snd proofs) announcement)) (\<lambda>_.
          rbind (may_fail (extract_from_iterable_by_proof_map proofs (tx_output tx))) (\<lambda>gathered.
          rbind (check_outputs_skipping L gathered) (\<lambda>_.
          let total = sum_list (map (\<lambda>(_, p). amount (token_amount (receipt p))) proofs) in
          may_fail (require (total = announced) (AnnouncedAmountDoesNotMatch announced total))))))))"

section \<open>Announcements and Spark exits\<close>

datatype AddressType = P2pkhAddress | P2shAddress | P2wpkhAddress | P2wshAddress | P2trAddress

definition script_to_address_type :: "lib \<Rightarrow> script \<Rightarrow> AddressType" where
  "script_to_address_type L s =
     (if is_p2pkh L s then P2pkhAddress
      else if is_p2sh L s then P2shAddress
      else if is_p2wpkh L s then P2wpkhAddress
      else if is_p2wsh L s then P2wshAddress
      else P2trAddress)"

definition check_transfer_ownership_isolated ::
  "lib \<Rightarrow> TransferOwnershipAnnouncement \<Rightarrow> CheckError + unit" where
  "check_transfer_ownership_isolated L a =
     require (script_to_address_type L (new_owner a) \<noteq> P2trAddress) NewOwnerP2TRAddress"

fun check_announcement_isolated :: "lib \<Rightarrow> Announcement \<Rightarrow> CheckError + unit" where
  "check_announcement_isolated L (TransferOwnershipA a) = check_transfer_ownership_isolated L a"
| "check_announcement_isolated L _ = Inr ()"

definition check_spark_exit_isolated ::
  "lib \<Rightarrow> Transaction \<Rightarrow> ProofMap \<Rightarrow> CheckError fault + unit" where
  "check_spark_exit_isolated L tx outputs =
     rbind (may_fail (check_number_of_proofs L tx outputs)) (\<lambda>_.
     rbind (may_fail (extract_from_iterable_by_proof_map outputs (tx_output tx))) (\<lambda>gathered.
     check_outputs_skipping L gathered))"

fun check_tx_type ::
  "lib \<Rightarrow> Transaction \<Rightarrow> Lrc20TxType \<Rightarrow> CheckError fault + unit" where
  "check_tx_type L tx (Issue ps a) = check_issue_isolated L tx ps a"
| "check_tx_type L tx (Transfer ips ops) = check_transfer_isolated L tx ips ops"
| "check_tx_type L tx (AnnouncementTx a) = may_fail (check_announcement_isolated L a)"
| "check_tx_type L tx (SparkExitTx ops) = check_spark_exit_isolated L tx ops"

definition check_transaction :: "lib \<Rightarrow> Lrc20Transaction \<Rightarrow> CheckError fault + unit" where
  "check_transaction L tx = check_tx_type L (bitcoin_tx tx) (tx_type tx)"

definition check_p2tr_proof :: "lib \<Rightarrow> script \<Rightarrow> TaprootProof \<Rightarrow> CheckError + unit" where
  "check_p2tr_proof L prev_script p =
     rbind (require (is_p2tr L prev_script) ScriptTypeMismatch) (\<lambda>_.
     rbind (map_err (\<lambda>_. InvalidP2TRProof)
             (ReceiptHash_try_from L (receipt (P2TR p)) (metadata (P2TR p)))) (\<lambda>pxh.
     rbind (map_err (\<lambda>_. InvalidReceiptKey) (ReceiptKey_new L pxh (tr_inner_key p))) (\<lambda>k.
     require (new_p2tr L (pk_x_only L (inner k)) = prev_script) InvalidP2TRProof)))"

section \<open>Who spends: the script an input satisfies\<close>

datatype ScriptParseError =
    UnsupportedScript
  | SP_InvalidInstruction
  | NotDataPush
  | InsufficientInstructions nat
  | MissingWitnessRedeemScript

datatype SpendingCondition =
    SC_P2PKH script
  | SC_P2SH script
  | SC_P2WPKH script
  | SC_P2WSH script
  | SC_P2TR script

text \<open>The data of a P2WPKH input indexes the second element of the witness.\<close>

definition PubkeyHashData_from_witness :: "lib \<Rightarrow> bytes list \<Rightarrow> ScriptParseError fault + script" where
  "PubkeyHashData_from_witness L w =
     (if length w \<le> 1 then Inl Panics else Inr (new_p2wpkh L (hash160_of L (w ! 1))))"

definition PubkeyHashData_from_script_sig :: "lib \<Rightarrow> bytes \<Rightarrow> ScriptParseError + script" where
  "PubkeyHashData_from_script_sig L b = Inr (new_p2pkh L (hash160_of L b))"

definition ScriptHashData_from_witness :: "lib \<Rightarrow> bytes list \<Rightarrow> ScriptParseError + script" where
  "ScriptHashData_from_witness L w =
     (if w = [] then Inl MissingWitnessRedeemScript else Inr (new_p2wsh L (sha256 L (last w))))"

definition ScriptHashData_from_script_sig :: "lib \<Rightarrow> bytes \<Rightarrow> ScriptParseError + script" where
  "ScriptHashData_from_script_sig L b = Inr (new_p2sh L (hash160_of L b))"

definition handle_legacy_address_type ::
  "lib \<Rightarrow> TxIn \<Rightarrow> AddressType \<Rightarrow> ScriptParseError + SpendingCondition" where
  "handle_legacy_address_type L tx_in address_type =
     (let ins = instructions L (script_sig tx_in) in
      if ins = [] then Inl (InsufficientInstructions 0)
      else case last ins of
        Inl _ \<Rightarrow> Inl SP_InvalidInstruction
      | Inr (Op _) \<Rightarrow> Inl NotDataPush
      | Inr (PushBytes b) \<Rightarrow>
          (case address_type of
             P2pkhAddress \<Rightarrow> rbind (PubkeyHashData_from_script_sig L b) (\<lambda>s. Inr (SC_P2PKH s))
           | P2shAddress \<Rightarrow> rbind (ScriptHashData_from_script_sig L b) (\<lambda>s. Inr (SC_P2SH s))
           | _ \<Rightarrow> Inl UnsupportedScript))"

definition SpendingCondition_from_txin ::
  "lib \<Rightarrow> TxIn \<Rightarrow> AddressType \<Rightarrow> ScriptParseError fault + SpendingCondition" where
  "SpendingCondition_from_txin L tx_in address_type =
     (case address_type of
        P2wpkhAddress \<Rightarrow>
          rbind (PubkeyHashData_from_witness L (witness tx_in)) (\<lambda>s. Inr (SC_P2WPKH s))
      | P2wshAddress \<Rightarrow>
          rbind (may_fail (ScriptHashData_from_witness L (witness tx_in))) (\<lambda>s. Inr (SC_P2WSH s))
      | P2pkhAddress \<Rightarrow> may_fail (handle_legacy_address_type L tx_in address_type)
      | P2shAddress \<Rightarrow> may_fail (handle_legacy_address_type L tx_in address_type)
      | P2trAddress \<Rightarrow> Inl (Fails UnsupportedScript))"

definition SpendingCondition_p2tr :: "lib \<Rightarrow> script \<Rightarrow> ScriptParseError + SpendingCondition" where
  "SpendingCondition_p2tr L prev_out_script =
     rbind (require (is_p2tr L prev_out_script) UnsupportedScript) (\<lambda>_. Inr (SC_P2TR prev_out_script))"

fun into_script :: "SpendingCondition \<Rightarrow> script" where
  "into_script (SC_P2PKH s) = s"
| "into_script (SC_P2SH s) = s"
| "into_script (SC_P2WPKH s) = s"
| "into_script (SC_P2WSH s) = s"
| "into_script (SC_P2TR s) = s"

section \<open>The owner of a token among the inputs\<close>

text \<open>The node is asked for the script of a previous output: \<open>node\<close> is its answer, where
  the request or the parsing of the script may fail and the output may be unknown or
  spent.\<close>

type_synonym node_tx_out = "OutPoint \<Rightarrow> unit + script option"

datatype owner_error = NodeError | OwnerScriptError ScriptParseError

definition handle_p2wpkh_input :: "lib \<Rightarrow> bytes list \<Rightarrow> TokenPubkey \<Rightarrow> owner_error fault + bool" where
  "handle_p2wpkh_input L w token =
     (case P2WPKHWitness_from_witness L w of
        Inl _ \<Rightarrow> Inr False
      | Inr pw \<Rightarrow>
          rbind (expect (ReceiptKey_new L (ReceiptHash_from L Receipt_empty) (pubkey token))) (\<lambda>k.
          Inr (wpkh_pubkey pw = pubkey token \<or> wpkh_pubkey pw = inner k)))"

definition owner_condition ::
  "lib \<Rightarrow> node_tx_out \<Rightarrow> TxIn \<Rightarrow> script \<Rightarrow> owner_error fault + SpendingCondition option" where
  "owner_condition L node i owner_script =
     (if script_to_address_type L owner_script = P2trAddress then
        (case node (previous_output i) of
           Inl _ \<Rightarrow> Inl (Fails NodeError)
         | Inr None \<Rightarrow> Inr None
         | Inr (Some s) \<Rightarrow>
             rbind (err_into OwnerScriptError (may_fail (SpendingCondition_p2tr L s))) (\<lambda>c. Inr (Some c)))
      else
        rbind (err_into OwnerScriptError
                (SpendingCondition_from_txin L i (script_to_address_type L owner_script)))
              (\<lambda>c. Inr (Some c)))"

fun find_owner_in_txinputs ::
  "lib \<Rightarrow> node_tx_out \<Rightarrow> TxIn list \<Rightarrow> TokenPubkey \<Rightarrow> script option \<Rightarrow> owner_error fault + TxIn option"
where
  "find_owner_in_txinputs L node [] token owner_script_opt = Inr None"
| "find_owner_in_txinputs L node (i # is') token owner_script_opt =
     (case owner_script_opt of
        None \<Rightarrow>
          rbind (handle_p2wpkh_input L (witness i) token) (\<lambda>b.
          if b then Inr (Some i) else find_owner_in_txinputs L node is' token owner_script_opt)
      | Some owner_script \<Rightarrow>
          rbind (owner_condition L node i owner_script) (\<lambda>c.
          if map_option into_script c = Some owner_script then Inr (Some i)
          else find_owner_in_txinputs L node is' token owner_script_opt))"


section \<open>Specification: token totals\<close>

text \<open>What a proof contributes to the total of a token, as a natural number, and the total
  of a list of proofs.\<close>

definition proof_contribution :: "TokenPubkey \<Rightarrow> ReceiptProof \<Rightarrow> nat" where
  "proof_contribution t p =
     (if is_empty_receiptproof p \<or> token_pubkey (receipt p) \<noteq> t then 0
      else unat (amount (token_amount (receipt p))))"

definition token_total :: "TokenPubkey \<Rightarrow> ReceiptProof list \<Rightarrow> nat" where
  "token_total t ps = sum_list (map (proof_contribution t) ps)"

definition conserved :: "ReceiptProof list \<Rightarrow> ReceiptProof list \<Rightarrow> bool" where
  "conserved ins outs \<longleftrightarrow> (\<forall>t. token_total t ins = token_total t outs \<and> token_total t ins < 2 ^ 128)"

section \<open>Examples\<close>

text \<open>A taproot proof of an amount of one token, the script it commits to under the concrete
  library, and an output with that script.\<close>

definition example_proof :: "u128 \<Rightarrow> TaprootProof" where
  "example_proof a = \<lparr>tr_receipt = \<lparr>token_amount = TokenAmount_from a, token_pubkey = TokenPubkey (PublicKey 7)\<rparr>,
     tr_inner_key = PublicKey 9, tr_metadata = None\<rparr>"

definition example_output :: "u128 \<Rightarrow> TxOut" where
  "example_output a = \<lparr>txout_value = 1000, script_pubkey =
     (case P2TR_to_witness_script lib0 (example_proof a) of Inr s \<Rightarrow> s | Inl _ \<Rightarrow> [])\<rparr>"

definition example_issue :: "u128 \<Rightarrow> IssueAnnouncement" where
  "example_issue a = \<lparr>issue_token_pubkey = TokenPubkey (PublicKey 7), issue_amount = a\<rparr>"

definition example_input :: TxIn where
  "example_input = \<lparr>previous_output = \<lparr>op_txid = 3, op_vout = 0\<rparr>, script_sig = [], witness = []\<rparr>"

definition example_tx :: "TxOut list \<Rightarrow> Transaction" where
  "example_tx outs = \<lparr>tx_version = 2, tx_lock_time = 0, tx_input = [example_input], tx_output = outs\<rparr>"

section \<open>Conservation: lemmas\<close>

lemma token_total_Nil [simp]: "token_total t [] = 0"
  by (simp add: token_total_def)

lemma token_total_Cons [simp]:
  "token_total t (p # ps) = proof_contribution t p + token_total t ps"
  by (simp add: token_total_def)

text \<open>The loop invariant: distinct keys, and no entry is zero.\<close>

definition wf_sums :: "(TokenPubkey, u128) hmap \<Rightarrow> bool" where
  "wf_sums m \<longleftrightarrow> distinct (map fst m) \<and> (\<forall>t v. map_of m t = Some v \<longrightarrow> v \<noteq> 0)"

lemma wf_sums_Nil [simp]: "wf_sums []"
  by (simp add: wf_sums_def)

lemma add_amount_Some:
  assumes "add_amount m t a = Some m'" "wf_sums m" "a \<noteq> 0"
  shows "wf_sums m'"
    and "unat (hget_or m' u 0) = unat (hget_or m u 0) + (if u = t then unat a else 0)"
proof -
  from assms(1) obtain s where s: "checked_add (hget_or m t 0) a = Some s" "m' = hinsert t s m"
    by (auto simp: add_amount_def split: option.splits)
  then have u: "unat s = unat (hget_or m t 0) + unat a"
    by (simp add: checked_add_Some)
  with assms(3) have "s \<noteq> 0"
    by (metis add_is_0 unat_0 unat_eq_zero)
  with assms(2) s show "wf_sums m'"
    by (auto simp: wf_sums_def)
  from s u show "unat (hget_or m' u 0) = unat (hget_or m u 0) + (if u = t then unat a else 0)"
    by simp
qed

lemma sum_amounts_Some:
  assumes "sum_amounts m ps = Some m'" "wf_sums m"
  shows "wf_sums m' \<and>
    unat (hget_or m' t 0) = unat (hget_or m t 0) + token_total t (map pf_inner ps)"
  using assms
proof (induction ps arbitrary: m)
  case (Cons p ps)
  let ?r = "receipt (pf_inner p)"
  show ?case
  proof (cases "is_empty_receiptproof (pf_inner p) \<or> amount (token_amount ?r) = 0")
    case True
    with Cons show ?thesis by (auto simp: proof_contribution_def)
  next
    case False
    with Cons.prems obtain m1 where m1:
      "add_amount m (token_pubkey ?r) (amount (token_amount ?r)) = Some m1" "sum_amounts m1 ps = Some m'"
      by (auto simp: Let_def split: option.splits)
    note step = add_amount_Some [OF m1(1) Cons.prems(2)]
    show ?thesis
      using False Cons.IH [OF m1(2) step(1)] step(2) [of t] by (auto simp: proof_contribution_def)
  qed
qed simp

lemma sum_amounts_None:
  assumes "sum_amounts m ps = None" "wf_sums m"
  shows "\<exists>t. 2 ^ 128 \<le> unat (hget_or m t 0) + token_total t (map pf_inner ps)"
  using assms
proof (induction ps arbitrary: m)
  case (Cons p ps)
  let ?r = "receipt (pf_inner p)"
  let ?t = "token_pubkey ?r" and ?a = "amount (token_amount ?r)"
  show ?case
  proof (cases "is_empty_receiptproof (pf_inner p) \<or> ?a = 0")
    case True
    then have "proof_contribution t (pf_inner p) = 0" for t
      by (auto simp: proof_contribution_def)
    with True Cons show ?thesis by simp
  next
    case nz: False
    show ?thesis
    proof (cases "add_amount m ?t ?a")
      case None
      then have "2 ^ 128 \<le> unat (hget_or m ?t 0) + unat ?a"
        by (auto simp: add_amount_def checked_add_None split: option.splits)
      with nz show ?thesis
        by (intro exI [of _ ?t]) (simp add: proof_contribution_def)
    next
      case (Some m1)
      note step = add_amount_Some [OF Some Cons.prems(2)]
      from nz Some Cons.prems(1) have "sum_amounts m1 ps = None"
        by (simp add: Let_def)
      with Cons.IH step(1) nz obtain t where
        t: "2 ^ 128 \<le> unat (hget_or m1 t 0) + token_total t (map pf_inner ps)" by blast
      show ?thesis
        using t step(2) [of t] nz by (intro exI [of _ t]) (auto simp: proof_contribution_def split: if_splits)
    qed
  qed
qed simp

lemma sum_amount_by_token_pubkey_Some:
  assumes "sum_amount_by_token_pubkey ps = Some m"
  shows "wf_sums m" and "unat (hget_or m t 0) = token_total t (map pf_inner ps)"
  using sum_amounts_Some [OF assms [unfolded sum_amount_by_token_pubkey_def], of t] by simp_all

lemma sum_amount_by_token_pubkey_None:
  "sum_amount_by_token_pubkey ps = None \<longleftrightarrow> (\<exists>t. 2 ^ 128 \<le> token_total t (map pf_inner ps))"
proof
  assume "sum_amount_by_token_pubkey ps = None"
  then show "\<exists>t. 2 ^ 128 \<le> token_total t (map pf_inner ps)"
    using sum_amounts_None [of "[]" ps] by (simp add: sum_amount_by_token_pubkey_def)
next
  assume "\<exists>t. 2 ^ 128 \<le> token_total t (map pf_inner ps)"
  then obtain t where t: "2 ^ 128 \<le> token_total t (map pf_inner ps)" ..
  show "sum_amount_by_token_pubkey ps = None"
  proof (rule ccontr)
    assume "sum_amount_by_token_pubkey ps \<noteq> None"
    then obtain m where "sum_amount_by_token_pubkey ps = Some m" by blast
    with t have "2 ^ 128 \<le> unat (hget_or m t 0)"
      by (simp add: sum_amount_by_token_pubkey_Some(2))
    with unat_bound [of "hget_or m t 0"] show False by simp
  qed
qed

lemma map_le_list_all:
  assumes "distinct (map fst x)"
  shows "list_all (\<lambda>(k, v). map_of y k = Some v) x \<longleftrightarrow> map_of x \<subseteq>\<^sub>m map_of y"
proof
  assume "list_all (\<lambda>(k, v). map_of y k = Some v) x"
  then have "map_of y k = Some v" if "map_of x k = Some v" for k v
    using map_of_SomeD [OF that] by (auto simp: list_all_iff)
  then show "map_of x \<subseteq>\<^sub>m map_of y"
    by (auto simp: map_le_def dom_def)
next
  assume le: "map_of x \<subseteq>\<^sub>m map_of y"
  have "map_of y k = Some v" if "(k, v) \<in> set x" for k v
    using le map_of_is_SomeI [OF assms that] by (auto simp: map_le_def dom_def)
  then show "list_all (\<lambda>(k, v). map_of y k = Some v) x"
    by (auto simp: list_all_iff)
qed

lemma hmap_eq_iff:
  assumes "distinct (map fst a)" "distinct (map fst b)"
  shows "hmap_eq a b \<longleftrightarrow> map_of a = map_of b"
  unfolding hmap_eq_def map_le_list_all [OF assms(1)] map_le_list_all [OF assms(2)]
  using map_le_antisym [of "map_of a" "map_of b"] by auto

lemma wf_sums_eq:
  assumes "wf_sums a" "wf_sums b"
  shows "hmap_eq a b \<longleftrightarrow> (\<forall>t. hget_or a t 0 = hget_or b t 0)"
proof -
  have get: "map_of m t = (if hget_or m t 0 = 0 then None else Some (hget_or m t 0))"
    if "wf_sums m" for m t
    using that by (auto simp: wf_sums_def hget_or_def split: option.splits)
  have "map_of a = map_of b \<longleftrightarrow> (\<forall>t. hget_or a t 0 = hget_or b t 0)"
  proof
    assume "map_of a = map_of b"
    then show "\<forall>t. hget_or a t 0 = hget_or b t 0" by (simp add: hget_or_def)
  next
    assume "\<forall>t. hget_or a t 0 = hget_or b t 0"
    then show "map_of a = map_of b" using assms by (intro ext) (simp add: get)
  qed
  then show ?thesis
    using assms by (simp add: hmap_eq_iff wf_sums_def)
qed

lemma check_conservation_rules_ok:
  "check_conservation_rules ins outs = Inr () \<longleftrightarrow>
    conserved (map pf_inner ins) (map pf_inner outs)" (is "?l \<longleftrightarrow> ?r")
proof
  assume ?l
  then obtain i out where io: "sum_amount_by_token_pubkey ins = Some i"
    "sum_amount_by_token_pubkey outs = Some out" "hmap_eq i out"
    by (auto simp: check_conservation_rules_def result_simps)
  then have "token_total t (map pf_inner ins) = token_total t (map pf_inner outs)" for t
    using wf_sums_eq [OF sum_amount_by_token_pubkey_Some(1) sum_amount_by_token_pubkey_Some(1), of ins i outs out]
    by (simp flip: sum_amount_by_token_pubkey_Some(2) [of _ _ t])
  moreover have "token_total t (map pf_inner ins) < 2 ^ 128" for t
    using sum_amount_by_token_pubkey_None [of ins] io(1) by (auto simp: not_le)
  ultimately show ?r by (simp add: conserved_def)
next
  assume r: ?r
  then have total: "token_total t (map pf_inner ins) = token_total t (map pf_inner outs)"
    "token_total t (map pf_inner ins) < 2 ^ 128" for t
    unfolding conserved_def by blast+
  have "\<exists>m. sum_amount_by_token_pubkey ins = Some m"
    using sum_amount_by_token_pubkey_None [of ins] total(2) by (meson not_None_eq not_le)
  then obtain i where i: "sum_amount_by_token_pubkey ins = Some i" by blast
  have "\<exists>m. sum_amount_by_token_pubkey outs = Some m"
    using sum_amount_by_token_pubkey_None [of outs] total by (metis not_None_eq not_le)
  then obtain out where out: "sum_amount_by_token_pubkey outs = Some out" by blast
  note sums = sum_amount_by_token_pubkey_Some [OF i] sum_amount_by_token_pubkey_Some [OF out]
  have "hget_or i t 0 = hget_or out t 0" for t
    by (simp add: word_unat_eq_iff sums total)
  then have "hmap_eq i out"
    using wf_sums_eq [OF sums(1) sums(3)] by blast
  with i out show ?l by (simp add: check_conservation_rules_def)
qed


section \<open>Acceptance: lemmas\<close>

lemma extract_Inr:
  "extract_from_iterable_by_proof_map m xs = Inr ps \<longleftrightarrow>
     (\<forall>(i, p) \<in> set m. unat i < length xs) \<and>
     ps = map (\<lambda>(i, p). \<lparr>statement = xs ! unat i, vout = i, pf_inner = p\<rparr>) m"
  unfolding extract_from_iterable_by_proof_map_def mapM_Inr_iff
  by (induction m arbitrary: ps) (auto simp: list_all2_Cons1 split: if_splits)

lemma pf_inner_extracted [simp]:
  "map (pf_inner \<circ> (\<lambda>(i, p). \<lparr>statement = f i, vout = i, pf_inner = p\<rparr>)) m = map snd m"
  by (induction m) auto

lemma invalid_proof_Inr [simp, result_simps]: "invalid_proof p m = Inr u \<longleftrightarrow> m = Inr u"
  by (simp add: invalid_proof_def)

lemma check_outputs_skipping_Inr:
  "check_outputs_skipping L (map (\<lambda>(i, p). \<lparr>statement = xs ! unat i, vout = i, pf_inner = p\<rparr>) m) = Inr u
    \<longleftrightarrow> (\<forall>(i, p) \<in> set m. is_op_return L (script_pubkey (xs ! unat i))
          \<or> checked_check_by_output L p (xs ! unat i) = Inr ())"
  by (auto simp: check_outputs_skipping_def for_each_Inr)

lemma check_same_token_pubkey_proofs_Inr:
  "check_same_token_pubkey_proofs ps a = Inr () \<longleftrightarrow>
    (\<forall>p \<in> set ps. is_empty_receiptproof p \<or> token_pubkey (receipt p) = issue_token_pubkey a)"
proof (cases "filter (\<lambda>p. \<not> is_empty_receiptproof p) ps")
  case Nil
  then show ?thesis
    by (auto simp: check_same_token_pubkey_proofs_def filter_empty_conv)
next
  case (Cons q qs)
  then have "set (q # qs) = {p \<in> set ps. \<not> is_empty_receiptproof p}"
    by (metis set_filter)
  then have *: "(\<forall>p \<in> set ps. is_empty_receiptproof p \<or> Q p) \<longleftrightarrow> (\<forall>p \<in> set (q # qs). Q p)" for Q
    by blast
  show ?thesis
    unfolding * using Cons by (auto simp: check_same_token_pubkey_proofs_def list_all_iff)
qed

lemma unat_sum_list:
  "unat (sum_list ws) = sum_list (map unat ws) mod 2 ^ LENGTH('a)" for ws :: "'a::len word list"
proof (induction ws)
  case (Cons w ws)
  then show ?case by (simp add: unat_word_ariths mod_simps)
qed simp

section \<open>Examples: lemmas\<close>

lemma example_output_checks [simp]:
  "P2TR_check_by_output lib0 (example_proof a) (example_output a) = Inr ()"
  "\<not> is_op_return lib0 (script_pubkey (example_output a))"
  by (simp_all add: P2TR_check_by_output_def example_output_def P2TR_to_witness_script_def
      example_proof_def proof_hash_def ReceiptHash_try_from_def ReceiptKey_new_def Let_def
      ReceiptKey_new_with_ctx_def receipt_hash_pubkey_scalar_def check_metadata_size_def lib0_def)

lemma example_proof_receipt [simp]:
  "tr_receipt (example_proof a) =
     \<lparr>token_amount = TokenAmount_from a, token_pubkey = TokenPubkey (PublicKey 7)\<rparr>"
  by (simp add: example_proof_def)

lemma find_issue_announcement_to_script:
  assumes "iterates_back L" "op_return_first L" "wf_announcement L (IssueA a)"
  shows "find_issue_announcement L (\<lparr>txout_value = v, script_pubkey = Announcement_to_script L (IssueA a)\<rparr> # outs) a
    = Inr (issue_amount a)"
  using issue_ann.bytes_roundtrip [OF assms(3)]
  by (simp add: parse_op_return_to_script [OF assms] Issue_from_bytes_def Announcement_to_bytes_def
      Any_to_bytes_def)

section \<open>Properties\<close>

text \<open>C1. A transfer passes the isolated checks exactly when the number of proofs of outputs
  is the number of outputs that are not OP_RETURN, every proof of an input belongs to an
  existing input, does not spend burnt tokens and is valid for its input, every proof of an
  output is valid for an existing output, and, for every token, the amounts of the inputs
  and of the outputs have the same total as unbounded numbers, below 2 to the 128.\<close>

theorem transfer_accepted_iff:
  "check_transaction L \<lparr>bitcoin_tx = tx, tx_type = Transfer ins outs\<rparr> = Inr () \<longleftrightarrow>
     length (filter (\<lambda>out. \<not> is_op_return L (script_pubkey out)) (tx_output tx)) = length outs
   \<and> (\<forall>(i, p) \<in> set ins. unat i < length (tx_input tx) \<and> \<not> is_burn p
        \<and> checked_check_by_input L p (tx_input tx ! unat i) = Inr ())
   \<and> (\<forall>(i, p) \<in> set outs. unat i < length (tx_output tx)
        \<and> checked_check_by_output L p (tx_output tx ! unat i) = Inr ())
   \<and> (\<forall>t. token_total t (map snd ins) = token_total t (map snd outs)
        \<and> token_total t (map snd ins) < 2 ^ 128)"
  unfolding conserved_def [symmetric] check_transaction_def
  by (auto simp: check_transfer_isolated_def check_proofs_isolated_def check_number_of_proofs_def
      rbind_Inr_iff extract_Inr for_each_Inr check_conservation_rules_ok)

theorem transfer_accepted_iff_witness:
  "check_transaction lib0
     \<lparr>bitcoin_tx = example_tx [example_output 2, example_output 3],
      tx_type = Transfer [(0, P2TR (example_proof 5))]
        [(0, P2TR (example_proof 2)), (1, P2TR (example_proof 3))]\<rparr> = Inr ()"
  unfolding transfer_accepted_iff
  by (simp add: example_tx_def P2TR_check_by_input_def proof_contribution_def TokenAmount_from_def)

text \<open>C2. An issue with proofs passes the isolated checks exactly when the first output
  that parses as an issue announcement carries the announcement of the transaction, the
  number of proofs is the number of outputs that are not OP_RETURN, every proof that is not
  empty has the announced token, every proof is for an existing output and is valid for it
  unless that output is an OP_RETURN, and the sum of the amounts is the announced amount
  modulo 2 to the 128.\<close>

theorem issue_accepted_iff:
  "check_transaction L \<lparr>bitcoin_tx = tx, tx_type = Issue (Some outs) a\<rparr> = Inr () \<longleftrightarrow>
     (\<exists>b. find_issue_announcement L (tx_output tx) a = Inr b
        \<and> sum_list (map (\<lambda>(_, p). unat (amount (token_amount (receipt p)))) outs) mod 2 ^ 128 = unat b)
   \<and> length (filter (\<lambda>out. \<not> is_op_return L (script_pubkey out)) (tx_output tx)) = length outs
   \<and> (\<forall>(i, p) \<in> set outs. (is_empty_receiptproof p \<or> token_pubkey (receipt p) = issue_token_pubkey a)
        \<and> unat i < length (tx_output tx)
        \<and> (is_op_return L (script_pubkey (tx_output tx ! unat i))
           \<or> checked_check_by_output L p (tx_output tx ! unat i) = Inr ()))"
proof -
  have wrapped: "sum_list (map (\<lambda>(_, p). amount (token_amount (receipt p))) outs) = b \<longleftrightarrow>
    sum_list (map (\<lambda>(_, p). unat (amount (token_amount (receipt p)))) outs) mod 2 ^ 128 = unat b" for b
    by (simp add: word_unat_eq_iff unat_sum_list case_prod_unfold comp_def)
  show ?thesis
    unfolding check_transaction_def
    by (auto simp: check_issue_isolated_def check_number_of_proofs_def
        check_issue_announcement_isolated_def rbind_Inr_iff extract_Inr Let_def wrapped
        check_outputs_skipping_Inr check_same_token_pubkey_proofs_Inr split_beta ball_conj_distrib
        simp del: power_numeral)
qed

theorem issue_accepted_iff_witness:
  "check_transaction lib0
     \<lparr>bitcoin_tx = example_tx [\<lparr>txout_value = 0, script_pubkey = Announcement_to_script lib0 (IssueA (example_issue 1))\<rparr>,
        example_output (2 ^ 127), example_output (2 ^ 127 + 1)],
      tx_type = Issue (Some [(1, P2TR (example_proof (2 ^ 127))), (2, P2TR (example_proof (2 ^ 127 + 1)))])
        (example_issue 1)\<rparr> = Inr ()"
proof -
  have "is_op_return lib0 (Announcement_to_script lib0 (IssueA (example_issue 1)))"
    using op_return_first_lib0 by (simp add: op_return_first_def Announcement_to_script_def)
  then show ?thesis
    unfolding issue_accepted_iff
    by (simp add: example_tx_def find_issue_announcement_to_script TokenAmount_from_def example_issue_def
        del: find_issue_announcement.simps)
qed



text \<open>C24. The search panics when the recorded owner is a pay-to-witness-public-key-hash script
  and the first input has fewer than two witness elements, as the inputs of every taproot
  key-path spend and of every transaction without witnesses have: the witness is indexed
  without a length check.\<close>

theorem find_owner_panics:
  assumes "script_to_address_type L s = P2wpkhAddress" and "length (witness i) < 2"
  shows "find_owner_in_txinputs L node (i # ins) t (Some s) = Inl Panics"
  using assms
  by (simp add: owner_condition_def SpendingCondition_from_txin_def PubkeyHashData_from_witness_def
      err_into_def)

theorem find_owner_panics_witness:
  "find_owner_in_txinputs lib0 (\<lambda>_. Inr None) [example_input] (TokenPubkey (PublicKey 7))
     (Some (new_p2wpkh lib0 3)) = Inl Panics"
  by (rule find_owner_panics)
    (simp_all add: script_to_address_type_def example_input_def lib0_def)

end
