(* ===== verification/Graph_Builder.thy ===== *)
theory Graph_Builder
  imports Transactions
begin

text \<open>
  The graph builder (crates/tx-attach/src/lib.rs): transactions wait until every parent
  is attached. Storage is asked whether it has a transaction; a request may fail, and then
  the handler returns early and leaves the maps as they are at that point, so a failure
  carries the state. Hash sets are lists without repetitions, in the order in which an
  iteration visits them.
\<close>

section \<open>State\<close>

type_synonym 'a hset = "'a list"

record ('i, 't) GraphBuilder =
  inverse_deps :: "('i, 'i hset) hmap"
  deps :: "('i, 'i hset) hmap"
  stored_txs :: "('i, 't \<times> nat) hmap"

text \<open>The answer of storage to a lookup by identifier: failure, or whether it is there.\<close>

type_synonym 'i lookup = "'i \<Rightarrow> unit + bool"

definition hset_extend :: "'a hset \<Rightarrow> 'a list \<Rightarrow> 'a hset" where
  "hset_extend s xs = fold List.insert xs s"

definition entry_insert :: "'k \<Rightarrow> 'a \<Rightarrow> ('k, 'a hset) hmap \<Rightarrow> ('k, 'a hset) hmap" where
  "entry_insert k x m = hinsert k (List.insert x (hget_or m k [])) m"

definition leaving :: "'s \<Rightarrow> 'e + 'a \<Rightarrow> 's + 'a" where
  "leaving s m = map_err (\<lambda>_. s) m"

section \<open>Attached parents\<close>

definition is_attached :: "'i lookup \<Rightarrow> 'i list \<Rightarrow> 'i \<Rightarrow> unit + bool" where
  "is_attached db attached p = (if p \<in> set attached then Inr True else db p)"

definition remove_attached_parents ::
  "'i lookup \<Rightarrow> 'i \<Rightarrow> 'i list \<Rightarrow> ('i, 't) GraphBuilder \<Rightarrow>
     ('i, 't) GraphBuilder + (bool \<times> ('i, 't) GraphBuilder)" where
  "remove_attached_parents db t attached g =
     (case hget (deps g) t of
        None \<Rightarrow> Inr (True, g)
      | Some txids \<Rightarrow>
          rbind (leaving g (foldM (\<lambda>ids p. rbind (is_attached db attached p)
                  (\<lambda>b. Inr (if b then ids @ [p] else ids))) [] txids)) (\<lambda>ids_to_remove.
          let txids' = fold removeAll ids_to_remove txids in
          Inr (txids' = [], g\<lparr>deps := hinsert t txids' (deps g)\<rparr>)))"

section \<open>Attaching a batch\<close>

text \<open>One iteration of the loop over the proofs of the inputs.\<close>

definition transfer_parent :: "Lrc20Transaction \<Rightarrow> u32 \<times> ReceiptProof \<Rightarrow> txid option" where
  "transfer_parent tx = (\<lambda>(i, p).
     if is_empty_receiptproof p then None
     else if unat i < length (tx_input (bitcoin_tx tx))
     then Some (op_txid (previous_output (tx_input (bitcoin_tx tx) ! unat i)))
     else None)"

definition add_dependency :: "'i \<Rightarrow> 'i \<Rightarrow> ('i, 't) GraphBuilder \<Rightarrow> ('i, 't) GraphBuilder" where
  "add_dependency parent child g =
     g\<lparr>inverse_deps := entry_insert parent child (inverse_deps g),
       deps := entry_insert child parent (deps g)\<rparr>"

definition note_parent ::
  "'i lookup \<Rightarrow> 'i list \<Rightarrow> 'i \<Rightarrow> ('i, 't) GraphBuilder \<Rightarrow> 'i option \<Rightarrow>
     ('i, 't) GraphBuilder + ('i, 't) GraphBuilder" where
  "note_parent db attached child g po =
     (case po of
        None \<Rightarrow> Inr g
      | Some p \<Rightarrow>
          rbind (leaving g (is_attached db attached p)) (\<lambda>b.
          Inr (if b then g else add_dependency p child g)))"

text \<open>The end of handle_transfer, where the parents have been noted: attach the child and
  queue what waits for it, or store it.\<close>

definition attach_or_store ::
  "nat \<Rightarrow> 't \<Rightarrow> 'i \<Rightarrow> 'i hset \<Rightarrow> 'i list \<Rightarrow> ('i, 't) GraphBuilder \<Rightarrow>
     ('i, 't) GraphBuilder \<times> 'i hset \<times> 'i list" where
  "attach_or_store now tx child queued attached g =
     (let ds = hget_or (deps g) child [];
          g0 = g\<lparr>deps := hinsert child ds (deps g)\<rparr> in
      if ds = [] then
        (let g1 = g0\<lparr>deps := hremove child (deps g0)\<rparr> in
         case hget (inverse_deps g1) child of
           None \<Rightarrow> (g1, queued, attached @ [child])
         | Some ids \<Rightarrow>
             (g1\<lparr>inverse_deps := hremove child (inverse_deps g1)\<rparr>, hset_extend queued ids,
              attached @ [child]))
      else (g0\<lparr>stored_txs := hinsert child (tx, now) (stored_txs g0)\<rparr>, queued, attached))"

definition handle_transfer ::
  "txid lookup \<Rightarrow> nat \<Rightarrow> ProofMap \<Rightarrow> Lrc20Transaction \<Rightarrow> txid \<Rightarrow> txid hset \<Rightarrow> txid list \<Rightarrow>
     (txid, Lrc20Transaction) GraphBuilder \<Rightarrow>
     (txid, Lrc20Transaction) GraphBuilder + ((txid, Lrc20Transaction) GraphBuilder \<times> txid hset \<times> txid list)"
where
  "handle_transfer db now proofs tx child queued attached g =
     rbind (foldM (\<lambda>g ip. note_parent db attached child g (transfer_parent tx ip)) g proofs) (\<lambda>g'.
     Inr (attach_or_store now tx child queued attached g'))"

definition handle_spark_exit ::
  "txid \<Rightarrow> txid hset \<Rightarrow> txid list \<Rightarrow> (txid, Lrc20Transaction) GraphBuilder \<Rightarrow>
     (txid, Lrc20Transaction) GraphBuilder \<times> txid hset \<times> txid list" where
  "handle_spark_exit child queued attached g = (g, queued, attached @ [child])"

definition attach_tx ::
  "lib \<Rightarrow> txid lookup \<Rightarrow> nat \<Rightarrow> (txid, Lrc20Transaction) GraphBuilder \<times> txid hset \<times> txid list \<Rightarrow>
     Lrc20Transaction \<Rightarrow>
     (txid, Lrc20Transaction) GraphBuilder + ((txid, Lrc20Transaction) GraphBuilder \<times> txid hset \<times> txid list)"
where
  "attach_tx L db now = (\<lambda>(g, queued, attached) tx.
     let child = ltxid L tx in
     case tx_type tx of
       Issue _ _ \<Rightarrow>
         (case hget (inverse_deps g) child of
            None \<Rightarrow> Inr (g, queued, attached @ [child])
          | Some ids \<Rightarrow> Inr (g\<lparr>inverse_deps := hremove child (inverse_deps g)\<rparr>,
                            hset_extend queued ids, attached @ [child]))
     | Transfer ips _ \<Rightarrow> handle_transfer db now ips tx child queued attached g
     | AnnouncementTx _ \<Rightarrow> Inr (g, queued, attached)
     | SparkExitTx _ \<Rightarrow> Inr (handle_spark_exit child queued attached g))"

section \<open>The queue\<close>

text \<open>The body of the inner loop; \<open>key\<close> is the identifier of a stored transaction.\<close>

definition queue_step ::
  "('t \<Rightarrow> 'i) \<Rightarrow> 'i lookup \<Rightarrow> ('i, 't) GraphBuilder \<times> 'i hset \<times> 'i list \<Rightarrow> 'i \<Rightarrow>
     ('i, 't) GraphBuilder + (('i, 't) GraphBuilder \<times> 'i hset \<times> 'i list)" where
  "queue_step key db = (\<lambda>(g, local_queue, attached) t.
     rbind (remove_attached_parents db t attached g) (\<lambda>(is_empty, g1).
     if \<not> is_empty then Inr (g1, local_queue, attached)
     else case hget (stored_txs g1) t of
         None \<Rightarrow> Inr (g1, local_queue, attached)
       | Some (tx, _) \<Rightarrow>
           (let g2 = g1\<lparr>stored_txs := hremove t (stored_txs g1), deps := hremove t (deps g1)\<rparr> in
            case hget (inverse_deps g2) t of
              None \<Rightarrow> Inr (g2, local_queue, attached @ [key tx])
            | Some ids \<Rightarrow> Inr (g2\<lparr>inverse_deps := hremove t (inverse_deps g2)\<rparr>,
                              hset_extend local_queue ids, attached @ [key tx]))))"

definition queue_round ::
  "('t \<Rightarrow> 'i) \<Rightarrow> 'i lookup \<Rightarrow> ('i, 't) GraphBuilder \<Rightarrow> 'i list \<Rightarrow> 'i hset \<Rightarrow>
     ('i, 't) GraphBuilder + (('i, 't) GraphBuilder \<times> 'i hset \<times> 'i list)" where
  "queue_round key db g attached queued = foldM (queue_step key db) (g, [], attached) queued"

function process_queue ::
  "('t \<Rightarrow> 'i) \<Rightarrow> 'i lookup \<Rightarrow> ('i, 't) GraphBuilder \<Rightarrow> 'i list \<Rightarrow> 'i hset \<Rightarrow>
     ('i, 't) GraphBuilder + (('i, 't) GraphBuilder \<times> 'i list)" where
  "process_queue key db g attached queued =
     (if queued = [] then Inr (g, attached)
      else case queue_round key db g attached queued of
             Inl g' \<Rightarrow> Inl g'
           | Inr (g', queued', attached') \<Rightarrow> process_queue key db g' attached' queued')"
  by pat_completeness auto

text \<open>A round that leaves something in the queue has removed an entry of the inverse
  dependencies.\<close>

lemma remove_attached_parents_keeps:
  assumes "remove_attached_parents db t att g = Inr (b, g')"
  shows "inverse_deps g' = inverse_deps g" "stored_txs g' = stored_txs g"
  using assms
  by (auto simp: remove_attached_parents_def leaving_def Let_def rbind_Inr_iff split: option.splits)

lemma queue_step_decreases:
  assumes "queue_step key db (g, lq, att) t = Inr (g', lq', att')"
  shows "length (inverse_deps g') < length (inverse_deps g)
    \<or> length (inverse_deps g') \<le> length (inverse_deps g) \<and> lq' = lq"
proof -
  from assms obtain b g1 where r: "remove_attached_parents db t att g = Inr (b, g1)"
    by (auto simp: queue_step_def rbind_Inr_iff)
  note keeps = remove_attached_parents_keeps [OF r]
  show ?thesis
  proof (cases "b \<and> hget (stored_txs g) t \<noteq> None \<and> hget (inverse_deps g) t \<noteq> None")
    case True
    then have "t \<in> fst ` set (inverse_deps g)"
      by (auto simp: map_of_eq_None_iff)
    then have "length (hremove t (inverse_deps g)) < length (inverse_deps g)"
      by (rule length_hremove_less)
    with True r keeps assms show ?thesis
      by (auto simp: queue_step_def Let_def)
  next
    case False
    with r keeps assms show ?thesis
      by (auto simp: queue_step_def Let_def split: if_splits option.splits)
  qed
qed

lemma queue_round_decreases:
  assumes "foldM (queue_step key db) (g, lq, att) q = Inr (g', lq', att')"
  shows "length (inverse_deps g') < length (inverse_deps g)
    \<or> length (inverse_deps g') \<le> length (inverse_deps g) \<and> lq' = lq"
  using assms
proof (induction q arbitrary: g lq att)
  case (Cons t q)
  then obtain g1 lq1 att1 where
    "queue_step key db (g, lq, att) t = Inr (g1, lq1, att1)"
    "foldM (queue_step key db) (g1, lq1, att1) q = Inr (g', lq', att')"
    by (auto simp: rbind_Inr_iff)
  from queue_step_decreases [OF this(1)] Cons.IH [OF this(2)] show ?case
    by auto
qed simp

termination process_queue
proof (relation "measure (\<lambda>(key, db, g, att, q). length (inverse_deps g) + (if q = [] then 0 else 1))")
  fix key :: "'t \<Rightarrow> 'i" and db g att q x g' y q' att'
  assume "q \<noteq> []" "queue_round key db g att q = Inr x" "(g', y) = x" "(q', att') = y"
  then show "((key, db, g', att', q'), key, db, g, att, q)
      \<in> measure (\<lambda>(key, db, g, att, q). length (inverse_deps g) + (if q = [] then 0 else 1))"
    using queue_round_decreases [of key db g "[]" att q g' q' att']
    by (auto simp: queue_round_def)
qed simp

declare process_queue.simps [simp del]

definition handle_fully_attached_txs :: "'i list \<Rightarrow> 'i list option" where
  "handle_fully_attached_txs attached = (if attached = [] then None else Some attached)"

definition attach_txs ::
  "lib \<Rightarrow> txid lookup \<Rightarrow> nat \<Rightarrow> Lrc20Transaction list \<Rightarrow> (txid, Lrc20Transaction) GraphBuilder \<Rightarrow>
     (txid, Lrc20Transaction) GraphBuilder + ((txid, Lrc20Transaction) GraphBuilder \<times> txid list option)"
where
  "attach_txs L db now checked_txs g =
     rbind (foldM (attach_tx L db now) (g, [], []) checked_txs) (\<lambda>(g1, queued, attached).
     rbind (process_queue (ltxid L) db g1 attached queued) (\<lambda>(g2, attached').
     Inr (g2, handle_fully_attached_txs attached')))"

section \<open>Cleaning up\<close>

text \<open>Forgetting what a transaction waits for; the result lists the identifiers that are
  deleted from storage.\<close>

definition forget_dep ::
  "'i \<Rightarrow> ('i, 'i hset) hmap \<times> 'i list \<Rightarrow> 'i \<Rightarrow> ('i, 'i hset) hmap \<times> 'i list" where
  "forget_dep t = (\<lambda>(im, txs_to_remove) dep.
     case hget im dep of
       None \<Rightarrow> (im, txs_to_remove)
     | Some s \<Rightarrow>
         (if removeAll t s = [] then hremove dep im else hinsert dep (removeAll t s) im,
          txs_to_remove @ [dep]))"

definition remove_tx_from_deps ::
  "('i list \<Rightarrow> unit + unit) \<Rightarrow> 'i \<Rightarrow> ('i, 't) GraphBuilder \<Rightarrow>
     ('i, 't) GraphBuilder + (('i, 't) GraphBuilder \<times> 'i list)" where
  "remove_tx_from_deps delete t g =
     (let (im, txs_to_remove) = foldl (forget_dep t) (inverse_deps g, [t]) (hget_or (deps g) t []);
          g' = g\<lparr>deps := hremove t (deps g), inverse_deps := im\<rparr> in
      rbind (leaving g' (delete txs_to_remove)) (\<lambda>_. Inr (g', txs_to_remove)))"

text \<open>New identifiers are pushed to the work list and to the set of those seen.\<close>

definition push_unseen :: "'i list \<times> 'i hset \<Rightarrow> 'i \<Rightarrow> 'i list \<times> 'i hset" where
  "push_unseen = (\<lambda>(work, seen) d. if d \<in> set seen then (work, seen) else (work @ [d], List.insert d seen))"

definition remove_step ::
  "('i list \<Rightarrow> unit + unit) \<Rightarrow> 'i \<Rightarrow> 'i list \<Rightarrow> 'i hset \<Rightarrow> ('i, 't) GraphBuilder \<Rightarrow>
     ('i, 't) GraphBuilder + (('i, 't) GraphBuilder \<times> 'i list \<times> 'i hset)" where
  "remove_step delete t work seen g =
     rbind (remove_tx_from_deps delete t (g\<lparr>stored_txs := hremove t (stored_txs g)\<rparr>)) (\<lambda>(g1, _).
     case hget (inverse_deps g1) t of
       None \<Rightarrow> Inr (g1, work, seen)
     | Some ids \<Rightarrow>
         (let (work', seen') = foldl push_unseen (work, seen) ids in
          Inr (g1\<lparr>inverse_deps := hremove t (inverse_deps g1)\<rparr>, work', seen')))"

definition pending_size :: "('i, 'i hset) hmap \<Rightarrow> nat" where
  "pending_size m = sum_list (map (length \<circ> snd) m)"

lemma pending_size_hremove:
  "hget m k = Some s \<Longrightarrow> pending_size (hremove k m) + length s \<le> pending_size m"
proof (induction m)
  case (Cons kv m)
  have le: "pending_size (hremove k m) \<le> pending_size m" for m :: "('a, 'a hset) hmap"
    by (induction m) (auto simp: pending_size_def)
  show ?case
    using Cons le [of m] by (cases kv) (auto simp: pending_size_def split: if_splits)
qed simp

lemma pending_size_hinsert:
  "hget m k = Some s \<Longrightarrow> length s' \<le> length s \<Longrightarrow> pending_size (hinsert k s' m) \<le> pending_size m"
proof (induction m)
  case (Cons kv m)
  then show ?case by (cases kv) (auto simp: pending_size_def split: if_splits)
qed simp

lemma pending_size_forget_dep:
  "pending_size (fst (forget_dep t (im, xs) d)) \<le> pending_size im"
proof (cases "hget im d")
  case (Some s)
  then show ?thesis
    using pending_size_hremove [OF Some] pending_size_hinsert [OF Some, of "removeAll t s"]
    by (auto simp: forget_dep_def length_removeAll_less_eq)
qed (simp add: forget_dep_def)

lemma pending_size_forget_deps:
  "pending_size (fst (foldl (forget_dep t) (im, xs) ds)) \<le> pending_size im"
proof (induction ds arbitrary: im xs)
  case (Cons d ds)
  obtain im' xs' where s: "forget_dep t (im, xs) d = (im', xs')" by fastforce
  have "pending_size im' \<le> pending_size im"
    using pending_size_forget_dep [of t im xs d] s by simp
  with Cons [of im' xs'] s show ?case by simp
qed simp

lemma push_unseen_simps:
  "push_unseen (work, seen) d = (if d \<in> set seen then (work, seen) else (work @ [d], List.insert d seen))"
  by (simp add: push_unseen_def)

lemma length_push_unseen:
  "length (fst (foldl push_unseen (work, seen) ids)) \<le> length work + length ids"
proof (induction ids arbitrary: work seen)
  case (Cons d ids)
  have "length (fst (foldl push_unseen (work, seen) ids)) \<le> length work + length ids"
    "length (fst (foldl push_unseen (work @ [d], List.insert d seen) ids)) \<le> length (work @ [d]) + length ids"
    by (rule Cons.IH)+
  then show ?case by (auto simp: push_unseen_simps)
qed simp

lemma remove_step_decreases:
  assumes "remove_step delete t work seen g = Inr (g', work', seen')"
  shows "length work' + pending_size (inverse_deps g') \<le> length work + pending_size (inverse_deps g)"
proof -
  define im where "im = fst (foldl (forget_dep t) (inverse_deps g, [t]) (hget_or (deps g) t []))"
  have im: "pending_size im \<le> pending_size (inverse_deps g)"
    unfolding im_def by (rule pending_size_forget_deps)
  from assms obtain g1 x where g1: "remove_tx_from_deps delete t (g\<lparr>stored_txs := hremove t (stored_txs g)\<rparr>) = Inr (g1, x)"
    by (auto simp: remove_step_def rbind_Inr_iff)
  then have g1_inv: "inverse_deps g1 = im"
    by (auto simp: remove_tx_from_deps_def leaving_def rbind_Inr_iff im_def Let_def split: prod.splits)
  show ?thesis
  proof (cases "hget im t")
    case None
    with assms g1 g1_inv im show ?thesis by (simp add: remove_step_def)
  next
    case (Some ids)
    show ?thesis
      using assms g1 g1_inv im Some pending_size_hremove [OF Some] length_push_unseen [of work seen ids]
      by (auto simp: remove_step_def split: prod.splits)
  qed
qed

function remove_loop ::
  "('i list \<Rightarrow> unit + unit) \<Rightarrow> 'i list \<Rightarrow> 'i hset \<Rightarrow> ('i, 't) GraphBuilder \<Rightarrow>
     ('i, 't) GraphBuilder + ('i, 't) GraphBuilder" where
  "remove_loop delete [] seen g = Inr g"
| "remove_loop delete (t # work) seen g =
     (case remove_step delete t work seen g of
        Inl g' \<Rightarrow> Inl g'
      | Inr (g', work', seen') \<Rightarrow> remove_loop delete work' seen' g')"
  by pat_completeness auto

termination remove_loop
proof (relation "measure (\<lambda>(delete, work, seen, g). length work + pending_size (inverse_deps g))")
  fix delete :: "'i list \<Rightarrow> unit + unit" and t work seen and g :: "('i, 't) GraphBuilder"
    and x g' y work' seen'
  assume "remove_step delete t work seen g = Inr x" "(g', y) = x" "(work', seen') = y"
  then show "((delete, work', seen', g'), delete, t # work, seen, g)
      \<in> measure (\<lambda>(delete, work, seen, g). length work + pending_size (inverse_deps g))"
    using remove_step_decreases [of delete t work seen g g' work' seen'] by auto
qed simp

definition remove_outdated_tx ::
  "('i list \<Rightarrow> unit + unit) \<Rightarrow> 'i \<Rightarrow> ('i, 't) GraphBuilder \<Rightarrow>
     ('i, 't) GraphBuilder + ('i, 't) GraphBuilder" where
  "remove_outdated_tx delete t g = remove_loop delete [t] [t] g"

text \<open>The age of a stored transaction cannot be computed when the clock went backwards.\<close>

definition outdated_txs :: "nat \<Rightarrow> nat \<Rightarrow> ('i, 't \<times> nat) hmap \<Rightarrow> unit + 'i list" where
  "outdated_txs now tx_outdated_duration m =
     foldM (\<lambda>ids (t, _, created_at).
       if now < created_at then Inl ()
       else Inr (if tx_outdated_duration < now - created_at then ids @ [t] else ids)) [] m"

definition handle_cleanup ::
  "('i list \<Rightarrow> unit + unit) \<Rightarrow> nat \<Rightarrow> nat \<Rightarrow> ('i, 't) GraphBuilder \<Rightarrow>
     ('i, 't) GraphBuilder + ('i, 't) GraphBuilder" where
  "handle_cleanup delete now tx_outdated_duration g =
     rbind (leaving g (outdated_txs now tx_outdated_duration (stored_txs g))) (\<lambda>ids.
     foldM (\<lambda>g t. remove_outdated_tx delete t g) g ids)"


section \<open>Examples\<close>

text \<open>An issue and a transfer that spends its first output.\<close>

definition GraphBuilder_new :: "('i, 't) GraphBuilder" where
  "GraphBuilder_new = \<lparr>inverse_deps = [], deps = [], stored_txs = []\<rparr>"

definition example_root :: "Lrc20TxType \<Rightarrow> Lrc20Transaction" where
  "example_root ty = \<lparr>bitcoin_tx = \<lparr>tx_version = 2, tx_lock_time = 1, tx_input = [], tx_output = []\<rparr>,
     tx_type = ty\<rparr>"

definition example_issue_root :: Lrc20Transaction where
  "example_issue_root = example_root (Issue None \<lparr>issue_token_pubkey = TokenPubkey (PublicKey 7), issue_amount = 5\<rparr>)"

definition example_exit_root :: Lrc20Transaction where
  "example_exit_root = example_root (SparkExitTx [])"

definition example_child :: Lrc20Transaction where
  "example_child = \<lparr>bitcoin_tx = \<lparr>tx_version = 2, tx_lock_time = 2,
      tx_input = [\<lparr>previous_output = \<lparr>op_txid = 65536, op_vout = 0\<rparr>, script_sig = [], witness = []\<rparr>],
      tx_output = []\<rparr>,
     tx_type = Transfer [(0, P2TR \<lparr>tr_receipt = Receipt_empty, tr_inner_key = PublicKey 9, tr_metadata = None\<rparr>)] []\<rparr>"

section \<open>Specification\<close>

text \<open>Who a transaction waits for and who waits for it.\<close>

definition waits_for :: "('i, 't) GraphBuilder \<Rightarrow> 'i \<Rightarrow> 'i set" where
  "waits_for g c = set (hget_or (deps g) c [])"

definition waiters :: "('i, 't) GraphBuilder \<Rightarrow> 'i \<Rightarrow> 'i set" where
  "waiters g p = set (hget_or (inverse_deps g) p [])"

text \<open>The parents of an LRC-20 transaction: the transactions whose outputs it spends with a
  proof that is not empty, if it is a transfer.\<close>

definition parents :: "Lrc20Transaction \<Rightarrow> txid set" where
  "parents tx = (case tx_type tx of
     Transfer ips _ \<Rightarrow> {p. \<exists>ip \<in> set ips. transfer_parent tx ip = Some p} | _ \<Rightarrow> {})"

text \<open>A list of identifiers is justified over a set of known ones when each of them is the
  identifier of a transaction of T all of whose parents are known or come earlier.\<close>

definition justified ::
  "('t \<Rightarrow> 'i) \<Rightarrow> ('t \<Rightarrow> 'i set) \<Rightarrow> 't set \<Rightarrow> 'i set \<Rightarrow> 'i list \<Rightarrow> bool" where
  "justified key par T G att \<longleftrightarrow>
     (\<forall>i < length att. \<exists>tx \<in> T. key tx = att ! i \<and> par tx \<subseteq> G \<union> set (take i att))"

text \<open>The invariant of the builder while a batch is processed: \<open>G\<close> are the identifiers known
  to be attached before the batch, \<open>A\<close> those attached so far, \<open>Q\<close> those queued, \<open>X\<close> the
  identifiers of Spark exits. Exactly the stored transactions wait for something, everybody
  who waits is registered with whom it waits for or is queued, whoever waits for an attached
  transaction is queued unless that transaction is an exit, and a stored transaction is stored
  under its identifier and waits for all its parents that are not known.\<close>

definition graph_inv ::
  "('t \<Rightarrow> 'i) \<Rightarrow> ('t \<Rightarrow> 'i set) \<Rightarrow> 't set \<Rightarrow> 'i set \<Rightarrow> 'i set \<Rightarrow> ('i, 't) GraphBuilder \<Rightarrow>
     'i set \<Rightarrow> 'i set \<Rightarrow> bool" where
  "graph_inv key par T G X g Q A \<longleftrightarrow>
     (\<forall>c. hget (deps g) c = None \<longleftrightarrow> hget (stored_txs g) c = None)
   \<and> (\<forall>c. hget (deps g) c \<noteq> Some [])
   \<and> (\<forall>c. \<forall>p \<in> waits_for g c. c \<in> waiters g p \<or> c \<in> Q \<and> p \<in> A)
   \<and> (\<forall>c. \<forall>p \<in> waits_for g c. p \<in> A \<longrightarrow> c \<in> Q \<or> p \<in> X)
   \<and> (\<forall>c tx w. hget (stored_txs g) c = Some (tx, w) \<longrightarrow>
        tx \<in> T \<and> key tx = c \<and> par tx \<subseteq> waits_for g c \<union> G \<union> A)"

definition wf_graph ::
  "('t \<Rightarrow> 'i) \<Rightarrow> ('t \<Rightarrow> 'i set) \<Rightarrow> 't set \<Rightarrow> 'i set \<Rightarrow> ('i, 't) GraphBuilder \<Rightarrow> bool" where
  "wf_graph key par T G g \<longleftrightarrow> graph_inv key par T G {} g {} {}"

definition in_storage :: "'i lookup \<Rightarrow> 'i set" where
  "in_storage db = {p. db p = Inr True}"

definition answers :: "'i lookup \<Rightarrow> bool" where
  "answers db \<longleftrightarrow> (\<forall>p. \<exists>b. db p = Inr b)"

text \<open>What is held: stored or attached.\<close>

definition held :: "('i, 't) GraphBuilder \<Rightarrow> 'i list \<Rightarrow> 'i set" where
  "held g att = dom (hget (stored_txs g)) \<union> set att"

section \<open>Lemmas: sets and lookups\<close>

lemma set_hset_extend [simp]: "set (hset_extend s xs) = set s \<union> set xs"
  unfolding hset_extend_def by (induction xs arbitrary: s) auto

lemma waits_for_simps [simp]:
  "waits_for (g\<lparr>stored_txs := s\<rparr>) = waits_for g"
  "waits_for (g\<lparr>inverse_deps := m\<rparr>) = waits_for g"
  "waits_for (g\<lparr>deps := hinsert t ps (deps g)\<rparr>) c = (if c = t then set ps else waits_for g c)"
  "waits_for (g\<lparr>deps := hremove t (deps g)\<rparr>) c = (if c = t then {} else waits_for g c)"
  by (auto simp: waits_for_def fun_eq_iff hget_or_def)

lemma waiters_simps [simp]:
  "waiters (g\<lparr>stored_txs := s\<rparr>) = waiters g"
  "waiters (g\<lparr>deps := m\<rparr>) = waiters g"
  "waiters (g\<lparr>inverse_deps := hremove t (inverse_deps g)\<rparr>) p = (if p = t then {} else waiters g p)"
  by (auto simp: waiters_def fun_eq_iff hget_or_def)

lemma waits_for_add [simp]:
  "waits_for (add_dependency p c g) d = (if d = c then insert p (waits_for g d) else waits_for g d)"
  by (auto simp: waits_for_def add_dependency_def entry_insert_def)

lemma waiters_add [simp]:
  "waiters (add_dependency p c g) q = (if q = p then insert c (waiters g q) else waiters g q)"
  by (auto simp: waiters_def add_dependency_def entry_insert_def)

lemma stored_add [simp]: "stored_txs (add_dependency p c g) = stored_txs g"
  by (simp add: add_dependency_def)

lemma hremove_absent: "hget m k = None \<Longrightarrow> hremove k m = m"
  by (induction m) (auto split: if_splits)

lemma hinsert_same: "hget m k = Some v \<Longrightarrow> hinsert k v m = m"
  by (induction m) (auto split: if_splits)

lemma is_attached_Inr:
  "is_attached db att p = Inr b \<Longrightarrow> b \<longleftrightarrow> p \<in> set att \<or> p \<in> in_storage db"
  by (auto simp: is_attached_def in_storage_def split: if_splits)

lemma attached_ids:
  assumes "foldM (\<lambda>ids p. rbind (is_attached db att p) (\<lambda>b. Inr (if b then ids @ [p] else ids))) acc ps = Inr ids"
  shows "set ids = set acc \<union> {p \<in> set ps. p \<in> set att \<or> p \<in> in_storage db}"
  using assms
proof (induction ps arbitrary: acc)
  case (Cons p ps)
  then obtain b where b: "is_attached db att p = Inr b"
    by (auto simp: rbind_Inr_iff)
  show ?case
    using Cons b is_attached_Inr [OF b] by (cases b) auto
qed simp

lemma set_fold_removeAll: "set (fold removeAll ids xs) = set xs - set ids"
  by (induction ids arbitrary: xs) auto

lemma remove_attached_parents_Some:
  assumes "remove_attached_parents db t att g = Inr (b, g')" "hget (deps g) t = Some ps"
  obtains ps' where "g' = g\<lparr>deps := hinsert t ps' (deps g)\<rparr>" "b \<longleftrightarrow> ps' = []"
    "set ps' = set ps - set att - in_storage db"
proof -
  from assms obtain ids where
    ids: "foldM (\<lambda>ids p. rbind (is_attached db att p) (\<lambda>b. Inr (if b then ids @ [p] else ids))) [] ps = Inr ids"
    and g': "g' = g\<lparr>deps := hinsert t (fold removeAll ids ps) (deps g)\<rparr>" "b \<longleftrightarrow> fold removeAll ids ps = []"
    by (auto simp: remove_attached_parents_def leaving_def Let_def rbind_Inr_iff)
  have "set (fold removeAll ids ps) = set ps - set att - in_storage db"
    using attached_ids [OF ids] by (auto simp: set_fold_removeAll)
  with g' show thesis by (rule that)
qed

lemma remove_attached_parents_None:
  assumes "hget (deps g) t = None"
  shows "remove_attached_parents db t att g = Inr (True, g)"
  using assms by (simp add: remove_attached_parents_def)

section \<open>Lemmas: the invariant\<close>

lemma graph_invI:
  assumes "\<And>c. hget (deps g) c = None \<longleftrightarrow> hget (stored_txs g) c = None"
    and "\<And>c. hget (deps g) c \<noteq> Some []"
    and "\<And>c p. p \<in> waits_for g c \<Longrightarrow> c \<in> waiters g p \<or> c \<in> Q \<and> p \<in> A"
    and "\<And>c p. p \<in> waits_for g c \<Longrightarrow> p \<in> A \<Longrightarrow> c \<in> Q \<or> p \<in> X"
    and "\<And>c tx w. hget (stored_txs g) c = Some (tx, w) \<Longrightarrow>
        tx \<in> T \<and> key tx = c \<and> par tx \<subseteq> waits_for g c \<union> G \<union> A"
  shows "graph_inv key par T G X g Q A"
  using assms unfolding graph_inv_def by blast

lemma graph_invD:
  assumes "graph_inv key par T G X g Q A"
  shows "hget (deps g) c = None \<longleftrightarrow> hget (stored_txs g) c = None"
    and "hget (deps g) c \<noteq> Some []"
    and "p \<in> waits_for g c \<Longrightarrow> c \<in> waiters g p \<or> c \<in> Q \<and> p \<in> A"
    and "p \<in> waits_for g c \<Longrightarrow> p \<in> A \<Longrightarrow> c \<in> Q \<or> p \<in> X"
    and "hget (stored_txs g) c = Some (tx, w) \<Longrightarrow>
        tx \<in> T \<and> key tx = c \<and> par tx \<subseteq> waits_for g c \<union> G \<union> A"
  using assms unfolding graph_inv_def by blast+

lemma graph_inv_stored_waits:
  assumes "graph_inv key par T G X g Q A"
  shows "hget (stored_txs g) c = None \<longleftrightarrow> waits_for g c = {}"
proof (cases "hget (deps g) c")
  case None
  then show ?thesis
    using graph_invD(1) [OF assms, of c] by (simp add: waits_for_def hget_or_def)
next
  case (Some ps)
  then show ?thesis
    using graph_invD(1,2) [OF assms, of c] by (auto simp: waits_for_def hget_or_def)
qed

text \<open>Attaching an identifier: what waited for it is queued.\<close>

lemma graph_inv_wake:
  assumes "graph_inv key par T G X g Q A"
  shows "graph_inv key par T G X (g\<lparr>inverse_deps := hremove c (inverse_deps g)\<rparr>)
    (Q \<union> waiters g c) (insert c A)"
proof (rule graph_invI, goal_cases)
  case (3 d p)
  then show ?case using graph_invD(3) [OF assms, of p d] by auto
next
  case (4 d p)
  then show ?case using graph_invD(3,4) [OF assms, of p d] by auto
next
  case (5 d tx w)
  then show ?case using graph_invD(5) [OF assms, of d tx w] by auto
qed (use graph_invD(1,2) [OF assms] in simp_all)

text \<open>A transaction that waits for nobody any more is dropped from the maps.\<close>

lemma graph_inv_drop:
  assumes "graph_inv key par T G X g (insert t Q) A"
  shows "graph_inv key par T G X
    (g\<lparr>stored_txs := hremove t (stored_txs g), deps := hremove t (deps g)\<rparr>) Q A"
proof -
  have w: "waits_for (g\<lparr>stored_txs := hremove t (stored_txs g), deps := hremove t (deps g)\<rparr>) c
      = (if c = t then {} else waits_for g c)" for c
    by (simp add: waits_for_def hget_or_def)
  show ?thesis
  proof (rule graph_invI, goal_cases)
    case (3 d p)
    then show ?case using graph_invD(3) [OF assms, of p d] by (auto simp: w split: if_splits)
  next
    case (4 d p)
    then show ?case using graph_invD(4) [OF assms, of p d] by (auto simp: w split: if_splits)
  next
    case (5 d tx w)
    then show ?case using graph_invD(5) [OF assms, of d tx w] by (auto simp: w split: if_splits)
  qed (use graph_invD(1,2) [OF assms] in simp_all)
qed

text \<open>A queued transaction stops waiting for the attached ones and goes on waiting.\<close>

lemma graph_inv_filter:
  assumes i: "graph_inv key par T G X g (insert t Q) A" and "hget (deps g) t = Some ps"
    and "ps' \<noteq> []" "set ps' = set ps - A - S" "S \<subseteq> G"
  shows "graph_inv key par T G X (g\<lparr>deps := hinsert t ps' (deps g)\<rparr>) Q A"
proof -
  have w: "waits_for g t = set ps"
    using assms(2) by (simp add: waits_for_def hget_or_def)
  have s: "hget (stored_txs g) t \<noteq> None"
    using graph_invD(1) [OF i, of t] assms(2) by simp
  show ?thesis
  proof (rule graph_invI, goal_cases)
    case (1 d)
    then show ?case using graph_invD(1) [OF i, of d] s by auto
  next
    case (2 d)
    then show ?case using graph_invD(2) [OF i, of d] assms(3) by auto
  next
    case (3 d p)
    then show ?case using graph_invD(3) [OF i, of p d] w assms(4) by (auto split: if_splits)
  next
    case (4 d p)
    then show ?case using graph_invD(4) [OF i, of p d] w assms(4) by (auto split: if_splits)
  next
    case (5 d tx u)
    then show ?case using graph_invD(5) [OF i, of d tx u] w assms(4,5) by auto
  qed
qed

lemma graph_inv_unqueue:
  assumes i: "graph_inv key par T G X g (insert t Q) A" and "waits_for g t = {}"
  shows "graph_inv key par T G X g Q A"
proof (rule graph_invI, goal_cases)
  case (3 d p)
  then show ?case using graph_invD(3) [OF i, of p d] assms(2) by auto
next
  case (4 d p)
  then show ?case using graph_invD(4) [OF i, of p d] assms(2) by auto
next
  case (5 d tx w)
  then show ?case using graph_invD(5) [OF i, of d tx w] by auto
qed (use graph_invD(1,2) [OF i] in simp_all)

lemma graph_inv_mono:
  assumes i: "graph_inv key par T G X g Q A" and "T \<subseteq> T'" "G \<subseteq> G'" "X \<subseteq> X'" "Q = Q'"
  shows "graph_inv key par T' G' X' g Q' A"
proof (rule graph_invI, goal_cases)
  case (3 d p)
  then show ?case using graph_invD(3) [OF i, of p d] assms by auto
next
  case (4 d p)
  then show ?case using graph_invD(4) [OF i, of p d] assms by auto
next
  case (5 d tx w)
  then show ?case using graph_invD(5) [OF i, of d tx w] assms by auto
qed (use graph_invD(1,2) [OF i] in simp_all)

lemma graph_inv_done:
  assumes i: "graph_inv key par T G X g {} A"
  shows "wf_graph key par T (G \<union> A) g"
  unfolding wf_graph_def
proof (rule graph_invI, goal_cases)
  case (3 d p)
  then show ?case using graph_invD(3) [OF i, of p d] by auto
next
  case (5 d tx w)
  then show ?case using graph_invD(5) [OF i, of d tx w] by auto
qed (use graph_invD(1,2) [OF i] in simp_all)

lemma justified_Nil [simp]: "justified key par T G []"
  by (simp add: justified_def)

lemma justified_snoc:
  "justified key par T G (att @ [t]) \<longleftrightarrow>
    justified key par T G att \<and> (\<exists>tx \<in> T. key tx = t \<and> par tx \<subseteq> G \<union> set att)"
  by (auto simp: justified_def nth_append less_Suc_eq)

lemma queue_step_keeps:
  assumes step: "queue_step key db (g, lq, att) t = Inr (g', lq', att')"
    and i: "graph_inv key par T G X g (insert t (Q \<union> set lq)) (set att)"
    and j: "justified key par T G att" and db: "in_storage db \<subseteq> G"
  shows "graph_inv key par T G X g' (Q \<union> set lq') (set att') \<and> justified key par T G att'
    \<and> held g att \<subseteq> held g' att'"
proof (cases "hget (deps g) t")
  case None
  then have "hget (stored_txs g) t = None" "waits_for g t = {}"
    using graph_invD(1) [OF i, of t] by (simp_all add: waits_for_def hget_or_def)
  with None step graph_inv_unqueue [OF i] j show ?thesis
    by (simp add: queue_step_def remove_attached_parents_None)
next
  case (Some ps)
  then obtain tx w where tx: "hget (stored_txs g) t = Some (tx, w)"
    using graph_invD(1) [OF i, of t] by fastforce
  from step obtain b g1 where r: "remove_attached_parents db t att g = Inr (b, g1)"
    by (auto simp: queue_step_def rbind_Inr_iff)
  from remove_attached_parents_Some [OF r Some] obtain ps' where
    g1: "g1 = g\<lparr>deps := hinsert t ps' (deps g)\<rparr>" "b \<longleftrightarrow> ps' = []"
      "set ps' = set ps - set att - in_storage db" .
  show ?thesis
  proof (cases b)
    case False
    then have "g' = g1" "lq' = lq" "att' = att"
      using step r by (simp_all add: queue_step_def)
    with False graph_inv_filter [OF i Some, of ps' "in_storage db"] g1 db j show ?thesis
      by (simp add: held_def)
  next
    case True
    define g2 where "g2 = g\<lparr>stored_txs := hremove t (stored_txs g), deps := hremove t (deps g)\<rparr>"
    have deps_eq: "hremove t (hinsert t ps' (deps g)) = hremove t (deps g)"
      by (simp add: delete_update_same)
    have att': "att' = att @ [key tx]" and lq': "set lq' = set lq \<union> waiters g t"
      and g': "g' = g2\<lparr>inverse_deps := hremove t (inverse_deps g2)\<rparr>"
      using step r True tx g1(1) deps_eq
      by (auto simp: queue_step_def Let_def g2_def waiters_def hget_or_def hremove_absent
          split: option.splits)
    have tx_ok: "tx \<in> T" "key tx = t" "par tx \<subseteq> waits_for g t \<union> G \<union> set att"
      using graph_invD(5) [OF i tx] by simp_all
    have "waits_for g t \<subseteq> set att \<union> G"
      using True g1 Some db by (auto simp: waits_for_def hget_or_def)
    with tx_ok have "par tx \<subseteq> G \<union> set att" by blast
    then have "justified key par T G att'"
      using j tx_ok unfolding att' justified_snoc by blast
    moreover have "graph_inv key par T G X g' (Q \<union> set lq \<union> waiters g t) (insert t (set att))"
      using graph_inv_wake [OF graph_inv_drop [OF i], of t] by (simp add: g' g2_def)
    moreover have "held g att \<subseteq> held g' att'"
      using tx_ok by (auto simp: held_def g' g2_def att' split: if_splits)
    ultimately show ?thesis
      using tx_ok by (simp add: att' lq' Un_assoc)
  qed
qed

lemma queue_round_keeps:
  assumes "foldM (queue_step key db) (g, lq, att) q = Inr (g', lq', att')"
    and "graph_inv key par T G X g (set q \<union> set lq) (set att)"
    and "justified key par T G att" "in_storage db \<subseteq> G"
  shows "graph_inv key par T G X g' (set lq') (set att') \<and> justified key par T G att'
    \<and> held g att \<subseteq> held g' att'"
  using assms
proof (induction q arbitrary: g lq att)
  case (Cons t q)
  then obtain g1 lq1 att1 where s: "queue_step key db (g, lq, att) t = Inr (g1, lq1, att1)"
    "foldM (queue_step key db) (g1, lq1, att1) q = Inr (g', lq', att')"
    by (auto simp: rbind_Inr_iff)
  have "graph_inv key par T G X g1 (set q \<union> set lq1) (set att1) \<and> justified key par T G att1
    \<and> held g att \<subseteq> held g1 att1"
    using Cons.prems by (intro queue_step_keeps [OF s(1)]) simp_all
  then show ?case
    using Cons.IH [OF s(2)] Cons.prems(4) by (meson order_trans)
qed simp

lemma process_queue_keeps:
  assumes "process_queue key db g att q = Inr (g', att')"
    and "graph_inv key par T G X g (set q) (set att)"
    and "justified key par T G att" "in_storage db \<subseteq> G"
  shows "graph_inv key par T G X g' {} (set att') \<and> justified key par T G att'
    \<and> held g att \<subseteq> held g' att'"
  using assms
proof (induction key db g att q rule: process_queue.induct)
  case (1 key db g att q)
  show ?case
  proof (cases "q = []")
    case True
    with 1 show ?thesis by (simp add: process_queue.simps [of key db g att "[]"])
  next
    case False
    with 1(2) obtain g1 q1 att1 where s: "queue_round key db g att q = Inr (g1, q1, att1)"
      "process_queue key db g1 att1 q1 = Inr (g', att')"
      by (auto simp: process_queue.simps [of key db g att q] split: sum.splits)
    have "graph_inv key par T G X g1 (set q1) (set att1) \<and> justified key par T G att1
      \<and> held g att \<subseteq> held g1 att1"
      using 1 by (intro queue_round_keeps [OF s(1) [unfolded queue_round_def]]) simp_all
    with 1(1) [OF False s(1) refl refl s(2)] 1(5) show ?thesis
      by (meson order_trans)
  qed
qed

text \<open>Storage that answers: the loops end with a result.\<close>

lemma foldM_total:
  assumes "\<And>s x. \<exists>s'. f s x = Inr s'"
  shows "\<exists>s'. foldM f s xs = Inr s'"
  using assms by (induction xs arbitrary: s) (simp, metis foldM.simps(2) rbind_simps(2))

lemma is_attached_total: "answers db \<Longrightarrow> \<exists>b. is_attached db att p = Inr b"
  by (auto simp: is_attached_def answers_def)

lemma remove_attached_parents_total:
  assumes "answers db"
  shows "\<exists>b g'. remove_attached_parents db t att g = Inr (b, g')"
proof (cases "hget (deps g) t")
  case (Some ps)
  have "\<exists>ids. foldM (\<lambda>ids p. rbind (is_attached db att p)
      (\<lambda>b. Inr (if b then ids @ [p] else ids))) [] ps = Inr ids"
    using is_attached_total [OF assms] by (intro foldM_total) (metis rbind_simps(2))
  with Some show ?thesis
    by (auto simp: remove_attached_parents_def leaving_def Let_def)
qed (auto simp: remove_attached_parents_None)

lemma queue_step_total:
  assumes "answers db" shows "\<exists>acc'. queue_step key db acc t = Inr acc'"
proof -
  obtain g lq att where acc: "acc = (g, lq, att)" by (cases acc)
  obtain b g1 where "remove_attached_parents db t att g = Inr (b, g1)"
    using remove_attached_parents_total [OF assms] by metis
  then show ?thesis
    by (auto simp: acc queue_step_def Let_def split: option.splits)
qed

lemma process_queue_total:
  "answers db \<Longrightarrow> \<exists>g' att'. process_queue key db g att q = Inr (g', att')"
proof (induction key db g att q rule: process_queue.induct)
  case (1 key db g att q)
  obtain g1 q1 att1 where "queue_round key db g att q = Inr (g1, q1, att1)"
    using foldM_total [of "queue_step key db" "(g, [], att)" q] queue_step_total [OF 1(2)]
    unfolding queue_round_def by (metis prod_cases3)
  then show ?case
    using 1 by (cases "q = []") (simp_all add: process_queue.simps [of key db g att])
qed

lemma wf_graph_new [simp]: "wf_graph key par T G GraphBuilder_new"
  by (simp add: wf_graph_def graph_inv_def GraphBuilder_new_def waits_for_def hget_or_def)

lemma process_queue_simps [simp]:
  "process_queue key db g att [] = Inr (g, att)"
  "process_queue key db g att (t # q) =
     (case queue_round key db g att (t # q) of
        Inl g' \<Rightarrow> Inl g'
      | Inr (g', queued', attached') \<Rightarrow> process_queue key db g' attached' queued')"
  by (subst process_queue.simps, simp)+

lemmas graph_eval = attach_txs_def attach_tx_def handle_transfer_def note_parent_def transfer_parent_def
  attach_or_store_def handle_spark_exit_def queue_round_def queue_step_def remove_attached_parents_def
  is_attached_def leaving_def add_dependency_def entry_insert_def hget_or_def hset_extend_def
  handle_fully_attached_txs_def

lemmas graph_examples = GraphBuilder_new_def example_root_def example_issue_root_def
  example_exit_root_def example_child_def ltxid_def lib0_def

section \<open>The contract of a handler\<close>

text \<open>The two builders share the queue and differ in how a checked transaction is handled.
  What the handler promises: it keeps the invariant, attaches only what is justified, loses
  nothing that is held, holds the transactions it does not ignore, and returns when storage
  answers. Then the whole batch does.\<close>

locale attacher =
  fixes key :: "'t \<Rightarrow> 'i"
    and par :: "'t \<Rightarrow> 'i set"
    and ignored :: "'t \<Rightarrow> bool"
    and unqueued :: "'t \<Rightarrow> bool"
    and db :: "'i lookup"
    and handle :: "('i, 't) GraphBuilder \<times> 'i hset \<times> 'i list \<Rightarrow> 't \<Rightarrow>
      ('i, 't) GraphBuilder + (('i, 't) GraphBuilder \<times> 'i hset \<times> 'i list)"
  assumes handle_keeps:
    "handle (g, q, att) tx = Inr (g', q', att') \<Longrightarrow> tx \<in> T \<Longrightarrow> (unqueued tx \<Longrightarrow> key tx \<in> X) \<Longrightarrow>
     in_storage db \<subseteq> G \<Longrightarrow> graph_inv key par T G X g (set q) (set att) \<Longrightarrow> justified key par T G att \<Longrightarrow>
     graph_inv key par T G X g' (set q') (set att') \<and> justified key par T G att'
     \<and> held g att \<subseteq> held g' att' \<and> (ignored tx \<or> key tx \<in> held g' att')"
    and handle_total: "answers db \<Longrightarrow> \<exists>acc'. handle acc tx = Inr acc'"
begin

lemma batch_keeps:
  assumes "foldM handle (g, q, att) txs = Inr (g', q', att')" and "set txs \<subseteq> T"
    and "key ` {tx \<in> set txs. unqueued tx} \<subseteq> X" and "in_storage db \<subseteq> G"
    and "graph_inv key par T G X g (set q) (set att)" and "justified key par T G att"
  shows "graph_inv key par T G X g' (set q') (set att') \<and> justified key par T G att'
    \<and> held g att \<subseteq> held g' att' \<and> (\<forall>tx \<in> set txs. ignored tx \<or> key tx \<in> held g' att')"
  using assms
proof (induction txs arbitrary: g q att)
  case (Cons tx txs)
  then obtain g1 q1 att1 where s: "handle (g, q, att) tx = Inr (g1, q1, att1)"
    "foldM handle (g1, q1, att1) txs = Inr (g', q', att')"
    by (auto simp: rbind_Inr_iff)
  have one: "graph_inv key par T G X g1 (set q1) (set att1) \<and> justified key par T G att1
    \<and> held g att \<subseteq> held g1 att1 \<and> (ignored tx \<or> key tx \<in> held g1 att1)"
    using Cons.prems by (intro handle_keeps [OF s(1)]) auto
  have "graph_inv key par T G X g' (set q') (set att') \<and> justified key par T G att'
    \<and> held g1 att1 \<subseteq> held g' att' \<and> (\<forall>tx \<in> set txs. ignored tx \<or> key tx \<in> held g' att')"
    using Cons.prems one by (intro Cons.IH [OF s(2)]) auto
  with one show ?case by auto
qed simp

lemma attach_keeps:
  assumes "foldM handle (g, [], []) txs = Inr (g1, q, att1)"
    and "process_queue key db g1 att1 q = Inr (g', att)"
    and "wf_graph key par T G g" and "in_storage db \<subseteq> G"
  shows "justified key par (T \<union> set txs) G att"
    and "wf_graph key par (T \<union> set txs) (G \<union> set att) g'"
    and "dom (hget (stored_txs g)) \<subseteq> held g' att"
    and "tx \<in> set txs \<Longrightarrow> ignored tx \<or> key tx \<in> held g' att"
    and "c \<in> dom (hget (stored_txs g')) \<Longrightarrow> waits_for g' c \<noteq> {}"
    and "waits_for g' c \<inter> set att \<subseteq> key ` {tx \<in> set txs. unqueued tx}"
proof -
  let ?X = "key ` {tx \<in> set txs. unqueued tx}"
  have "graph_inv key par (T \<union> set txs) G ?X g (set []) (set [])"
    using graph_inv_mono [OF assms(3) [unfolded wf_graph_def], of "T \<union> set txs" G ?X "{}"] by simp
  then have b: "graph_inv key par (T \<union> set txs) G ?X g1 (set q) (set att1)
    \<and> justified key par (T \<union> set txs) G att1
    \<and> held g [] \<subseteq> held g1 att1 \<and> (\<forall>tx \<in> set txs. ignored tx \<or> key tx \<in> held g1 att1)"
    using assms(4) by (intro batch_keeps [OF assms(1)]) auto
  then have p: "graph_inv key par (T \<union> set txs) G ?X g' {} (set att)
    \<and> justified key par (T \<union> set txs) G att \<and> held g1 att1 \<subseteq> held g' att"
    using assms(4) by (intro process_queue_keeps [OF assms(2)]) auto
  have "dom (hget (stored_txs g)) \<subseteq> held g []" by (simp add: held_def)
  then show "dom (hget (stored_txs g)) \<subseteq> held g' att"
    and "tx \<in> set txs \<Longrightarrow> ignored tx \<or> key tx \<in> held g' att"
    using b p by blast+
  show "justified key par (T \<union> set txs) G att"
    and "wf_graph key par (T \<union> set txs) (G \<union> set att) g'"
    using p graph_inv_done by blast+
  from p have i: "graph_inv key par (T \<union> set txs) G ?X g' {} (set att)" by simp
  show "c \<in> dom (hget (stored_txs g')) \<Longrightarrow> waits_for g' c \<noteq> {}"
    using graph_inv_stored_waits [OF i, of c] by auto
  show "waits_for g' c \<inter> set att \<subseteq> ?X"
    using graph_invD(4) [OF i, of _ c] by blast
qed

lemma attach_total:
  assumes "answers db"
  obtains g1 q att1 g' att where "foldM handle (g, [], []) txs = Inr (g1, q, att1)"
    "process_queue key db g1 att1 q = Inr (g', att)"
proof -
  obtain g1 q att1 where 1: "foldM handle (g, [], []) txs = Inr (g1, q, att1)"
    using foldM_total [of handle "(g, [], [])" txs] handle_total [OF assms] by (metis prod_cases3)
  obtain g' att where "process_queue key db g1 att1 q = Inr (g', att)"
    using process_queue_total [OF assms] by metis
  with 1 show thesis by (rule that)
qed

end


section \<open>Lemmas: the handlers\<close>

text \<open>The effect of noting parents N of a child: it waits for them, and they know.\<close>

definition noted :: "'i \<Rightarrow> 'i set \<Rightarrow> ('i, 't) GraphBuilder \<Rightarrow> ('i, 't) GraphBuilder \<Rightarrow> bool" where
  "noted child N g g' \<longleftrightarrow>
     stored_txs g' = stored_txs g
   \<and> waits_for g' child = waits_for g child \<union> N
   \<and> (\<forall>c. c \<noteq> child \<longrightarrow> hget (deps g') c = hget (deps g) c)
   \<and> (\<forall>p. waiters g' p = waiters g p \<union> (if p \<in> N then {child} else {}))
   \<and> (hget (deps g') child = None \<longleftrightarrow> hget (deps g) child = None \<and> N = {})
   \<and> (hget (deps g) child \<noteq> Some [] \<longrightarrow> hget (deps g') child \<noteq> Some [])"

lemma noted_refl [simp]: "noted child {} g g"
  by (simp add: noted_def)

lemma noted_trans: "noted child N g g1 \<Longrightarrow> noted child M g1 g2 \<Longrightarrow> noted child (N \<union> M) g g2"
  by (auto simp: noted_def)

lemma noted_add: "noted child {p} g (add_dependency p child g)"
  by (auto simp: noted_def) (auto simp: add_dependency_def entry_insert_def List.insert_def split: if_splits)

lemma note_parent_noted:
  assumes "note_parent db att child g po = Inr g'"
  shows "noted child ({p. po = Some p} - set att - in_storage db) g g'"
proof (cases po)
  case None
  with assms show ?thesis by (simp add: note_parent_def)
next
  case (Some p)
  with assms obtain b where b: "is_attached db att p = Inr b" "g' = (if b then g else add_dependency p child g)"
    by (auto simp: note_parent_def leaving_def rbind_Inr_iff)
  show ?thesis
  proof (cases b)
    case True
    with Some is_attached_Inr [OF b(1)] have "{p. po = Some p} - set att - in_storage db = {}" by auto
    with True b(2) show ?thesis by (simp only: noted_refl if_True)
  next
    case False
    with Some is_attached_Inr [OF b(1)] have "{p. po = Some p} - set att - in_storage db = {p}" by auto
    with False b(2) noted_add show ?thesis by (simp only: if_False)
  qed
qed

lemma note_parents_noted:
  assumes "foldM (\<lambda>g x. note_parent db att child g (f x)) g xs = Inr g'"
  shows "noted child ({p. \<exists>x \<in> set xs. f x = Some p} - set att - in_storage db) g g'"
  using assms
proof (induction xs arbitrary: g)
  case (Cons x xs)
  then obtain g1 where g1: "note_parent db att child g (f x) = Inr g1"
    "foldM (\<lambda>g x. note_parent db att child g (f x)) g1 xs = Inr g'"
    by (auto simp: rbind_Inr_iff)
  have "({p. f x = Some p} - set att - in_storage db)
      \<union> ({p. \<exists>x \<in> set xs. f x = Some p} - set att - in_storage db)
      = {p. \<exists>x \<in> set (x # xs). f x = Some p} - set att - in_storage db" by auto
  with noted_trans [OF note_parent_noted [OF g1(1)] Cons.IH [OF g1(2)]] show ?case by simp
qed simp

text \<open>A child that waits for nobody is attached, and is stored otherwise.\<close>

lemma attach_or_store_keeps:
  assumes n: "noted child N g g1" and N: "N \<inter> set att = {}"
    and a: "attach_or_store now tx child q att g1 = (g', q', att')"
    and i: "graph_inv key par T G X g (set q) (set att)" and j: "justified key par T G att"
    and tx: "tx \<in> T" "key tx = child" "par tx \<subseteq> N \<union> G \<union> set att"
  shows "graph_inv key par T G X g' (set q') (set att') \<and> justified key par T G att'
    \<and> held g att \<subseteq> held g' att' \<and> child \<in> held g' att'"
proof (cases "hget (deps g1) child")
  case None
  then have "hget (deps g) child = None" "N = {}" using n by (auto simp: noted_def)
  have "hget (deps g1) c = hget (deps g) c" for c
    using n None \<open>hget (deps g) child = None\<close> by (cases "c = child") (auto simp: noted_def)
  then have "hget (deps g1) = hget (deps g)" by blast
  then have same: "waits_for g1 = waits_for g" "waiters g1 = waiters g" "stored_txs g1 = stored_txs g"
    using n \<open>N = {}\<close> by (auto simp: noted_def waits_for_def hget_or_def fun_eq_iff)
  have i1: "graph_inv key par T G X g1 (set q) (set att)"
    using i unfolding graph_inv_def same \<open>hget (deps g1) = hget (deps g)\<close> .
  have "hremove child (hinsert child [] (deps g1)) = deps g1"
    using None by (simp add: delete_update_same hremove_absent)
  then have r: "g' = g1\<lparr>inverse_deps := hremove child (inverse_deps g1)\<rparr>"
    "set q' = set q \<union> waiters g1 child" "att' = att @ [child]"
    using a None by (auto simp: attach_or_store_def Let_def hget_or_def waiters_def hremove_absent
        split: option.splits)
  have "justified key par T G att'"
    unfolding r justified_snoc using j tx \<open>N = {}\<close> by auto
  with graph_inv_wake [OF i1, of child] r same show ?thesis
    by (auto simp: held_def)
next
  case (Some ds)
  then have ds: "ds \<noteq> []" "waits_for g1 child = set ds"
    using n graph_invD(2) [OF i, of child] by (auto simp: noted_def waits_for_def hget_or_def)
  have r: "g' = g1\<lparr>stored_txs := hinsert child (tx, now) (stored_txs g1)\<rparr>" "q' = q" "att' = att"
    using a Some ds hinsert_same [OF Some] by (auto simp: attach_or_store_def Let_def hget_or_def)
  have w: "waits_for g1 child = waits_for g child \<union> N" using n by (simp add: noted_def)
  have w': "waits_for g1 c = waits_for g c" if "c \<noteq> child" for c
    using n that by (simp add: noted_def waits_for_def hget_or_def)
  have k: "waiters g1 p = waiters g p \<union> (if p \<in> N then {child} else {})" for p
    using n by (simp add: noted_def)
  have "graph_inv key par T G X g' (set q) (set att)"
  proof (rule graph_invI, goal_cases)
    case (1 c)
    then show ?case using graph_invD(1) [OF i, of c] n Some r by (auto simp: noted_def)
  next
    case (2 c)
    then show ?case using graph_invD(2) [OF i, of c] n Some ds r by (cases "c = child") (auto simp: noted_def)
  next
    case (3 c p)
    then show ?case
      using graph_invD(3) [OF i, of p c] r w w' k by (cases "c = child") auto
  next
    case (4 c p)
    then show ?case
      using graph_invD(4) [OF i, of p c] r w w' N by (cases "c = child") auto
  next
    case (5 c tx' v)
    then show ?case
      using graph_invD(5) [OF i, of c tx' v] r w w' n tx by (cases "c = child") (auto simp: noted_def)
  qed
  moreover have "dom (hget (stored_txs g')) = insert child (dom (hget (stored_txs g)))"
    using n r by (auto simp: noted_def split: if_splits)
  ultimately show ?thesis using j r by (auto simp: held_def)
qed


lemma handle_transfer_keeps:
  assumes h: "handle_transfer db now ips tx child q att g = Inr (g', q', att')"
    and tx: "tx \<in> T" "ltxid L tx = child" "tx_type tx = Transfer ips ops"
    and db: "in_storage db \<subseteq> G"
    and i: "graph_inv (ltxid L) parents T G X g (set q) (set att)"
    and j: "justified (ltxid L) parents T G att"
  shows "graph_inv (ltxid L) parents T G X g' (set q') (set att') \<and> justified (ltxid L) parents T G att'
    \<and> held g att \<subseteq> held g' att' \<and> child \<in> held g' att'"
proof -
  from h obtain g1 where
    g1: "foldM (\<lambda>g ip. note_parent db att child g (transfer_parent tx ip)) g ips = Inr g1"
    and a: "attach_or_store now tx child q att g1 = (g', q', att')"
    by (auto simp: handle_transfer_def rbind_Inr_iff)
  have "parents tx = {p. \<exists>ip \<in> set ips. transfer_parent tx ip = Some p}"
    using tx by (simp add: parents_def)
  then show ?thesis
    using db by (intro attach_or_store_keeps [OF note_parents_noted [OF g1] _ a i j tx(1,2)]) auto
qed

lemma attach_id_keeps:
  assumes i: "graph_inv key par T G X g (set q) (set att)" and j: "justified key par T G att"
    and "tx \<in> T" "key tx = child" "par tx = {}"
  shows "graph_inv key par T G X (g\<lparr>inverse_deps := hremove child (inverse_deps g)\<rparr>)
      (set (hset_extend q (hget_or (inverse_deps g) child []))) (set (att @ [child]))
    \<and> justified key par T G (att @ [child])
    \<and> held g att \<subseteq> held (g\<lparr>inverse_deps := hremove child (inverse_deps g)\<rparr>) (att @ [child])"
proof -
  have "justified key par T G (att @ [child])"
    unfolding justified_snoc using j assms(3-5) by auto
  moreover have "waiters g child = set (hget_or (inverse_deps g) child [])"
    by (simp add: waiters_def)
  ultimately show ?thesis
    using graph_inv_wake [OF i, of child] by (auto simp: held_def)
qed

text \<open>A Spark exit is attached without waking those who wait for it.\<close>

lemma graph_inv_exit:
  assumes i: "graph_inv key par T G X g Q A" and "child \<in> X"
  shows "graph_inv key par T G X g Q (insert child A)"
proof (rule graph_invI, goal_cases)
  case (3 d p)
  then show ?case using graph_invD(3) [OF i, of p d] by auto
next
  case (4 d p)
  then show ?case using graph_invD(4) [OF i, of p d] assms(2) by auto
next
  case (5 d tx w)
  then show ?case using graph_invD(5) [OF i, of d tx w] by auto
qed (use graph_invD(1,2) [OF i] in simp_all)

definition is_announcement_tx :: "Lrc20Transaction \<Rightarrow> bool" where
  "is_announcement_tx tx = (case tx_type tx of AnnouncementTx _ \<Rightarrow> True | _ \<Rightarrow> False)"

lemma attach_tx_keeps:
  assumes h: "attach_tx L db now (g, q, att) tx = Inr (g', q', att')"
    and tx: "tx \<in> T" "is_spark_exit tx \<Longrightarrow> ltxid L tx \<in> X" and db: "in_storage db \<subseteq> G"
    and i: "graph_inv (ltxid L) parents T G X g (set q) (set att)"
    and j: "justified (ltxid L) parents T G att"
  shows "graph_inv (ltxid L) parents T G X g' (set q') (set att') \<and> justified (ltxid L) parents T G att'
    \<and> held g att \<subseteq> held g' att' \<and> (is_announcement_tx tx \<or> ltxid L tx \<in> held g' att')"
proof (cases "tx_type tx")
  case (Issue ps a)
  then have "g' = g\<lparr>inverse_deps := hremove (ltxid L tx) (inverse_deps g)\<rparr>"
    "q' = hset_extend q (hget_or (inverse_deps g) (ltxid L tx) [])" "att' = att @ [ltxid L tx]"
    using h by (auto simp: attach_tx_def Let_def hget_or_def hremove_absent hset_extend_def split: option.splits)
  then show ?thesis
    using attach_id_keeps [OF i j tx(1), of "ltxid L tx"] Issue by (auto simp: parents_def held_def)
next
  case (Transfer ips ops)
  then show ?thesis
    using handle_transfer_keeps [OF _ tx(1) refl _ db i j, of now ips g' q' att' ops] h
    by (auto simp: attach_tx_def Let_def)
next
  case (AnnouncementTx a)
  then show ?thesis
    using h i j by (auto simp: attach_tx_def is_announcement_tx_def)
next
  case (SparkExitTx ps)
  then have r: "g' = g" "q' = q" "att' = att @ [ltxid L tx]"
    using h by (auto simp: attach_tx_def Let_def handle_spark_exit_def)
  have "justified (ltxid L) parents T G att'"
    unfolding r justified_snoc using j tx(1) SparkExitTx by (auto simp: parents_def intro!: bexI [of _ tx])
  then show ?thesis
    using graph_inv_exit [OF i, of "ltxid L tx"] tx(2) SparkExitTx r
    by (auto simp: held_def is_spark_exit_def)
qed

lemma attach_tx_total:
  assumes "answers db" shows "\<exists>acc'. attach_tx L db now acc tx = Inr acc'"
proof -
  obtain g q att where acc: "acc = (g, q, att)" by (cases acc)
  have "\<exists>g'. note_parent db att child g po = Inr g'" for child and g :: "(txid, Lrc20Transaction) GraphBuilder" and po
  proof (cases po)
    case (Some p)
    obtain b where "is_attached db att p = Inr b"
      using is_attached_total [OF assms] by blast
    with Some show ?thesis by (simp add: note_parent_def leaving_def)
  qed (simp add: note_parent_def)
  then have walk: "\<exists>g'. foldM (\<lambda>g ip. note_parent db att child g (transfer_parent tx ip)) g ips = Inr g'" for child ips
    by (intro foldM_total) blast
  have "\<exists>r. handle_transfer db now ips tx child q att g = Inr r" for ips child
  proof -
    obtain g' where "foldM (\<lambda>g ip. note_parent db att child g (transfer_parent tx ip)) g ips = Inr g'"
      using walk by blast
    then show ?thesis by (simp add: handle_transfer_def del: split_paired_Ex)
  qed
  then show ?thesis
    by (cases "tx_type tx") (auto simp: acc attach_tx_def Let_def handle_spark_exit_def split: option.splits)
qed

interpretation lrc20_attacher: attacher "ltxid L" parents is_announcement_tx is_spark_exit db
    "attach_tx L db now" for L db now
proof (unfold_locales, goal_cases)
  case 1
  then show ?case by (rule attach_tx_keeps) simp_all
next
  case 2
  then show ?case by (rule attach_tx_total)
qed


section \<open>Properties: attaching\<close>



text \<open>C4. Completeness of the graph builder. When storage answers, a batch is handled to the
  end, and nothing is lost: every transaction of the batch that is not an announcement and
  every one stored before is attached or stored; and every stored one still waits for
  somebody, and for nobody that was attached by the call except Spark exits.\<close>

theorem attach_txs_complete:
  assumes "answers db" and "wf_graph (ltxid L) parents T G g" and "in_storage db \<subseteq> G"
  shows "\<exists>g' att. attach_txs L db now txs g = Inr (g', handle_fully_attached_txs att)
    \<and> (\<forall>tx \<in> set txs. is_announcement_tx tx \<or> ltxid L tx \<in> held g' att)
    \<and> dom (hget (stored_txs g)) \<subseteq> held g' att
    \<and> (\<forall>c \<in> dom (hget (stored_txs g')). waits_for g' c \<noteq> {}
         \<and> waits_for g' c \<inter> set att \<subseteq> ltxid L ` {tx \<in> set txs. is_spark_exit tx})"
proof -
  obtain g1 q att1 g' att where
    r: "foldM (attach_tx L db now) (g, [], []) txs = Inr (g1, q, att1)"
      "process_queue (ltxid L) db g1 att1 q = Inr (g', att)"
    using lrc20_attacher.attach_total [OF assms(1)] .
  then have "attach_txs L db now txs g = Inr (g', handle_fully_attached_txs att)"
    by (simp add: attach_txs_def)
  then show ?thesis
    using lrc20_attacher.attach_keeps(3-6) [OF r assms(2,3)] by blast
qed


theorem attach_txs_complete_witness:
  "\<exists>g' att. attach_txs lib0 (\<lambda>_. Inr False) 0 [example_child] GraphBuilder_new
      = Inr (g', handle_fully_attached_txs att) \<and> 131073 \<in> held g' att"
proof -
  have "ltxid lib0 example_child = 131073" "\<not> is_announcement_tx example_child"
    by (simp_all add: graph_examples is_announcement_tx_def)
  moreover have "answers ((\<lambda>_. Inr False) :: txid lookup)" "in_storage ((\<lambda>_. Inr False) :: txid lookup) \<subseteq> {}"
    by (auto simp: answers_def in_storage_def)
  ultimately show ?thesis
    using attach_txs_complete [of "\<lambda>_. Inr False" lib0 "{}" "{}" GraphBuilder_new 0 "[example_child]"]
      wf_graph_new by auto
qed


section \<open>Lemmas: cleaning up\<close>

text \<open>The transactions that wait for \<open>t\<close>, directly or through others.\<close>

definition descendants :: "('i, 't) GraphBuilder \<Rightarrow> 'i \<Rightarrow> 'i set" where
  "descendants g t = {c. (t, c) \<in> {(p, c). c \<in> waiters g p}\<^sup>*}"

lemma descendants_self [simp]: "t \<in> descendants g t"
  by (simp add: descendants_def)

lemma descendants_step: "p \<in> descendants g t \<Longrightarrow> c \<in> waiters g p \<Longrightarrow> c \<in> descendants g t"
  unfolding descendants_def by (auto intro: rtrancl_into_rtrancl)

lemma descendants_least:
  assumes "t \<in> R" and "\<And>p c. p \<in> R \<Longrightarrow> c \<in> waiters g p \<Longrightarrow> c \<in> R"
  shows "descendants g t \<subseteq> R"
proof
  fix c assume "c \<in> descendants g t"
  then have "(t, c) \<in> {(p, c). c \<in> waiters g p}\<^sup>*" by (simp add: descendants_def)
  then show "c \<in> R" by (induction rule: rtrancl_induct) (use assms in auto)
qed

lemma forget_deps_waiters:
  "set (hget_or (fst (foldl (forget_dep t) (im, xs) ds)) p []) =
    set (hget_or im p []) - (if p \<in> set ds then {t} else {})"
proof (induction ds arbitrary: im xs)
  case (Cons d ds)
  obtain im' xs' where s: "forget_dep t (im, xs) d = (im', xs')" by fastforce
  have gone: "set l \<subseteq> {t}" if "removeAll t l = []" for l :: "'a list"
    using that by (metis Diff_eq_empty_iff empty_set set_removeAll)
  have "set (hget_or im' p []) = set (hget_or im p []) - (if p = d then {t} else {})"
    using s gone by (auto simp: forget_dep_def hget_or_def split: option.splits if_splits)
  with Cons [of im' xs'] s show ?case by auto
qed simp

lemma push_unseen_sets:
  assumes "foldl push_unseen (work, seen) ids = (work', seen')"
  shows "set seen' = set seen \<union> set ids" and "set work' = set work \<union> (set ids - set seen)"
    and "distinct work \<Longrightarrow> set work \<subseteq> set seen \<Longrightarrow> distinct work'"
  using assms
proof (induction ids arbitrary: work seen)
  case (Cons d ids)
  {
    case 1
    then show ?case using Cons(1) [of work seen] Cons(1) [of "work @ [d]" "List.insert d seen"]
      by (auto simp: push_unseen_simps split: if_splits)
  next
    case 2
    then show ?case using Cons(2) [of work seen] Cons(2) [of "work @ [d]" "List.insert d seen"]
      by (auto simp: push_unseen_simps split: if_splits)
  next
    case 3
    then show ?case using Cons(3) [of work seen] Cons(3) [of "work @ [d]" "List.insert d seen"]
      by (auto simp: push_unseen_simps split: if_splits)
  }
qed simp_all

text \<open>The invariant of the loop: the seen identifiers that are no longer in the work list
  have been removed, and everything registered with one of them has been seen.\<close>

definition removing ::
  "'i \<Rightarrow> ('i, 't) GraphBuilder \<Rightarrow> 'i list \<Rightarrow> 'i hset \<Rightarrow> ('i, 't) GraphBuilder \<Rightarrow> bool" where
  "removing t0 g work seen h \<longleftrightarrow> (let R = set seen - set work in
     distinct work \<and> set work \<subseteq> set seen \<and> t0 \<in> set seen \<and> set seen \<subseteq> descendants g t0
   \<and> (\<forall>p \<in> R. waiters g p \<subseteq> set seen)
   \<and> (\<forall>c. hget (stored_txs h) c = (if c \<in> R then None else hget (stored_txs g) c))
   \<and> (\<forall>c. hget (deps h) c = (if c \<in> R then None else hget (deps g) c))
   \<and> (\<forall>p. waiters h p \<subseteq> waiters g p) \<and> (\<forall>p. p \<notin> R \<longrightarrow> waiters g p - R \<subseteq> waiters h p))"

lemma remove_step_state:
  assumes "remove_step delete t work seen h = Inr (h', work', seen')"
  shows "stored_txs h' = hremove t (stored_txs h)" and "deps h' = hremove t (deps h)"
    and "waiters h' p = (if p = t then {} else waiters h p - (if p \<in> waits_for h t then {t} else {}))"
    and "\<exists>ids. set ids = waiters h t - (if t \<in> waits_for h t then {t} else {})
      \<and> foldl push_unseen (work, seen) ids = (work', seen')"
proof -
  define im where "im = fst (foldl (forget_dep t) (inverse_deps h, [t]) (hget_or (deps h) t []))"
  have im: "set (hget_or im p []) = waiters h p - (if p \<in> waits_for h t then {t} else {})" for p
    by (simp add: im_def forget_deps_waiters waiters_def waits_for_def)
  from assms obtain g1 x where "remove_tx_from_deps delete t (h\<lparr>stored_txs := hremove t (stored_txs h)\<rparr>) = Inr (g1, x)"
    by (auto simp: remove_step_def rbind_Inr_iff)
  moreover from this have g1: "g1 = h\<lparr>stored_txs := hremove t (stored_txs h), deps := hremove t (deps h), inverse_deps := im\<rparr>"
    by (auto simp: remove_tx_from_deps_def leaving_def rbind_Inr_iff im_def Let_def split: prod.splits)
  ultimately have r: "h' = g1\<lparr>inverse_deps := hremove t im\<rparr>"
    "foldl push_unseen (work, seen) (hget_or im t []) = (work', seen')"
    using assms by (auto simp: remove_step_def hget_or_def hremove_absent split: option.splits prod.splits)
  show "stored_txs h' = hremove t (stored_txs h)" "deps h' = hremove t (deps h)"
    using r g1 by simp_all
  have "waiters h' p = (if p = t then {} else set (hget_or im p []))" for p
    using r g1 by (simp add: waiters_def hget_or_def)
  with im show "waiters h' p = (if p = t then {} else waiters h p - (if p \<in> waits_for h t then {t} else {}))"
    by simp
  show "\<exists>ids. set ids = waiters h t - (if t \<in> waits_for h t then {t} else {})
      \<and> foldl push_unseen (work, seen) ids = (work', seen')"
    using r(2) im [of t] by blast
qed

lemma removing_step:
  assumes inv: "removing t0 g (t # work) seen h"
    and step: "remove_step delete t work seen h = Inr (h', work', seen')"
  shows "removing t0 g work' seen' h'"
proof -
  note st = remove_step_state [OF step]
  obtain ids where ids: "set ids = waiters h t - (if t \<in> waits_for h t then {t} else {})"
    "foldl push_unseen (work, seen) ids = (work', seen')"
    using st(4) by blast
  note pu = push_unseen_sets [OF ids(2)]
  have t: "t \<in> set seen" "t \<notin> set work" "distinct work" "set work \<subseteq> set seen"
    using inv by (auto simp: removing_def Let_def)
  define R where "R = set seen - set (t # work)"
  have R': "set seen' - set work' = insert t R"
    using pu(1,2) t by (auto simp: R_def)
  have wt: "waiters g t - R \<subseteq> waiters h t" "\<And>p. waiters h p \<subseteq> waiters g p"
    "\<And>p. p \<notin> R \<Longrightarrow> waiters g p - R \<subseteq> waiters h p" "\<And>p. p \<in> R \<Longrightarrow> waiters g p \<subseteq> set seen"
    using inv by (auto simp: removing_def Let_def R_def)
  have "waiters g t \<subseteq> set seen'"
    using wt(1) ids(1) pu(1) t(1) by (auto simp: R_def split: if_splits)
  moreover have "set seen' \<subseteq> descendants g t0"
  proof -
    have "set seen \<subseteq> descendants g t0" using inv by (simp add: removing_def Let_def)
    moreover have "set ids \<subseteq> waiters g t" using ids(1) wt(2) [of t] by auto
    ultimately show ?thesis using pu(1) t(1) descendants_step [of t g t0] by blast
  qed
  moreover have "distinct work'" "set work' \<subseteq> set seen'" "t0 \<in> set seen'"
    using inv pu t by (auto simp: removing_def Let_def)
  moreover have "hget (stored_txs h') c = (if c \<in> insert t R then None else hget (stored_txs g) c)"
    "hget (deps h') c = (if c \<in> insert t R then None else hget (deps g) c)" for c
    using inv st(1,2) by (auto simp: removing_def Let_def R_def)
  moreover have "waiters h' p \<subseteq> waiters g p" for p
    using wt(2) [of p] st(3) [of p] by auto
  moreover have "waiters g p - insert t R \<subseteq> waiters h' p" if "p \<notin> insert t R" for p
    using wt(3) [of p] st(3) [of p] that by auto
  moreover have "waiters g p \<subseteq> set seen'" if "p \<in> R" for p
    using wt(4) [OF that] pu(1) by auto
  ultimately show ?thesis
    unfolding removing_def R' Let_def by blast
qed

lemma removing_loop:
  assumes "remove_loop delete work seen h = Inr h'" and "removing t0 g work seen h"
  shows "\<exists>seen'. removing t0 g [] seen' h'"
  using assms
proof (induction delete work seen h rule: remove_loop.induct)
  case (2 delete t work seen h)
  then obtain h1 work1 seen1 where s: "remove_step delete t work seen h = Inr (h1, work1, seen1)"
    "remove_loop delete work1 seen1 h1 = Inr h'"
    by (auto split: sum.splits)
  show ?case
    using "2.IH" [OF s(1) refl refl s(2) removing_step [OF "2.prems"(2) s(1)]] .
qed auto

lemma remove_outdated_tx_effect:
  assumes "remove_outdated_tx delete t g = Inr g'"
  shows "hget (stored_txs g') c = (if c \<in> descendants g t then None else hget (stored_txs g) c)"
    and "hget (deps g') c = (if c \<in> descendants g t then None else hget (deps g) c)"
    and "waiters g' p \<subseteq> waiters g p"
    and "p \<notin> descendants g t \<Longrightarrow> waiters g p - descendants g t \<subseteq> waiters g' p"
proof -
  have "removing t g [t] [t] g" by (simp add: removing_def)
  then obtain seen where r: "removing t g [] seen g'"
    using removing_loop [OF assms [unfolded remove_outdated_tx_def]] by blast
  have "descendants g t \<subseteq> set seen"
    using r by (intro descendants_least) (auto simp: removing_def Let_def)
  then have "set seen = descendants g t" using r by (auto simp: removing_def Let_def)
  then show "hget (stored_txs g') c = (if c \<in> descendants g t then None else hget (stored_txs g) c)"
    and "hget (deps g') c = (if c \<in> descendants g t then None else hget (deps g) c)"
    and "waiters g' p \<subseteq> waiters g p"
    and "p \<notin> descendants g t \<Longrightarrow> waiters g p - descendants g t \<subseteq> waiters g' p"
    using r by (simp_all add: removing_def Let_def)
qed

lemma remove_outdated_tx_wf:
  assumes "remove_outdated_tx delete t g = Inr g'" and i: "wf_graph key par T G g"
  shows "wf_graph key par T G g'"
proof -
  note e = remove_outdated_tx_effect [OF assms(1)]
  note i = i [unfolded wf_graph_def]
  have w: "waits_for g' c = (if c \<in> descendants g t then {} else waits_for g c)" for c
    by (simp add: waits_for_def hget_or_def e(2))
  show ?thesis
    unfolding wf_graph_def
  proof (rule graph_invI, goal_cases)
    case (3 c p)
    then have c: "c \<notin> descendants g t" "p \<in> waits_for g c" by (auto simp: w split: if_splits)
    then have "c \<in> waiters g p" using graph_invD(3) [OF i, of p c] by simp
    with c have "p \<notin> descendants g t" using descendants_step by metis
    with e(4) [of p] c \<open>c \<in> waiters g p\<close> show ?case by auto
  next
    case (5 c tx v)
    then show ?case using graph_invD(5) [OF i, of c tx v] by (auto simp: e(1) w split: if_splits)
  qed (use graph_invD(1,2) [OF i] in \<open>auto simp: e(1,2)\<close>)
qed


lemma descendants_after_removal:
  assumes "remove_outdated_tx delete t g = Inr g'"
  shows "descendants g t \<union> descendants g' u = descendants g t \<union> descendants g u"
proof -
  note e = remove_outdated_tx_effect [OF assms]
  have "descendants g' u \<subseteq> descendants g u"
    using e(3) descendants_step [of _ g u] by (intro descendants_least) auto
  moreover have "descendants g u \<subseteq> descendants g t \<union> descendants g' u"
  proof (rule descendants_least)
    fix p c assume "p \<in> descendants g t \<union> descendants g' u" "c \<in> waiters g p"
    then show "c \<in> descendants g t \<union> descendants g' u"
      using e(4) [of p] descendants_step [of p g t c] descendants_step [of p g' u c] by blast
  qed simp
  ultimately show ?thesis by blast
qed

lemma remove_outdated_txs_effect:
  assumes "foldM (\<lambda>g t. remove_outdated_tx delete t g) g ids = Inr g'" and "wf_graph key par T G g"
  shows "wf_graph key par T G g' \<and> (\<forall>c. hget (stored_txs g') c =
    (if c \<in> (\<Union>t \<in> set ids. descendants g t) then None else hget (stored_txs g) c))"
  using assms
proof (induction ids arbitrary: g)
  case (Cons t ids)
  then obtain g1 where g1: "remove_outdated_tx delete t g = Inr g1"
    "foldM (\<lambda>g t. remove_outdated_tx delete t g) g1 ids = Inr g'"
    by (auto simp: rbind_Inr_iff)
  have d: "c \<in> (\<Union>u \<in> set (t # ids). descendants g u) \<longleftrightarrow>
      c \<in> descendants g t \<or> c \<in> (\<Union>u \<in> set ids. descendants g1 u)" for c
  proof -
    have "c \<in> descendants g t \<or> c \<in> descendants g1 u \<longleftrightarrow> c \<in> descendants g t \<or> c \<in> descendants g u" for u
      using descendants_after_removal [OF g1(1), of u] by (metis Un_iff)
    then show ?thesis by auto
  qed
  have IH: "wf_graph key par T G g'" "hget (stored_txs g') c =
      (if c \<in> (\<Union>u \<in> set ids. descendants g1 u) then None else hget (stored_txs g1) c)" for c
    using Cons.IH [OF g1(2) remove_outdated_tx_wf [OF g1(1) Cons.prems(2)]] by simp_all
  show ?case
    unfolding d IH(2) remove_outdated_tx_effect(1) [OF g1(1)] using IH(1) by simp
qed simp

definition deletes :: "('i list \<Rightarrow> unit + unit) \<Rightarrow> bool" where
  "deletes delete \<longleftrightarrow> (\<forall>ids. delete ids = Inr ())"

lemma remove_loop_total:
  assumes "deletes delete"
  shows "\<exists>g'. remove_loop delete work seen g = Inr g'"
  using assms
proof (induction delete work seen g rule: remove_loop.induct)
  case (2 delete t work seen g)
  obtain h x where "remove_tx_from_deps delete t (g\<lparr>stored_txs := hremove t (stored_txs g)\<rparr>) = Inr (h, x)"
    using 2(2) by (cases "foldl (forget_dep t) (inverse_deps g, [t]) (hget_or (deps g) t [])")
      (auto simp: deletes_def remove_tx_from_deps_def leaving_def Let_def)
  then obtain r where "remove_step delete t work seen g = Inr r"
    by (cases "hget (inverse_deps h) t") (simp_all add: remove_step_def Let_def case_prod_beta)
  with "2.IH" [OF this] "2.prems" show ?case by (cases r) simp
qed simp

lemma outdated_txs_Inr:
  assumes "\<And>t tx w. (t, tx, w) \<in> set m \<Longrightarrow> w \<le> now"
  shows "\<exists>ids. outdated_txs now dur m = Inr ids
    \<and> set ids = {t. \<exists>tx w. (t, tx, w) \<in> set m \<and> dur < now - w}"
proof -
  have "\<exists>ids. foldM (\<lambda>ids (t, _, created_at).
       if now < created_at then Inl ()
       else Inr (if dur < now - created_at then ids @ [t] else ids)) acc m = Inr ids
    \<and> set ids = set acc \<union> {t. \<exists>tx w. (t, tx, w) \<in> set m \<and> dur < now - w}" for acc
    using assms
  proof (induction m arbitrary: acc)
    case (Cons x m)
    obtain t tx w where x: "x = (t, tx, w)" by (cases x)
    let ?acc = "if dur < now - w then acc @ [t] else acc"
    have "\<not> now < w" using Cons.prems x by (auto simp: not_less)
    moreover obtain ids where "foldM (\<lambda>ids (t, _, created_at).
         if now < created_at then Inl ()
         else Inr (if dur < now - created_at then ids @ [t] else ids)) ?acc m = Inr ids"
      "set ids = set ?acc \<union> {t. \<exists>tx w. (t, tx, w) \<in> set m \<and> dur < now - w}"
      using Cons.IH [of ?acc] Cons.prems by auto
    moreover have "set ?acc \<union> {t. \<exists>tx w. (t, tx, w) \<in> set m \<and> dur < now - w}
        = set acc \<union> {t. \<exists>tx w. (t, tx, w) \<in> set (x # m) \<and> dur < now - w}"
      using x by auto
    ultimately show ?case using x by simp
  qed auto
  from this [of "[]"] show ?thesis by (simp add: outdated_txs_def)
qed

text \<open>C9. Cleaning up. When storage deletes and the clock has not gone backwards, a cleanup
  ends, removes exactly the stored transactions that are too old and those that wait for one
  of them directly or through others, and leaves a well-formed graph.\<close>

theorem handle_cleanup_removes:
  assumes "wf_graph key par T G g" and "deletes delete"
    and "\<And>t tx w. (t, tx, w) \<in> set (stored_txs g) \<Longrightarrow> w \<le> now"
  shows "\<exists>g'. handle_cleanup delete now dur g = Inr g' \<and> wf_graph key par T G g'
    \<and> (\<forall>c. hget (stored_txs g') c =
         (if \<exists>t tx w. (t, tx, w) \<in> set (stored_txs g) \<and> dur < now - w \<and> c \<in> descendants g t
          then None else hget (stored_txs g) c))"
proof -
  obtain ids where ids: "outdated_txs now dur (stored_txs g) = Inr ids"
    "set ids = {t. \<exists>tx w. (t, tx, w) \<in> set (stored_txs g) \<and> dur < now - w}"
    using outdated_txs_Inr [of "stored_txs g" now dur] assms(3) by blast
  obtain g' where g': "foldM (\<lambda>g t. remove_outdated_tx delete t g) g ids = Inr g'"
    using foldM_total [of "\<lambda>g t. remove_outdated_tx delete t g" g ids] remove_loop_total [OF assms(2)]
    unfolding remove_outdated_tx_def by blast
  have "handle_cleanup delete now dur g = Inr g'"
    using ids(1) g' by (simp add: handle_cleanup_def leaving_def)
  moreover have "c \<in> (\<Union>t \<in> set ids. descendants g t) \<longleftrightarrow>
      (\<exists>t tx w. (t, tx, w) \<in> set (stored_txs g) \<and> dur < now - w \<and> c \<in> descendants g t)" for c
    unfolding ids(2) by auto
  ultimately show ?thesis
    using remove_outdated_txs_effect [OF g' assms(1)] by auto
qed

definition example_waiting :: "(txid, Lrc20Transaction) GraphBuilder" where
  "example_waiting = \<lparr>inverse_deps = [(65536, [131073])], deps = [(131073, [65536])],
     stored_txs = [(131073, (example_child, 0))]\<rparr>"

lemma wf_example_waiting: "wf_graph (ltxid lib0) parents {example_child} {} example_waiting"
  by (auto simp: wf_graph_def graph_inv_def example_waiting_def waits_for_def waiters_def hget_or_def
      parents_def transfer_parent_def graph_examples)

theorem handle_cleanup_removes_witness:
  "\<exists>g'. handle_cleanup (\<lambda>_. Inr ()) 20 10 example_waiting = Inr g' \<and> hget (stored_txs g') 131073 = None"
  using handle_cleanup_removes [OF wf_example_waiting, of "\<lambda>_. Inr ()" 20 10]
  by (auto simp: deletes_def example_waiting_def)

lemma forget_deps_deleted:
  assumes "\<And>d. d \<in> set ds \<Longrightarrow> hget im d \<noteq> None"
  shows "set (snd (foldl (forget_dep t) (im, xs) ds)) = set xs \<union> set ds"
proof -
  have "set (snd (foldl (forget_dep t) (im, xs) ds)) = set xs \<union> set ds"
    if "\<And>d. d \<in> set ds \<Longrightarrow> d \<in> set xs \<or> hget im d \<noteq> None" for ds
    using that
  proof (induction ds arbitrary: im xs)
    case (Cons d ds)
    obtain im' xs' where s: "forget_dep t (im, xs) d = (im', xs')" by fastforce
    then have xs': "set xs' = insert d (set xs)"
      and im': "\<And>e. hget im' e = None \<Longrightarrow> e = d \<or> hget im e = None"
      using Cons.prems [of d] by (auto simp: forget_dep_def split: option.splits if_splits)
    have "set (snd (foldl (forget_dep t) (im', xs') ds)) = set xs' \<union> set ds"
    proof (rule Cons.IH)
      fix e assume "e \<in> set ds"
      then show "e \<in> set xs' \<or> hget im' e \<noteq> None"
        using Cons.prems [of e] xs' im' [of e] by (cases "e = d") auto
    qed
    with s xs' show ?case by simp
  qed simp
  then show ?thesis using assms by blast
qed

text \<open>C27. Removing an outdated transaction deletes from storage the transaction itself and
  every transaction it still waits for, whether or not that one is outdated: a Spark exit that
  was attached and stored while a transfer waited for it is deleted together with the
  transfer.\<close>

theorem cleanup_deletes_parents:
  assumes "wf_graph key par T G g" and "remove_tx_from_deps delete t g = Inr (g', ids)"
  shows "set ids = insert t (waits_for g t)"
proof -
  have "hget (inverse_deps g) p \<noteq> None" if "p \<in> waits_for g t" for p
    using graph_invD(3) [OF assms(1) [unfolded wf_graph_def] that]
    by (cases "hget (inverse_deps g) p") (simp_all add: waiters_def hget_or_def)
  then have "set (snd (foldl (forget_dep t) (inverse_deps g, [t]) (hget_or (deps g) t []))) =
      set [t] \<union> set (hget_or (deps g) t [])"
    by (intro forget_deps_deleted) (simp add: waits_for_def)
  moreover have "ids = snd (foldl (forget_dep t) (inverse_deps g, [t]) (hget_or (deps g) t []))"
    using assms(2) by (auto simp: remove_tx_from_deps_def leaving_def rbind_Inr_iff Let_def split: prod.splits)
  ultimately show ?thesis by (simp add: waits_for_def)
qed

theorem cleanup_deletes_parents_witness:
  "\<exists>g' ids. remove_tx_from_deps (\<lambda>_. Inr ()) 131073 example_waiting = Inr (g', ids) \<and> set ids = {131073, 65536}"
proof -
  have w: "waits_for example_waiting 131073 = {65536}"
    by (simp add: example_waiting_def waits_for_def hget_or_def)
  obtain g' ids where r: "remove_tx_from_deps (\<lambda>_. Inr ()) 131073 example_waiting = Inr (g', ids)"
    by (simp add: example_waiting_def remove_tx_from_deps_def forget_dep_def leaving_def hget_or_def)
  with cleanup_deletes_parents [OF wf_example_waiting r] w show ?thesis by simp
qed

end
