(* ===== verification/Spark.thy ===== *)
theory Spark
  imports Transactions
begin

text \<open>
  Spark token transactions (crates/types/src/spark): their data, the hashes that
  identify and sign them, and the verification of operator-specific signatures.
\<close>

section \<open>Data\<close>

type_synonym SparkHash = hash256

datatype SparkSignature = ECDSA bytes | Schnorr bytes

record OperatorSpecificOwnerSignature =
  operator_identity_public_key :: "PublicKey option"
  owner_signature :: SparkSignature
  input_index :: "u32 option"

record TokenLeafToSpend =
  parent_output_hash :: hash256
  parent_output_vout :: u32

text \<open>A lock time is its consensus value.\<close>

record TokenLeafOutput =
  leaf_id :: bytes
  owner_public_key :: PublicKey
  revocation_public_key :: PublicKey
  withdrawal_bond_sats :: u64
  withdrawal_locktime :: u32
  leaf_receipt :: Receipt
  is_frozen :: "bool option"
  withdraw_txid :: "txid option"
  withdraw_tx_vout :: "u32 option"
  withdraw_height :: "u32 option"
  withdraw_block_hash :: "block_hash option"

datatype TokenTransactionInput =
    Mint (issuer_public_key: PublicKey) (issuer_signature: "OperatorSpecificOwnerSignature option")
      (issuer_provided_timestamp: u64)
  | SparkTransfer (outputs_to_spend: "TokenLeafToSpend list")

record TokenTransaction =
  spark_input :: TokenTransactionInput
  leaves_to_create :: "TokenLeafOutput list"
  spark_operator_identity_public_keys :: "PublicKey list"
  spark_network :: "u32 option"

datatype TokenTransactionStatus = Started | Signed | Finalized

record TokensFreezeData =
  freeze_operator_identity_public_key :: PublicKey
  freeze_owner_public_key :: PublicKey
  freeze_token_public_key :: TokenPubkey
  should_unfreeze :: bool
  freeze_issuer_signature :: SparkSignature
  freeze_timestamp :: u64

record SparkOutPoint =
  token_transaction_hash :: SparkHash
  output_index :: u32

record SparkSignatureLeafData =
  token_tx_leaf_index :: u32
  revocation_secret :: "SecretKey option"

record SparkSignatureData =
  operator_specific_owner_signature :: "OperatorSpecificOwnerSignature option"
  operator_pubkey :: PublicKey
  operator_signature :: SparkSignature
  token_tx_hash :: SparkHash
  outputs_to_spend_data :: "SparkSignatureLeafData list"

definition SPARK_THRESHOLD :: nat where "SPARK_THRESHOLD = 3"

definition get_length_of_leaves_to_spend :: "TokenTransaction \<Rightarrow> nat" where
  "get_length_of_leaves_to_spend tx =
     (case spark_input tx of Mint _ _ _ \<Rightarrow> 0 | SparkTransfer ls \<Rightarrow> length ls)"

section \<open>Hashes\<close>

text \<open>What a hash engine is fed with, and the digest of it as bytes.\<close>

definition digest :: "lib \<Rightarrow> bytes \<Rightarrow> bytes" where
  "digest L bs = to_be_bytes (sha256 L bs)"

definition leaf_to_spend_bytes :: "TokenLeafToSpend \<Rightarrow> bytes" where
  "leaf_to_spend_bytes leaf = to_be_bytes (parent_output_hash leaf) @ to_be_bytes (parent_output_vout leaf)"

definition hash_token_leaf_to_spend :: "lib \<Rightarrow> TokenLeafToSpend \<Rightarrow> SparkHash" where
  "hash_token_leaf_to_spend L leaf = sha256 L (leaf_to_spend_bytes leaf)"

definition leaf_output_bytes :: "TokenLeafOutput \<Rightarrow> bool \<Rightarrow> bytes" where
  "leaf_output_bytes leaf is_partial_hash =
     (if is_partial_hash then [] else leaf_id leaf)
     @ pk_serialize (owner_public_key leaf)
     @ (if is_partial_hash then []
        else pk_serialize (revocation_public_key leaf) @ to_be_bytes (withdrawal_bond_sats leaf)
          @ to_be_bytes (ucast (withdrawal_locktime leaf) :: u64))
     @ TokenPubkey_to_bytes (token_pubkey (leaf_receipt leaf))
     @ to_be_bytes (amount (token_amount (leaf_receipt leaf)))"

definition hash_token_leaf_output :: "lib \<Rightarrow> TokenLeafOutput \<Rightarrow> bool \<Rightarrow> SparkHash" where
  "hash_token_leaf_output L leaf is_partial_hash = sha256 L (leaf_output_bytes leaf is_partial_hash)"

definition mint_bytes :: "PublicKey \<Rightarrow> u64 \<Rightarrow> bytes" where
  "mint_bytes k ts = pk_serialize k @ to_le_bytes ts"

definition hash_token_transaction :: "lib \<Rightarrow> TokenTransaction \<Rightarrow> bool \<Rightarrow> SparkHash" where
  "hash_token_transaction L tx is_partial_hash = sha256 L (
     (case spark_input tx of
        SparkTransfer ls \<Rightarrow> concat (map (\<lambda>l. to_be_bytes (hash_token_leaf_to_spend L l)) ls)
      | Mint k _ ts \<Rightarrow> digest L (mint_bytes k ts))
     @ concat (map (\<lambda>out. to_be_bytes (hash_token_leaf_output L out is_partial_hash)) (leaves_to_create tx))
     @ concat (map (\<lambda>k. digest L (pk_serialize k)) (sort (spark_operator_identity_public_keys tx)))
     @ (case spark_network tx of None \<Rightarrow> [] | Some n \<Rightarrow> digest L (to_be_bytes n)))"

definition TokenTransaction_hash :: "lib \<Rightarrow> TokenTransaction \<Rightarrow> SparkHash" where
  "TokenTransaction_hash L tx = hash_token_transaction L tx False"

definition TokensFreezeData_hash :: "lib \<Rightarrow> TokensFreezeData \<Rightarrow> hash256" where
  "TokensFreezeData_hash L d = sha256 L (
     digest L (pk_serialize (freeze_owner_public_key d))
     @ digest L (TokenPubkey_to_bytes (freeze_token_public_key d))
     @ digest L (to_le_bytes (freeze_timestamp d))
     @ digest L (pk_serialize (freeze_operator_identity_public_key d)))"

section \<open>Signatures\<close>

definition SparkSignature_bytes :: "SparkSignature \<Rightarrow> bytes" where
  "SparkSignature_bytes s = (case s of ECDSA b \<Rightarrow> b | Schnorr b \<Rightarrow> b)"

definition operator_specific_message :: "lib \<Rightarrow> hash256 \<Rightarrow> PublicKey \<Rightarrow> hash256" where
  "operator_specific_message L m k = sha256 L (digest L (to_be_bytes m) @ digest L (pk_serialize k))"

definition verify_with_ctx ::
  "lib \<Rightarrow> SparkSignature \<Rightarrow> PublicKey \<Rightarrow> hash256 \<Rightarrow> PublicKey option \<Rightarrow> bool" where
  "verify_with_ctx L s pk m operator =
     (let m' = (case operator of Some k \<Rightarrow> operator_specific_message L m k | None \<Rightarrow> m) in
      case s of
        ECDSA sg \<Rightarrow> verify_ecdsa L sg m' pk
      | Schnorr sg \<Rightarrow> verify_schnorr L sg m' (pk_x_only L pk))"

section \<open>Specification: what a hash covers\<close>

text \<open>The parts of a transaction that its hash commits to: the spent leaves or the minting
  key and time, of every output the identifier, keys, bond, lock time, token and amount, the
  operators up to order, and the network.\<close>

type_synonym leaf_content = "bytes \<times> PublicKey \<times> PublicKey \<times> u64 \<times> u32 \<times> TokenPubkey \<times> u128"

definition leaf_content :: "TokenLeafOutput \<Rightarrow> leaf_content" where
  "leaf_content l = (leaf_id l, owner_public_key l, revocation_public_key l, withdrawal_bond_sats l,
     withdrawal_locktime l, token_pubkey (leaf_receipt l), amount (token_amount (leaf_receipt l)))"

definition input_content :: "TokenTransactionInput \<Rightarrow> PublicKey \<times> u64 + (hash256 \<times> u32) list" where
  "input_content i = (case i of
     Mint k _ ts \<Rightarrow> Inl (k, ts)
   | SparkTransfer ls \<Rightarrow> Inr (map (\<lambda>l. (parent_output_hash l, parent_output_vout l)) ls))"

definition same_content :: "TokenTransaction \<Rightarrow> TokenTransaction \<Rightarrow> bool" where
  "same_content a b \<longleftrightarrow>
     input_content (spark_input a) = input_content (spark_input b)
   \<and> map leaf_content (leaves_to_create a) = map leaf_content (leaves_to_create b)
   \<and> mset (spark_operator_identity_public_keys a) = mset (spark_operator_identity_public_keys b)
   \<and> spark_network a = spark_network b"

text \<open>The byte strings that are hashed on the way: the components and their digests.\<close>

definition hash_components :: "TokenTransaction \<Rightarrow> bytes list" where
  "hash_components tx =
     (case spark_input tx of
        SparkTransfer ls \<Rightarrow> map leaf_to_spend_bytes ls
      | Mint k _ ts \<Rightarrow> [mint_bytes k ts])
     @ map (\<lambda>out. leaf_output_bytes out False) (leaves_to_create tx)
     @ map pk_serialize (sort (spark_operator_identity_public_keys tx))
     @ (case spark_network tx of None \<Rightarrow> [] | Some n \<Rightarrow> [to_be_bytes n])"

definition hashed_strings :: "lib \<Rightarrow> TokenTransaction \<Rightarrow> bytes set" where
  "hashed_strings L tx = insert (concat (map (digest L) (hash_components tx))) (set (hash_components tx))"

section \<open>Lemmas\<close>

lemma TokenTransaction_hash_components:
  "TokenTransaction_hash L tx = sha256 L (concat (map (digest L) (hash_components tx)))"
  by (simp add: TokenTransaction_hash_def hash_token_transaction_def hash_components_def digest_def
      hash_token_leaf_to_spend_def hash_token_leaf_output_def comp_def
      split: TokenTransactionInput.split option.split)

lemma to_be_bytes_inj:
  "8 dvd LENGTH('a) \<Longrightarrow> to_be_bytes v = to_be_bytes w \<longleftrightarrow> v = (w :: 'a::len word)"
  by (metis from_to_be_bytes)

lemma to_le_bytes_inj:
  "8 dvd LENGTH('a) \<Longrightarrow> to_le_bytes v = to_le_bytes w \<longleftrightarrow> v = (w :: 'a::len word)"
  by (metis from_to_le_bytes)

lemma length_digest [simp]: "length (digest L b) = 32"
  by (simp add: digest_def)

lemma concat_digest_inj:
  assumes "concat (map (digest L) xs) = concat (map (digest L) ys)"
  shows "map (digest L) xs = map (digest L) ys"
  using assms
proof (induction xs arbitrary: ys)
  case Nil
  then show ?case
    by (cases ys) (auto dest: arg_cong [where f = length])
next
  case (Cons x xs)
  then show ?case
    by (cases ys) (auto dest: arg_cong [where f = length])
qed

lemma leaf_to_spend_bytes_inj:
  "leaf_to_spend_bytes a = leaf_to_spend_bytes b \<longleftrightarrow>
    parent_output_hash a = parent_output_hash b \<and> parent_output_vout a = parent_output_vout b"
  by (simp add: leaf_to_spend_bytes_def to_be_bytes_inj)

lemma mint_bytes_inj: "mint_bytes k t = mint_bytes k' t' \<longleftrightarrow> k = k' \<and> t = t'"
  by (simp add: mint_bytes_def to_le_bytes_inj)

lemma TokenPubkey_to_bytes_inj [simp]: "TokenPubkey_to_bytes a = TokenPubkey_to_bytes b \<longleftrightarrow> a = b"
  by (cases a; cases b) (simp add: TokenPubkey_to_bytes_def)

lemma leaf_output_bytes_inj:
  "leaf_output_bytes a False = leaf_output_bytes b False \<longleftrightarrow> leaf_content a = leaf_content b"
proof
  assume h: "leaf_output_bytes a False = leaf_output_bytes b False"
  then have "length (leaf_id a) = length (leaf_id b)"
    by (auto simp: leaf_output_bytes_def dest: arg_cong [where f = length])
  moreover have "withdrawal_locktime a = withdrawal_locktime b"
    if "(ucast (withdrawal_locktime a) :: u64) = ucast (withdrawal_locktime b)"
    using arg_cong [OF that, of "ucast :: u64 \<Rightarrow> u32"] by (simp add: ucast_up_ucast_id is_up)
  ultimately show "leaf_content a = leaf_content b"
    using h by (simp add: leaf_output_bytes_def leaf_content_def to_be_bytes_inj)
qed (simp add: leaf_output_bytes_def leaf_content_def)

lemma length_leaf_to_spend_bytes [simp]: "length (leaf_to_spend_bytes l) = 36"
  by (simp add: leaf_to_spend_bytes_def)

lemma length_mint_bytes [simp]: "length (mint_bytes k t) = 41"
  by (simp add: mint_bytes_def)

lemma length_leaf_output_bytes [simp]: "length (leaf_output_bytes l False) = length (leaf_id l) + 131"
  by (simp add: leaf_output_bytes_def)

text \<open>The components of the five kinds have different lengths, so filtering by length takes
  the list of components apart.\<close>

definition class_of_length :: "nat \<Rightarrow> nat" where
  "class_of_length n = (if 131 \<le> n then 0 else n)"

definition components_of_class :: "nat \<Rightarrow> bytes list \<Rightarrow> bytes list" where
  "components_of_class c bs = filter (\<lambda>b. class_of_length (length b) = c) bs"

lemma components_of_class_simps [simp]:
  "components_of_class c [] = []"
  "components_of_class c (xs @ ys) = components_of_class c xs @ components_of_class c ys"
  "components_of_class c (b # bs) =
    (if class_of_length (length b) = c then b # components_of_class c bs else components_of_class c bs)"
  by (simp_all add: components_of_class_def)

lemma components_of_class_map:
  assumes "\<And>x. class_of_length (length (f x)) = d"
  shows "components_of_class c (map f xs) = (if c = d then map f xs else [])"
  using assms by (induction xs) auto

lemma hash_components_classes:
  "components_of_class 36 (hash_components tx) =
     (case spark_input tx of SparkTransfer ls \<Rightarrow> map leaf_to_spend_bytes ls | Mint _ _ _ \<Rightarrow> [])"
  "components_of_class 41 (hash_components tx) =
     (case spark_input tx of SparkTransfer ls \<Rightarrow> [] | Mint k _ ts \<Rightarrow> [mint_bytes k ts])"
  "components_of_class 0 (hash_components tx) = map (\<lambda>out. leaf_output_bytes out False) (leaves_to_create tx)"
  "components_of_class 33 (hash_components tx) = map pk_serialize (sort (spark_operator_identity_public_keys tx))"
  "components_of_class 4 (hash_components tx) =
     (case spark_network tx of None \<Rightarrow> [] | Some n \<Rightarrow> [to_be_bytes n])"
  by (simp_all add: hash_components_def components_of_class_map [where d = 0]
      components_of_class_map [where d = 33] components_of_class_map [where d = 36] class_of_length_def
      split: TokenTransactionInput.split option.split)

lemma map_eq_map:
  assumes "map f xs = map f ys" and "\<And>x y. f x = f y \<Longrightarrow> g x = g y"
  shows "map g xs = map g ys"
  using assms(1)
proof (induction xs arbitrary: ys)
  case (Cons x xs)
  then obtain y zs where ys: "ys = y # zs" "f x = f y" "map f xs = map f zs" by auto
  have "g x = g y" using ys(2) by (rule assms(2))
  with Cons.IH [OF ys(3)] ys(1) show ?case by simp
qed simp

lemma leaf_to_spend_bytes_maps:
  "map leaf_to_spend_bytes xs = map leaf_to_spend_bytes ys \<longleftrightarrow>
    map (\<lambda>l. (parent_output_hash l, parent_output_vout l)) xs
      = map (\<lambda>l. (parent_output_hash l, parent_output_vout l)) ys"
  by (rule iffI; rule map_eq_map) (auto simp: leaf_to_spend_bytes_inj)

lemma same_content_components:
  "hash_components a = hash_components b \<longleftrightarrow> same_content a b"
proof
  assume h: "hash_components a = hash_components b"
  note cls = hash_components_classes [of a] hash_components_classes [of b]
  have "input_content (spark_input a) = input_content (spark_input b)"
    using cls(1,2,6,7) h
    by (cases "spark_input a"; cases "spark_input b")
      (simp_all add: input_content_def mint_bytes_inj leaf_to_spend_bytes_maps)
  moreover have "map leaf_content (leaves_to_create a) = map leaf_content (leaves_to_create b)"
  proof (rule map_eq_map)
    show "map (\<lambda>out. leaf_output_bytes out False) (leaves_to_create a)
        = map (\<lambda>out. leaf_output_bytes out False) (leaves_to_create b)"
      using cls(3,8) h by simp
  qed (simp add: leaf_output_bytes_inj)
  moreover have "sort (spark_operator_identity_public_keys a) = sort (spark_operator_identity_public_keys b)"
  proof -
    have "map pk_serialize (sort (spark_operator_identity_public_keys a))
        = map pk_serialize (sort (spark_operator_identity_public_keys b))"
      using cls(4,9) h by simp
    then show ?thesis by (simp add: inj_map_eq_map inj_def)
  qed
  then have "mset (spark_operator_identity_public_keys a) = mset (spark_operator_identity_public_keys b)"
    by (metis mset_sort)
  moreover have "spark_network a = spark_network b"
    using cls(5,10) h by (auto simp: to_be_bytes_inj split: option.splits)
  ultimately show "same_content a b" by (simp add: same_content_def)
next
  assume "same_content a b"
  then have s: "input_content (spark_input a) = input_content (spark_input b)"
    "map leaf_content (leaves_to_create a) = map leaf_content (leaves_to_create b)"
    "sort (spark_operator_identity_public_keys a) = sort (spark_operator_identity_public_keys b)"
    "spark_network a = spark_network b"
    by (auto simp: same_content_def intro!: properties_for_sort)
  have "map (\<lambda>out. leaf_output_bytes out False) (leaves_to_create a)
      = map (\<lambda>out. leaf_output_bytes out False) (leaves_to_create b)"
    using s(2) by (rule map_eq_map) (simp add: leaf_output_bytes_inj)
  moreover have "(case spark_input a of SparkTransfer ls \<Rightarrow> map leaf_to_spend_bytes ls | Mint k _ ts \<Rightarrow> [mint_bytes k ts])
      = (case spark_input b of SparkTransfer ls \<Rightarrow> map leaf_to_spend_bytes ls | Mint k _ ts \<Rightarrow> [mint_bytes k ts])"
    using s(1) by (cases "spark_input a"; cases "spark_input b")
      (simp_all add: input_content_def leaf_to_spend_bytes_maps)
  ultimately show "hash_components a = hash_components b"
    using s(3,4) by (simp add: hash_components_def)
qed

section \<open>Properties\<close>

text \<open>C5. The hash of a Spark transaction identifies its content: two transactions have the
  same hash exactly when they spend the same leaves or mint with the same key and time,
  create outputs that agree on everything a withdrawal depends on, name the same operators in
  any order and the same network, provided SHA-256 does not collide on the strings hashed for
  the two. The boundaries between inputs, outputs, operators and network are not encoded; they
  are recovered from the lengths of what is hashed.\<close>

theorem spark_hash_binds_content:
  assumes "inj_on (sha256 L) (hashed_strings L a \<union> hashed_strings L b)"
  shows "TokenTransaction_hash L a = TokenTransaction_hash L b \<longleftrightarrow> same_content a b"
proof
  let ?outer = "\<lambda>t. concat (map (digest L) (hash_components t))"
  assume "TokenTransaction_hash L a = TokenTransaction_hash L b"
  then have "?outer a = ?outer b"
    using assms by (simp add: TokenTransaction_hash_components hashed_strings_def inj_on_eq_iff)
  then have "map (digest L) (hash_components a) = map (digest L) (hash_components b)"
    by (rule concat_digest_inj)
  then have "map (sha256 L) (hash_components a) = map (sha256 L) (hash_components b)"
    by (rule map_eq_map) (simp add: digest_def to_be_bytes_inj)
  then have "hash_components a = hash_components b"
    by (rule map_inj_on) (rule inj_on_subset [OF assms], auto simp: hashed_strings_def)
  then show "same_content a b" by (simp add: same_content_components)
next
  assume "same_content a b"
  then show "TokenTransaction_hash L a = TokenTransaction_hash L b"
    by (simp add: TokenTransaction_hash_components flip: same_content_components)
qed

definition example_mint :: "u64 \<Rightarrow> TokenTransaction" where
  "example_mint ts = \<lparr>spark_input = Mint (PublicKey 7) None ts, leaves_to_create = [],
     spark_operator_identity_public_keys = [], spark_network = None\<rparr>"


definition example_hash :: "bytes \<Rightarrow> hash256" where
  "example_hash bs = (if length bs = 32 then 1000 + from_be_bytes bs else from_le_bytes (drop 33 bs))"

theorem spark_hash_binds_content_witness:
  "TokenTransaction_hash (lib0\<lparr>sha256 := example_hash\<rparr>) (example_mint 1)
    \<noteq> TokenTransaction_hash (lib0\<lparr>sha256 := example_hash\<rparr>) (example_mint 2)"
proof -
  let ?L = "lib0\<lparr>sha256 := example_hash\<rparr>"
  have c: "hash_components (example_mint ts) = [mint_bytes (PublicKey 7) ts]" for ts
    by (simp add: hash_components_def example_mint_def)
  have m: "example_hash (mint_bytes (PublicKey 7) ts) = ucast ts" for ts
  proof -
    have "le_nat (to_le_bytes ts) = unat ts"
      using unat_bound [of ts] by (simp add: to_le_bytes_def le_nat_nat_le)
    then show ?thesis
      by (simp add: example_hash_def mint_bytes_def from_le_bytes_def unsigned_ucast_eq of_nat_unat)
  qed
  have o: "example_hash (digest ?L (mint_bytes (PublicKey 7) ts)) = 1000 + ucast ts" for ts
    using m [of ts] by (simp add: digest_def example_hash_def)
  have "hashed_strings ?L (example_mint ts)
      = {digest ?L (mint_bytes (PublicKey 7) ts), mint_bytes (PublicKey 7) ts}" for ts
    by (simp add: hashed_strings_def c)
  then have "inj_on (sha256 ?L) (hashed_strings ?L (example_mint 1) \<union> hashed_strings ?L (example_mint 2))"
    by (auto simp: inj_on_def o m)
  then show ?thesis
    by (simp add: spark_hash_binds_content) (simp add: same_content_def example_mint_def input_content_def)
qed

text \<open>C28. The hash that the issuer of a token signs to freeze or unfreeze an owner does not
  depend on which of the two it is: the signature on a freeze is a signature on the unfreeze
  with the same operator, owner, token and time, and the other way round.\<close>

theorem freeze_signature_covers_unfreeze:
  "TokensFreezeData_hash L (d\<lparr>should_unfreeze := b\<rparr>) = TokensFreezeData_hash L d
   \<and> verify_with_ctx L (freeze_issuer_signature (d\<lparr>should_unfreeze := b\<rparr>)) k
        (TokensFreezeData_hash L (d\<lparr>should_unfreeze := b\<rparr>)) None
     = verify_with_ctx L (freeze_issuer_signature d) k (TokensFreezeData_hash L d) None"
  by (simp add: TokensFreezeData_hash_def)


end
