(* ===== verification/Spark_Storage.thy ===== *)
theory Spark_Storage
  imports Spark
begin

text \<open>
  The storage of Spark transactions (crates/storage/src/traits/spark.rs and
  converters/spark.rs). The tables of the database are lists of rows in the order of
  their identifiers, and a query is what it selects from them: the constraints are
  those of the migrations. Failures of the connection to the database are not modelled.
\<close>

section \<open>Decimal numbers\<close>

text \<open>The methods to_string and parse of the unsigned integers.\<close>

fun dec_digits :: "nat \<Rightarrow> bytes" where
  "dec_digits n = (if n < 10 then [of_nat (48 + n)] else dec_digits (n div 10) @ [of_nat (48 + n mod 10)])"

declare dec_digits.simps [simp del]

definition is_digit :: "u8 \<Rightarrow> bool" where
  "is_digit b = in_range 48 57 b"

definition digits_value :: "bytes \<Rightarrow> nat" where
  "digits_value bs = foldl (\<lambda>a b. a * 10 + (unat b - 48)) 0 bs"

definition to_dec_string :: "'a::len word \<Rightarrow> bytes" where
  "to_dec_string w = dec_digits (unat w)"

definition parse_dec :: "bytes \<Rightarrow> 'a::len word option" where
  "parse_dec bs =
     (let ds = (if bs \<noteq> [] \<and> hd bs = 43 \<and> tl bs \<noteq> [] then tl bs else bs) in
      if ds \<noteq> [] \<and> list_all is_digit ds \<and> digits_value ds < 2 ^ LENGTH('a)
      then Some (of_nat (digits_value ds)) else None)"

section \<open>Tables\<close>

type_synonym i32 = "32 word"
type_synonym i16 = "16 word"
type_synonym i64 = "64 word"

datatype OperationType =
    UserTransfer | UserBurn | IssuerAnnounce | IssuerMint | IssuerTransfer
  | IssuerFreeze | IssuerUnfreeze | IssuerBurn

datatype SignatureType = SchnorrType | EcdsaType

record spark_transaction_row =
  st_tx_hash :: hash256
  operation_type :: OperationType
  st_status :: TokenTransactionStatus
  st_network :: "i32 option"

record spark_output_row =
  spark_id :: bytes
  so_tx_hash :: hash256
  so_vout :: i32
  so_token_pubkey :: bytes
  so_owner_pubkey :: bytes
  so_withdrawal_bond_sats :: i32
  so_withdrawal_locktime :: bytes
  so_token_amount :: bytes
  so_revocation_pubkey :: bytes
  revocation_secret_key :: "bytes option"
  so_is_frozen :: "bool option"
  so_withdraw_txid :: "txid option"
  so_withdraw_vout :: "i32 option"
  so_withdraw_blockhash :: "block_hash option"
  spend_txid :: "hash256 option"
  spend_vout :: "i32 option"

record operator_signature_row =
  os_tx_hash :: hash256
  os_operator_identity_pubkey :: bytes
  os_signature :: bytes
  os_type :: "SignatureType option"

record user_signature_row =
  us_tx_hash :: hash256
  us_signature :: bytes
  us_operator_public_key :: "bytes option"
  us_type :: "SignatureType option"
  us_index :: i16

record spark_issue_row =
  si_tx_hash :: hash256
  si_issuer_pubkey :: bytes
  si_nonce :: i32
  si_issuer_provided_timestamp :: i64
  si_issuer_signature :: bytes
  si_issue_amount :: bytes
  si_operator_pubkey :: "bytes option"
  si_signature_type :: "SignatureType option"

record SparkDb =
  spark_transactions :: "spark_transaction_row list"
  spark_outputs :: "spark_output_row list"
  operator_pubkeys :: "(hash256 \<times> bytes) list"
  operator_signatures :: "operator_signature_row list"
  user_signatures :: "user_signature_row list"
  spark_issues :: "spark_issue_row list"

datatype DbErr = ConstraintViolated | SparkOutputNotFound | ConversionFailed | RecordNotFound

text \<open>The first row that satisfies a condition, replaced.\<close>

fun update_first :: "('r \<Rightarrow> bool) \<Rightarrow> ('r \<Rightarrow> 'r) \<Rightarrow> 'r list \<Rightarrow> 'r list" where
  "update_first P f [] = []"
| "update_first P f (r # rs) = (if P r then f r # rs else r # update_first P f rs)"

section \<open>Conversions\<close>

definition signature_type :: "SparkSignature \<Rightarrow> SignatureType" where
  "signature_type s = (case s of ECDSA _ \<Rightarrow> EcdsaType | Schnorr _ \<Rightarrow> SchnorrType)"

definition try_from_slice :: "lib \<Rightarrow> bytes \<Rightarrow> DbErr + SparkSignature" where
  "try_from_slice L bs =
     (case ecdsa_from_der L bs of Some s \<Rightarrow> Inr (ECDSA s) | None \<Rightarrow>
      case schnorr_from_slice L bs of Some s \<Rightarrow> Inr (Schnorr s) | None \<Rightarrow>
      case ecdsa_from_compact L bs of Some s \<Rightarrow> Inr (ECDSA s) | None \<Rightarrow> Inl ConversionFailed)"

definition typed_signature :: "lib \<Rightarrow> SignatureType option \<Rightarrow> bytes \<Rightarrow> DbErr + SparkSignature" where
  "typed_signature L ty bs =
     (case ty of
        Some SchnorrType \<Rightarrow> rbind (ok_or (schnorr_from_slice L bs) ConversionFailed) (Inr \<circ> Schnorr)
      | Some EcdsaType \<Rightarrow> rbind (ok_or (ecdsa_from_compact L bs) ConversionFailed) (Inr \<circ> ECDSA)
      | None \<Rightarrow> try_from_slice L bs)"

definition convert_spark_signature_data_to_signature_models ::
  "SparkSignatureData \<Rightarrow> operator_signature_row \<times> user_signature_row option" where
  "convert_spark_signature_data_to_signature_models d =
     (\<lparr>os_tx_hash = token_tx_hash d, os_operator_identity_pubkey = pk_serialize (operator_pubkey d),
       os_signature = SparkSignature_bytes (operator_signature d),
       os_type = Some (signature_type (operator_signature d))\<rparr>,
      map_option (\<lambda>s. \<lparr>us_tx_hash = token_tx_hash d,
         us_signature = SparkSignature_bytes (owner_signature s),
         us_operator_public_key = map_option pk_serialize (operator_identity_public_key s),
         us_type = Some (signature_type (owner_signature s)),
         us_index = (case input_index s of None \<Rightarrow> 0 | Some i \<Rightarrow> ucast i)\<rparr>)
        (operator_specific_owner_signature d))"

definition convert_signature_models_to_spark_signature_data ::
  "lib \<Rightarrow> operator_signature_row \<Rightarrow> user_signature_row option \<Rightarrow> SparkSignatureLeafData list \<Rightarrow>
     DbErr + SparkSignatureData" where
  "convert_signature_models_to_spark_signature_data L op u secrets =
     rbind (ok_or (pk_from_slice L (os_operator_identity_pubkey op)) ConversionFailed) (\<lambda>pk.
     rbind (typed_signature L (os_type op) (os_signature op)) (\<lambda>os.
     rbind (case u of
         None \<Rightarrow> Inr None
       | Some ur \<Rightarrow>
           rbind (typed_signature L (us_type ur) (us_signature ur)) (\<lambda>s.
           Inr (Some \<lparr>operator_identity_public_key =
               (case us_operator_public_key ur of None \<Rightarrow> None | Some b \<Rightarrow> pk_from_slice L b),
             owner_signature = s, input_index = Some (scast (us_index ur))\<rparr>))) (\<lambda>owner.
     Inr \<lparr>operator_specific_owner_signature = owner, operator_pubkey = pk, operator_signature = os,
          token_tx_hash = os_tx_hash op, outputs_to_spend_data = secrets\<rparr>)))"

definition convert_spark_output_to_active_model :: "hash256 \<Rightarrow> u32 \<Rightarrow> TokenLeafOutput \<Rightarrow> spark_output_row" where
  "convert_spark_output_to_active_model h vout out =
     \<lparr>spark_id = leaf_id out, so_tx_hash = h, so_vout = vout,
      so_token_pubkey = TokenPubkey_to_bytes (token_pubkey (leaf_receipt out)),
      so_owner_pubkey = pk_serialize (owner_public_key out),
      so_withdrawal_bond_sats = ucast (withdrawal_bond_sats out),
      so_withdrawal_locktime = to_dec_string (withdrawal_locktime out),
      so_token_amount = to_dec_string (amount (token_amount (leaf_receipt out))),
      so_revocation_pubkey = pk_serialize (revocation_public_key out),
      revocation_secret_key = None, so_is_frozen = is_frozen out,
      so_withdraw_txid = withdraw_txid out, so_withdraw_vout = withdraw_tx_vout out,
      so_withdraw_blockhash = withdraw_block_hash out, spend_txid = None, spend_vout = None\<rparr>"

definition convert_model_to_spark_output :: "lib \<Rightarrow> spark_output_row \<Rightarrow> DbErr + TokenLeafOutput" where
  "convert_model_to_spark_output L r =
     rbind (map_err (\<lambda>_. ConversionFailed) (TokenPubkey_from_bytes L (so_token_pubkey r))) (\<lambda>token.
     rbind (ok_or (pk_from_slice L (so_owner_pubkey r)) ConversionFailed) (\<lambda>owner.
     rbind (ok_or (pk_from_slice L (so_revocation_pubkey r)) ConversionFailed) (\<lambda>revocation.
     rbind (require (is_utf8 (so_token_amount r)) ConversionFailed) (\<lambda>_.
     rbind (ok_or (parse_dec (so_token_amount r)) ConversionFailed) (\<lambda>amount.
     rbind (ok_or (parse_dec (so_withdrawal_locktime r)) ConversionFailed) (\<lambda>locktime.
     Inr \<lparr>leaf_id = spark_id r, owner_public_key = owner, revocation_public_key = revocation,
          withdrawal_bond_sats = scast (so_withdrawal_bond_sats r),
          withdrawal_locktime = locktime,
          leaf_receipt = \<lparr>token_amount = TokenAmount_from amount, token_pubkey = token\<rparr>,
          is_frozen = so_is_frozen r, withdraw_txid = so_withdraw_txid r,
          withdraw_tx_vout = so_withdraw_vout r, withdraw_height = None,
          withdraw_block_hash = so_withdraw_blockhash r\<rparr>))))))"

text \<open>The transaction of a row: an unwrapped conversion of an output panics; no outputs means
  no transaction.\<close>

definition mint_input :: "lib \<Rightarrow> spark_issue_row \<Rightarrow> DbErr + TokenTransactionInput" where
  "mint_input L i =
     rbind (ok_or (pk_from_slice L (si_issuer_pubkey i)) ConversionFailed) (\<lambda>issuer.
     rbind (typed_signature L (Some (case si_signature_type i of None \<Rightarrow> EcdsaType | Some t \<Rightarrow> t))
         (si_issuer_signature i)) (\<lambda>s.
     Inr (Mint issuer
       (Some \<lparr>operator_identity_public_key =
            (case si_operator_pubkey i of None \<Rightarrow> None | Some b \<Rightarrow> pk_from_slice L b),
          owner_signature = s, input_index = Some 0\<rparr>)
       (si_issuer_provided_timestamp i))))"

definition transfer_input :: "spark_output_row list \<Rightarrow> TokenTransactionInput" where
  "transfer_input rows = SparkTransfer
     (map (\<lambda>r. \<lparr>parent_output_hash = so_tx_hash r, parent_output_vout = so_vout r\<rparr>)
       (filter (\<lambda>r. spend_txid r \<noteq> None \<and> spend_vout r \<noteq> None) rows))"

definition create_token_transaction ::
  "lib \<Rightarrow> spark_transaction_row \<Rightarrow> bytes list \<Rightarrow> spark_output_row list \<Rightarrow> spark_output_row list \<Rightarrow>
     spark_issue_row option \<Rightarrow> DbErr fault + TokenTransaction option" where
  "create_token_transaction L tx operators inputs outputs issue =
     rbind (expect (mapM (convert_model_to_spark_output L) outputs)) (\<lambda>leaves.
     if leaves = [] then Inr None
     else
       rbind (may_fail (mapM (\<lambda>b. ok_or (pk_from_slice L b) ConversionFailed) operators)) (\<lambda>keys.
       rbind (case operation_type tx of
           IssuerMint \<Rightarrow> may_fail (rbind (ok_or issue ConversionFailed) (mint_input L))
         | _ \<Rightarrow> Inr (transfer_input inputs)) (\<lambda>inp.
       Inr (Some \<lparr>spark_input = inp, leaves_to_create = leaves,
            spark_operator_identity_public_keys = keys, spark_network = st_network tx\<rparr>))))"

definition create_spark_model_from_token_tx :: "lib \<Rightarrow> TokenTransaction \<Rightarrow> spark_transaction_row" where
  "create_spark_model_from_token_tx L tx =
     \<lparr>st_tx_hash = TokenTransaction_hash L tx,
      operation_type = (case spark_input tx of Mint _ _ _ \<Rightarrow> IssuerMint | SparkTransfer _ \<Rightarrow> UserTransfer),
      st_status = Started, st_network = spark_network tx\<rparr>"

definition create_output_models_from_token_tx :: "lib \<Rightarrow> TokenTransaction \<Rightarrow> spark_output_row list" where
  "create_output_models_from_token_tx L tx =
     map (\<lambda>(i, leaf). convert_spark_output_to_active_model (TokenTransaction_hash L tx) (of_nat i) leaf)
       (enumerate 0 (leaves_to_create tx))"

definition get_issue_amount :: "TokenTransaction \<Rightarrow> u128" where
  "get_issue_amount tx = sum_list (map (\<lambda>l. amount (token_amount (leaf_receipt l))) (leaves_to_create tx))"

definition create_spark_issue_model_from_token_tx ::
  "lib \<Rightarrow> TokenTransaction \<Rightarrow> PublicKey \<Rightarrow> OperatorSpecificOwnerSignature option \<Rightarrow> u64 \<Rightarrow>
     DbErr + spark_issue_row" where
  "create_spark_issue_model_from_token_tx L tx issuer s ts =
     rbind (ok_or s ConversionFailed) (\<lambda>sd.
     Inr \<lparr>si_tx_hash = TokenTransaction_hash L tx, si_issuer_pubkey = pk_serialize issuer, si_nonce = 0,
          si_issuer_provided_timestamp = ts,
          si_issuer_signature = SparkSignature_bytes (owner_signature sd),
          si_issue_amount = to_dec_string (get_issue_amount tx),
          si_operator_pubkey = map_option pk_serialize (operator_identity_public_key sd),
          si_signature_type = Some (signature_type (owner_signature sd))\<rparr>)"

section \<open>Insertions with their constraints\<close>

definition insert_transaction_row :: "spark_transaction_row \<Rightarrow> SparkDb \<Rightarrow> DbErr + SparkDb" where
  "insert_transaction_row r db =
     (if \<exists>x \<in> set (spark_transactions db). st_tx_hash x = st_tx_hash r then Inl ConstraintViolated
      else Inr (db\<lparr>spark_transactions := spark_transactions db @ [r]\<rparr>))"

text \<open>Two rows agree on the output they are spent by; rows that are not spent never do.\<close>

definition same_spend :: "spark_output_row \<Rightarrow> spark_output_row \<Rightarrow> bool" where
  "same_spend a b = (spend_txid a \<noteq> None \<and> spend_vout a \<noteq> None
     \<and> spend_txid a = spend_txid b \<and> spend_vout a = spend_vout b)"

definition insert_output_row :: "spark_output_row \<Rightarrow> SparkDb \<Rightarrow> DbErr + SparkDb" where
  "insert_output_row r db =
     (if (\<exists>x \<in> set (spark_outputs db). spark_id x = spark_id r
            \<or> so_tx_hash x = so_tx_hash r \<and> so_vout x = so_vout r \<or> same_spend x r)
        \<or> \<not> (\<exists>t \<in> set (spark_transactions db). st_tx_hash t = so_tx_hash r)
      then Inl ConstraintViolated
      else Inr (db\<lparr>spark_outputs := spark_outputs db @ [r]\<rparr>))"

definition insert_operator_pubkey :: "hash256 \<Rightarrow> bytes \<Rightarrow> SparkDb \<Rightarrow> SparkDb" where
  "insert_operator_pubkey h k db =
     (if (h, k) \<in> set (operator_pubkeys db) then db
      else db\<lparr>operator_pubkeys := operator_pubkeys db @ [(h, k)]\<rparr>)"

definition insert_issue_row :: "spark_issue_row \<Rightarrow> SparkDb \<Rightarrow> DbErr + SparkDb" where
  "insert_issue_row r db =
     (if \<exists>x \<in> set (spark_issues db). si_tx_hash x = si_tx_hash r then Inl ConstraintViolated
      else Inr (db\<lparr>spark_issues := spark_issues db @ [r]\<rparr>))"

definition output_at :: "hash256 \<Rightarrow> i32 \<Rightarrow> spark_output_row \<Rightarrow> bool" where
  "output_at h vout r = (so_tx_hash r = h \<and> so_vout r = vout)"

definition insert_spent_output :: "hash256 \<Rightarrow> i32 \<Rightarrow> hash256 \<Rightarrow> i32 \<Rightarrow> SparkDb \<Rightarrow> DbErr + SparkDb" where
  "insert_spent_output h vout spender i db =
     (if \<not> list_ex (output_at h vout) (spark_outputs db) then Inl SparkOutputNotFound
      else if \<exists>x \<in> set (spark_outputs db). \<not> output_at h vout x
          \<and> spend_txid x = Some spender \<and> spend_vout x = Some i then Inl ConstraintViolated
      else Inr (db\<lparr>spark_outputs := update_first (output_at h vout)
             (\<lambda>r. r\<lparr>spend_txid := Some spender, spend_vout := Some i\<rparr>) (spark_outputs db)\<rparr>))"

section \<open>Operations\<close>

text \<open>The insertion is one database transaction: an error leaves the tables as they were.\<close>

definition insert_spent_outputs :: "hash256 \<Rightarrow> TokenLeafToSpend list \<Rightarrow> SparkDb \<Rightarrow> DbErr + SparkDb" where
  "insert_spent_outputs spender leaves db =
     foldM (\<lambda>db (i, l). insert_spent_output (parent_output_hash l) (parent_output_vout l) spender (of_nat i) db)
       db (enumerate 0 leaves)"

definition insert_spark_transaction :: "lib \<Rightarrow> TokenTransaction \<Rightarrow> SparkDb \<Rightarrow> DbErr + SparkDb" where
  "insert_spark_transaction L tx db =
     rbind (insert_transaction_row (create_spark_model_from_token_tx L tx) db) (\<lambda>db1.
     rbind (foldM (\<lambda>db r. insert_output_row r db) db1 (create_output_models_from_token_tx L tx)) (\<lambda>db2.
     let db3 = fold (\<lambda>k. insert_operator_pubkey (TokenTransaction_hash L tx) (pk_serialize k))
                 (spark_operator_identity_public_keys tx) db2 in
     case spark_input tx of
       Mint issuer s ts \<Rightarrow>
         rbind (create_spark_issue_model_from_token_tx L tx issuer s ts) (\<lambda>r. insert_issue_row r db3)
     | SparkTransfer leaves \<Rightarrow> insert_spent_outputs (TokenTransaction_hash L tx) leaves db3))"

definition outputs_of :: "SparkDb \<Rightarrow> hash256 \<Rightarrow> spark_output_row list" where
  "outputs_of db h = sort_key (\<lambda>r. sint (so_vout r)) (filter (\<lambda>r. so_tx_hash r = h) (spark_outputs db))"

definition inputs_of :: "SparkDb \<Rightarrow> hash256 \<Rightarrow> spark_output_row list" where
  "inputs_of db h =
     (let rows = filter (\<lambda>r. spend_txid r = Some h) (spark_outputs db) in
      sort_key (\<lambda>r. sint (the (spend_vout r))) (filter (\<lambda>r. spend_vout r \<noteq> None) rows)
      @ filter (\<lambda>r. spend_vout r = None) rows)"

definition operators_of :: "SparkDb \<Rightarrow> hash256 \<Rightarrow> bytes list" where
  "operators_of db h = map snd (filter (\<lambda>p. fst p = h) (operator_pubkeys db))"

definition get_spark_transaction_model_by_hash :: "SparkDb \<Rightarrow> hash256 \<Rightarrow> spark_transaction_row option" where
  "get_spark_transaction_model_by_hash db h = find (\<lambda>r. st_tx_hash r = h) (spark_transactions db)"

definition get_spark_tx_with_outputs ::
  "lib \<Rightarrow> SparkDb \<Rightarrow> hash256 \<Rightarrow> DbErr fault + TokenTransaction option" where
  "get_spark_tx_with_outputs L db h =
     (case get_spark_transaction_model_by_hash db h of
        None \<Rightarrow> Inr None
      | Some tx \<Rightarrow> create_token_transaction L tx (operators_of db h) (inputs_of db h) (outputs_of db h)
                     (find (\<lambda>r. si_tx_hash r = h) (spark_issues db)))"

definition get_spark_txs_with_outputs ::
  "lib \<Rightarrow> SparkDb \<Rightarrow> hash256 list \<Rightarrow> DbErr fault + TokenTransaction list" where
  "get_spark_txs_with_outputs L db hs =
     rbind (mapM (get_spark_tx_with_outputs L db) hs) (\<lambda>txs. Inr (List.map_filter (\<lambda>x. x) txs))"

definition get_spark_output_model :: "SparkDb \<Rightarrow> bytes \<Rightarrow> spark_output_row option" where
  "get_spark_output_model db i = find (\<lambda>r. spark_id r = i) (spark_outputs db)"

text \<open>The index of the output is cut to 16 bits and compared with the position of the input
  in the spending transaction.\<close>

definition get_spent_output :: "lib \<Rightarrow> SparkDb \<Rightarrow> hash256 \<Rightarrow> nat \<Rightarrow> DbErr + TokenLeafOutput option" where
  "get_spent_output L db h index =
     (case find (\<lambda>r. spend_txid r = Some h \<and> spend_vout r = Some (scast (of_nat index :: i16))) (spark_outputs db) of
        None \<Rightarrow> Inr None
      | Some r \<Rightarrow> rbind (convert_model_to_spark_output L r) (Inr \<circ> Some))"

text \<open>The table of signatures refers to the table of transactions: a signature of a transaction
  that is not stored violates the constraint.\<close>

definition insert_signature_data :: "SparkSignatureData \<Rightarrow> SparkDb \<Rightarrow> DbErr + SparkDb" where
  "insert_signature_data d db =
     (let (op, user) = convert_spark_signature_data_to_signature_models d;
          same_op = (\<lambda>r. os_tx_hash r = os_tx_hash op
             \<and> os_operator_identity_pubkey r = os_operator_identity_pubkey op);
          db1 = db\<lparr>operator_signatures :=
            (if list_ex same_op (operator_signatures db)
             then update_first same_op (\<lambda>r. r\<lparr>os_signature := os_signature op, os_type := os_type op\<rparr>)
                    (operator_signatures db)
             else operator_signatures db @ [op])\<rparr> in
      if get_spark_transaction_model_by_hash db (os_tx_hash op) = None then Inl ConstraintViolated
      else case user of
        None \<Rightarrow> Inr db1
      | Some u \<Rightarrow>
          let same_user = (\<lambda>r. us_tx_hash r = us_tx_hash u \<and> us_signature r = us_signature u) in
          Inr (db1\<lparr>user_signatures :=
            (if list_ex same_user (user_signatures db)
             then update_first same_user (\<lambda>r. r\<lparr>us_operator_public_key := us_operator_public_key u\<rparr>)
                    (user_signatures db)
             else user_signatures db @ [u])\<rparr>))"

definition set_revocation_secret_key :: "hash256 \<Rightarrow> u32 \<Rightarrow> SecretKey \<Rightarrow> SparkDb \<Rightarrow> bool \<times> SparkDb" where
  "set_revocation_secret_key h i k db =
     (if \<not> list_ex (output_at h i) (spark_outputs db) then (False, db)
      else (True, db\<lparr>spark_outputs := update_first (output_at h i)
             (\<lambda>r. r\<lparr>revocation_secret_key := Some (secret_bytes k)\<rparr>) (spark_outputs db)\<rparr>))"

definition set_token_transaction_status :: "hash256 \<Rightarrow> TokenTransactionStatus \<Rightarrow> SparkDb \<Rightarrow> SparkDb" where
  "set_token_transaction_status h s db =
     db\<lparr>spark_transactions := map (\<lambda>r. if st_tx_hash r = h then r\<lparr>st_status := s\<rparr> else r) (spark_transactions db)\<rparr>"

definition get_token_transaction_status :: "SparkDb \<Rightarrow> hash256 \<Rightarrow> TokenTransactionStatus" where
  "get_token_transaction_status db h =
     (case get_spark_transaction_model_by_hash db h of None \<Rightarrow> Started | Some r \<Rightarrow> st_status r)"

definition get_spark_outputs_by_owner_pubkey :: "lib \<Rightarrow> SparkDb \<Rightarrow> bytes \<Rightarrow> DbErr + TokenLeafOutput list" where
  "get_spark_outputs_by_owner_pubkey L db owner =
     mapM (convert_model_to_spark_output L) (filter (\<lambda>r. so_owner_pubkey r = owner) (spark_outputs db))"

definition mark_spark_output_as_withdrawn ::
  "bytes \<Rightarrow> txid \<Rightarrow> i32 \<Rightarrow> block_hash \<Rightarrow> SparkDb \<Rightarrow> DbErr + SparkDb" where
  "mark_spark_output_as_withdrawn i t vout b db =
     (if get_spark_output_model db i = None then Inl SparkOutputNotFound
      else Inr (db\<lparr>spark_outputs := update_first (\<lambda>r. spark_id r = i)
             (\<lambda>r. r\<lparr>so_withdraw_txid := Some t, so_withdraw_vout := Some vout, so_withdraw_blockhash := Some b\<rparr>)
             (spark_outputs db)\<rparr>))"

definition get_revocation_secret_keys :: "lib \<Rightarrow> SparkDb \<Rightarrow> hash256 \<Rightarrow> SparkSignatureLeafData list" where
  "get_revocation_secret_keys L db h =
     List.map_filter (\<lambda>r. case revocation_secret_key r of
         None \<Rightarrow> None
       | Some b \<Rightarrow> map_option (\<lambda>k. \<lparr>token_tx_leaf_index = (case spend_vout r of None \<Rightarrow> 0 | Some i \<Rightarrow> i),
             revocation_secret = Some k\<rparr>) (secret_from_slice L b))
       (filter (\<lambda>r. spend_txid r = Some h) (spark_outputs db))"

text \<open>The operator signatures of a transaction, paired with the user signatures by position; the
  first one carries the secrets. The signature column is never null.\<close>

definition get_spark_signatures :: "lib \<Rightarrow> SparkDb \<Rightarrow> hash256 \<Rightarrow> DbErr + SparkSignatureData list" where
  "get_spark_signatures L db h =
     (let ops = filter (\<lambda>r. os_tx_hash r = h) (operator_signatures db);
          users = filter (\<lambda>r. us_tx_hash r = h) (user_signatures db);
          secrets = get_revocation_secret_keys L db h in
      mapM (\<lambda>(i, op). convert_signature_models_to_spark_signature_data L op
              (if i < length users then Some (users ! i) else None)
              (if i = 0 then secrets else []))
        (enumerate 0 ops))"

text \<open>A page of transactions: the numbers of the kinds that name none are skipped, and no valid
  number at all means every kind.\<close>

definition operation_type_of :: "i32 \<Rightarrow> OperationType option" where
  "operation_type_of n =
     (if n = 0 then Some UserTransfer else if n = 1 then Some UserBurn
      else if n = 2 then Some IssuerAnnounce else if n = 3 then Some IssuerMint
      else if n = 4 then Some IssuerTransfer else if n = 5 then Some IssuerFreeze
      else if n = 6 then Some IssuerUnfreeze else if n = 7 then Some IssuerBurn else None)"

definition page_of_transactions ::
  "SparkDb \<Rightarrow> hash256 option \<Rightarrow> nat \<Rightarrow> i32 list \<Rightarrow> spark_transaction_row list" where
  "page_of_transactions db page_token page_size operation_types =
     (let types = List.map_filter operation_type_of operation_types in
      take page_size (filter (\<lambda>r. (case page_token of None \<Rightarrow> True | Some h \<Rightarrow> h < st_tx_hash r)
          \<and> (types = [] \<or> operation_type r \<in> set types))
        (sort_key st_tx_hash (spark_transactions db))))"

definition get_token_transactions_by_page ::
  "lib \<Rightarrow> SparkDb \<Rightarrow> hash256 option \<Rightarrow> nat \<Rightarrow> bytes option \<Rightarrow> bytes option \<Rightarrow> i32 list \<Rightarrow>
     DbErr fault + TokenTransaction list" where
  "get_token_transactions_by_page L db page_token page_size owner token operation_types =
     rbind (mapM (\<lambda>tx.
         let h = st_tx_hash tx;
             outputs = filter (\<lambda>r. (case owner of None \<Rightarrow> True | Some k \<Rightarrow> so_owner_pubkey r = k)
                 \<and> (case token of None \<Rightarrow> True | Some k \<Rightarrow> so_token_pubkey r = k)) (outputs_of db h) in
         if (owner \<noteq> None \<or> token \<noteq> None) \<and> outputs = [] then Inr None
         else create_token_transaction L tx (operators_of db h) (inputs_of db h) outputs
           (if operation_type tx = IssuerMint then find (\<lambda>r. si_tx_hash r = h) (spark_issues db) else None))
       (page_of_transactions db page_token page_size operation_types)) (\<lambda>txs.
     let result = List.map_filter (\<lambda>x. x) txs in
     Inr (if page_size < length result then take (page_size + 1) result else result))"

definition get_issue_leaves_by_token_pubkey :: "lib \<Rightarrow> SparkDb \<Rightarrow> bytes \<Rightarrow> DbErr + TokenLeafOutput list" where
  "get_issue_leaves_by_token_pubkey L db token =
     mapM (convert_model_to_spark_output L)
       (filter (\<lambda>r. so_token_pubkey r = token
           \<and> (case get_spark_transaction_model_by_hash db (so_tx_hash r) of
                None \<Rightarrow> False | Some tx \<Rightarrow> operation_type tx = IssuerMint)) (spark_outputs db))"

text \<open>Rows of freezes and burns.\<close>

record spark_freeze_row =
  sf_tx_hash :: hash256
  sf_issuer_pubkey :: bytes
  sf_user_pubkey :: bytes
  sf_issuer_provided_timestamp :: i64
  sf_operator_identity_pubkey :: bytes
  sf_should_unfreeze :: bool
  sf_issuer_signature :: bytes

record SparkBurn =
  burn_tx_hash :: bytes
  burn_vout :: i16
  burn_token_pubkey :: PublicKey
  burn_amount :: u128

record spark_burn_row =
  sb_tx_hash :: bytes
  sb_vout :: i32
  sb_token_pubkey :: bytes
  sb_amount :: bytes

definition convert_spark_freeze_to_active_model :: "TokensFreezeData \<Rightarrow> hash256 \<Rightarrow> spark_freeze_row" where
  "convert_spark_freeze_to_active_model d h =
     \<lparr>sf_tx_hash = h, sf_issuer_pubkey = pk_serialize (freeze_owner_public_key d),
      sf_user_pubkey = TokenPubkey_to_bytes (freeze_token_public_key d),
      sf_issuer_provided_timestamp = freeze_timestamp d,
      sf_operator_identity_pubkey = pk_serialize (freeze_operator_identity_public_key d),
      sf_should_unfreeze = should_unfreeze d,
      sf_issuer_signature = SparkSignature_bytes (freeze_issuer_signature d)\<rparr>"

definition convert_model_to_spark_freeze :: "lib \<Rightarrow> spark_freeze_row \<Rightarrow> DbErr + TokensFreezeData" where
  "convert_model_to_spark_freeze L r =
     rbind (ok_or (pk_from_slice L (sf_issuer_pubkey r)) ConversionFailed) (\<lambda>issuer.
     rbind (map_err (\<lambda>_. ConversionFailed) (TokenPubkey_from_bytes L (sf_user_pubkey r))) (\<lambda>token.
     rbind (ok_or (pk_from_slice L (sf_operator_identity_pubkey r)) ConversionFailed) (\<lambda>operator.
     rbind (try_from_slice L (sf_issuer_signature r)) (\<lambda>s.
     Inr \<lparr>freeze_operator_identity_public_key = operator, freeze_owner_public_key = issuer,
          freeze_token_public_key = token, should_unfreeze = sf_should_unfreeze r,
          freeze_issuer_signature = s, freeze_timestamp = sf_issuer_provided_timestamp r\<rparr>))))"

definition convert_spark_burn_to_active_model :: "SparkBurn \<Rightarrow> spark_burn_row" where
  "convert_spark_burn_to_active_model b =
     \<lparr>sb_tx_hash = burn_tx_hash b, sb_vout = ucast (burn_vout b),
      sb_token_pubkey = pk_serialize (burn_token_pubkey b), sb_amount = to_dec_string (burn_amount b)\<rparr>"

definition convert_model_to_spark_burn :: "lib \<Rightarrow> spark_burn_row \<Rightarrow> DbErr + SparkBurn" where
  "convert_model_to_spark_burn L r =
     rbind (ok_or (pk_from_slice L (sb_token_pubkey r)) ConversionFailed) (\<lambda>token.
     rbind (require (is_utf8 (sb_amount r)) ConversionFailed) (\<lambda>_.
     rbind (ok_or (parse_dec (sb_amount r)) ConversionFailed) (\<lambda>amount.
     Inr \<lparr>burn_tx_hash = sb_tx_hash r, burn_vout = ucast (sb_vout r),
          burn_token_pubkey = token, burn_amount = amount\<rparr>)))"

section \<open>Decimal numbers: lemmas\<close>

lemma unat_digit: "k < 10 \<Longrightarrow> unat (of_nat (48 + k) :: u8) = 48 + k"
  unfolding unat_of_nat by simp

lemma is_digit_iff: "is_digit b \<longleftrightarrow> 48 \<le> unat b \<and> unat b \<le> 57"
  by (simp add: is_digit_def in_range_def word_le_nat_alt)

lemma is_digit_of: "k < 10 \<Longrightarrow> is_digit (of_nat (48 + k))"
  unfolding is_digit_iff by (subst (1 2) unat_digit) simp_all

lemma dec_digits_nonempty [simp]: "dec_digits n \<noteq> []"
  by (subst dec_digits.simps) simp

lemma dec_digits_all: "list_all is_digit (dec_digits n)"
proof (induction n rule: dec_digits.induct)
  case (1 n)
  then show ?case
    unfolding dec_digits.simps [of n] by (simp add: is_digit_of del: of_nat_add)
qed

lemma digits_value_dec: "digits_value (dec_digits n) = n"
proof (induction n rule: dec_digits.induct)
  case (1 n)
  show ?case
  proof (cases "n < 10")
    case True
    then show ?thesis
      unfolding dec_digits.simps [of n] by (simp add: digits_value_def unat_digit del: of_nat_add)
  next
    case False
    with 1 have "digits_value (dec_digits (n div 10)) = n div 10" by simp
    with False show ?thesis
      unfolding dec_digits.simps [of n] by (simp add: digits_value_def unat_digit del: of_nat_add)
  qed
qed

lemma digit_not_plus: "list_all is_digit ds \<Longrightarrow> ds \<noteq> [] \<Longrightarrow> hd ds \<noteq> 43"
  by (cases ds) (auto simp: is_digit_iff)

lemma parse_dec_string [simp, codec_simps]: "parse_dec (to_dec_string w) = Some (w :: 'a::len word)"
proof -
  have "unat w < 2 ^ LENGTH('a)" by (rule unat_bound)
  moreover have "hd (dec_digits (unat w)) \<noteq> 43"
    by (rule digit_not_plus [OF dec_digits_all]) simp
  ultimately show ?thesis
    by (simp add: parse_dec_def to_dec_string_def dec_digits_all digits_value_dec Let_def)
qed

lemma is_utf8_digits: "list_all is_digit ds \<Longrightarrow> is_utf8 ds"
proof (induction ds)
  case (Cons d ds)
  then have "d < 0x80"
    by (simp add: is_digit_iff word_less_nat_alt)
  with Cons show ?case by simp
qed simp

lemma is_utf8_dec [simp]: "is_utf8 (to_dec_string w)"
  by (simp add: to_dec_string_def is_utf8_digits dec_digits_all)

section \<open>Reading back an output\<close>

text \<open>The outputs that the tables can hold: valid keys, a bond that fits in 31 bits, and
  nothing in the fields that are not stored.\<close>

definition storable_output :: "lib \<Rightarrow> TokenLeafOutput \<Rightarrow> bool" where
  "storable_output L out \<longleftrightarrow>
     valid_key L (owner_public_key out) \<and> valid_key L (revocation_public_key out)
     \<and> valid_key L (pubkey (token_pubkey (leaf_receipt out)))
     \<and> unat (withdrawal_bond_sats out) < 2 ^ 31
     \<and> blinding_factor (token_amount (leaf_receipt out)) = 0
     \<and> withdraw_height out = None"

lemma sint_small:
  assumes "uint (w :: i32) < 2 ^ 31"
  shows "sint w = uint w"
proof -
  have "(0 :: int) \<le> uint w" by simp
  then have "- (2 ^ 31) \<le> uint w"
    by (rule order_trans [rotated]) simp
  then have "signed_take_bit 31 (uint w) = uint w"
    using assms by (rule signed_take_bit_int_eq_self)
  then show ?thesis
    by (simp add: sint_uint)
qed

lemma uint_bond: "uint (b :: u64) < 2 ^ 31 \<Longrightarrow> uint (ucast b :: i32) = uint b"
  unfolding ucast_eq uint_word_of_int by simp

lemma bond_roundtrip:
  assumes "unat (b :: u64) < 2 ^ 31"
  shows "scast (ucast b :: i32) = b"
proof -
  have "int (unat b) < int (2 ^ 31)"
    using assms by (simp only: of_nat_less_iff)
  then have b: "uint b < 2 ^ 31"
    by (simp only: uint_nat of_nat_power of_nat_numeral)
  have "sint (ucast b :: i32) = uint b"
    using b by (simp only: sint_small uint_bond)
  then show ?thesis
    by (simp only: scast_eq word_of_int_uint)
qed

lemma sint_of_nat_small:
  assumes "n < 2 ^ 31"
  shows "sint (of_nat n :: i32) = int n"
proof -
  have "uint (word_of_int (int n) :: i32) = int n"
    unfolding uint_word_of_int using assms by simp
  then have "uint (of_nat n :: i32) = int n"
    by simp
  moreover have "int n < 2 ^ 31" using assms by simp
  ultimately show ?thesis
    by (simp only: sint_small)
qed

lemma token_pubkey_stored [simp]:
  "valid_key L (pubkey t) \<Longrightarrow> TokenPubkey_from_bytes L (TokenPubkey_to_bytes t) = Inr t"
  by (cases t) (simp add: TokenPubkey_from_bytes_def TokenPubkey_to_bytes_def TOKEN_PUBKEY_SIZE_def)

lemma stored_output_read:
  assumes "storable_output L out"
  shows "convert_model_to_spark_output L (convert_spark_output_to_active_model h i out) = Inr out"
proof -
  have "TokenAmount_from (amount (token_amount (leaf_receipt out))) = token_amount (leaf_receipt out)"
    using assms by (simp add: storable_output_def TokenAmount_from_def)
  then show ?thesis
    using assms
    by (simp add: convert_model_to_spark_output_def convert_spark_output_to_active_model_def
        storable_output_def bond_roundtrip del: power_numeral)
qed

lemma convert_ignores_spend [simp]:
  "convert_model_to_spark_output L (r\<lparr>spend_txid := a, spend_vout := b\<rparr>) = convert_model_to_spark_output L r"
  by (simp add: convert_model_to_spark_output_def)

lemma spark_freeze_row_roundtrip:
  assumes "valid_key L (freeze_owner_public_key d)" "valid_key L (freeze_operator_identity_public_key d)"
    "valid_key L (pubkey (freeze_token_public_key d))"
    "try_from_slice L (SparkSignature_bytes (freeze_issuer_signature d)) = Inr (freeze_issuer_signature d)"
  shows "convert_model_to_spark_freeze L (convert_spark_freeze_to_active_model d h) = Inr d"
  using assms by (simp add: convert_model_to_spark_freeze_def convert_spark_freeze_to_active_model_def)

lemma spark_burn_row_roundtrip:
  assumes "valid_key L (burn_token_pubkey b)"
  shows "convert_model_to_spark_burn L (convert_spark_burn_to_active_model b) = Inr b"
proof -
  have "ucast (ucast (burn_vout b) :: i32) = burn_vout b"
    by (rule bit_word_eqI) (simp add: bit_simps)
  with assms show ?thesis
    by (simp add: convert_model_to_spark_burn_def convert_spark_burn_to_active_model_def)
qed

section \<open>Invariant of the tables\<close>

text \<open>What the constraints and the insertions keep: hashes, identifiers and positions of
  outputs are unique, and everything belongs to a stored transaction.\<close>

definition stored_hashes :: "SparkDb \<Rightarrow> hash256 set" where
  "stored_hashes db = st_tx_hash ` set (spark_transactions db)"

definition outpoint :: "spark_output_row \<Rightarrow> hash256 \<times> i32" where
  "outpoint r = (so_tx_hash r, so_vout r)"

definition spender :: "spark_output_row \<Rightarrow> hash256 option \<times> i32 option" where
  "spender r = (spend_txid r, spend_vout r)"

definition spark_db_inv :: "SparkDb \<Rightarrow> bool" where
  "spark_db_inv db \<longleftrightarrow>
     distinct (map st_tx_hash (spark_transactions db))
   \<and> distinct (map outpoint (spark_outputs db))
   \<and> distinct (map spark_id (spark_outputs db))
   \<and> distinct (map si_tx_hash (spark_issues db))
   \<and> (\<forall>r \<in> set (spark_outputs db). so_tx_hash r \<in> stored_hashes db
         \<and> (\<forall>h. spend_txid r = Some h \<longrightarrow> h \<in> stored_hashes db))
   \<and> fst ` set (operator_pubkeys db) \<subseteq> stored_hashes db
   \<and> si_tx_hash ` set (spark_issues db) \<subseteq> stored_hashes db"

definition SparkDb_empty :: SparkDb where
  "SparkDb_empty = \<lparr>spark_transactions = [], spark_outputs = [], operator_pubkeys = [],
     operator_signatures = [], user_signatures = [], spark_issues = []\<rparr>"

lemma spark_db_inv_empty: "spark_db_inv SparkDb_empty"
  by (simp add: spark_db_inv_def SparkDb_empty_def)

lemma map_update_first:
  "(\<And>r. g (f r) = g r) \<Longrightarrow> map g (update_first P f rs) = map g rs"
  by (induction rs) simp_all

lemma set_update_first: "x \<in> set (update_first P f rs) \<Longrightarrow> x \<in> set rs \<or> (\<exists>r \<in> set rs. P r \<and> x = f r)"
  by (induction rs) (auto split: if_splits)

lemma outputs_update_inv:
  assumes inv: "spark_db_inv db"
    and f: "\<And>r. outpoint (f r) = outpoint r" "\<And>r. spark_id (f r) = spark_id r"
      "\<And>r h. spend_txid (f r) = Some h \<Longrightarrow> h \<in> stored_hashes db \<or> spend_txid r = Some h"
  shows "spark_db_inv (db\<lparr>spark_outputs := update_first P f (spark_outputs db)\<rparr>)"
proof -
  have hash: "so_tx_hash (f r) = so_tx_hash r" for r
    using f(1) [of r] by (simp add: outpoint_def)
  have "so_tx_hash r \<in> stored_hashes db \<and> (\<forall>h. spend_txid r = Some h \<longrightarrow> h \<in> stored_hashes db)"
    if "r \<in> set (update_first P f (spark_outputs db))" for r
  proof -
    have old: "so_tx_hash x \<in> stored_hashes db \<and> (\<forall>h. spend_txid x = Some h \<longrightarrow> h \<in> stored_hashes db)"
      if "x \<in> set (spark_outputs db)" for x
      using inv that by (simp add: spark_db_inv_def)
    from set_update_first [OF that] show ?thesis
      using old f(3) hash by metis
  qed
  with inv show ?thesis
    by (simp add: spark_db_inv_def stored_hashes_def map_update_first f)
qed

lemma insert_transaction_row_inv:
  assumes "spark_db_inv db" and "insert_transaction_row r db = Inr db'"
  shows "spark_db_inv db' \<and> stored_hashes db' = insert (st_tx_hash r) (stored_hashes db)
     \<and> st_tx_hash r \<notin> stored_hashes db"
proof -
  have db': "db' = db\<lparr>spark_transactions := spark_transactions db @ [r]\<rparr>"
      and new: "st_tx_hash r \<notin> stored_hashes db"
    using assms(2) by (auto simp: insert_transaction_row_def stored_hashes_def split: if_splits)
  then have h: "stored_hashes db' = insert (st_tx_hash r) (stored_hashes db)"
    by (simp add: stored_hashes_def)
  have "distinct (map st_tx_hash (spark_transactions db'))"
    using assms(1) new by (simp add: db' spark_db_inv_def stored_hashes_def)
  with assms(1) new h show ?thesis
    unfolding spark_db_inv_def h by (simp add: db') blast
qed

lemma insert_output_row_inv:
  assumes "spark_db_inv db" and "spend_txid r = None" and "insert_output_row r db = Inr db'"
  shows "spark_db_inv db' \<and> stored_hashes db' = stored_hashes db"
proof -
  have db': "db' = db\<lparr>spark_outputs := spark_outputs db @ [r]\<rparr>"
      and new: "spark_id r \<notin> spark_id ` set (spark_outputs db)" "outpoint r \<notin> outpoint ` set (spark_outputs db)"
        "so_tx_hash r \<in> stored_hashes db"
    using assms(3) by (auto simp: insert_output_row_def stored_hashes_def outpoint_def image_iff split: if_splits) metis
  then have h: "stored_hashes db' = stored_hashes db"
    by (simp add: stored_hashes_def)
  show ?thesis
    using assms(1,2) new unfolding spark_db_inv_def h by (simp add: db')
qed

lemma insert_operator_pubkey_inv:
  assumes "spark_db_inv db" and "h \<in> stored_hashes db"
  shows "spark_db_inv (insert_operator_pubkey h k db)
    \<and> stored_hashes (insert_operator_pubkey h k db) = stored_hashes db"
proof -
  have h: "stored_hashes (insert_operator_pubkey h k db) = stored_hashes db"
    by (simp add: stored_hashes_def insert_operator_pubkey_def)
  show ?thesis
    using assms unfolding spark_db_inv_def h by (simp add: insert_operator_pubkey_def)
qed

lemma insert_issue_row_inv:
  assumes "spark_db_inv db" and "si_tx_hash r \<in> stored_hashes db" and "insert_issue_row r db = Inr db'"
  shows "spark_db_inv db'"
proof -
  have db': "db' = db\<lparr>spark_issues := spark_issues db @ [r]\<rparr>"
      and new: "si_tx_hash r \<notin> si_tx_hash ` set (spark_issues db)"
    using assms(3) by (auto simp: insert_issue_row_def split: if_splits)
  then have h: "stored_hashes db' = stored_hashes db"
    by (simp add: stored_hashes_def)
  show ?thesis
    using assms(1,2) new unfolding spark_db_inv_def h by (simp add: db')
qed

lemma insert_spent_output_inv:
  assumes "spark_db_inv db" and "h \<in> stored_hashes db" and "insert_spent_output p v h i db = Inr db'"
  shows "spark_db_inv db' \<and> stored_hashes db' = stored_hashes db"
proof -
  have "db' = db\<lparr>spark_outputs := update_first (output_at p v)
      (\<lambda>r. r\<lparr>spend_txid := Some h, spend_vout := Some i\<rparr>) (spark_outputs db)\<rparr>"
    using assms(3) by (auto simp: insert_spent_output_def split: if_splits)
  then show ?thesis
    using outputs_update_inv [OF assms(1), of "\<lambda>r. r\<lparr>spend_txid := Some h, spend_vout := Some i\<rparr>"] assms(2)
    by (simp add: outpoint_def stored_hashes_def)
qed


lemma insert_outputs_inv:
  assumes "spark_db_inv db" and "foldM (\<lambda>db r. insert_output_row r db) db rs = Inr db'"
    and "\<And>r. r \<in> set rs \<Longrightarrow> spend_txid r = None"
  shows "spark_db_inv db' \<and> stored_hashes db' = stored_hashes db \<and> spark_outputs db' = spark_outputs db @ rs
    \<and> spark_transactions db' = spark_transactions db \<and> operator_pubkeys db' = operator_pubkeys db
    \<and> spark_issues db' = spark_issues db"
  using assms
proof (induction rs arbitrary: db)
  case (Cons r rs)
  from Cons.prems(2) obtain db1 where db1: "insert_output_row r db = Inr db1"
      "foldM (\<lambda>db r. insert_output_row r db) db1 rs = Inr db'"
    by (auto simp: rbind_Inr_iff)
  then have "db1 = db\<lparr>spark_outputs := spark_outputs db @ [r]\<rparr>"
    by (auto simp: insert_output_row_def split: if_splits)
  moreover have "spark_db_inv db1 \<and> stored_hashes db1 = stored_hashes db"
    using insert_output_row_inv [OF Cons.prems(1) _ db1(1)] Cons.prems(3) by simp
  ultimately show ?case
    using Cons.IH [OF _ db1(2)] Cons.prems(3) by simp
qed simp

lemma insert_operators_inv:
  assumes "spark_db_inv db" and "h \<in> stored_hashes db"
  shows "spark_db_inv (fold (insert_operator_pubkey h) ks db)
    \<and> stored_hashes (fold (insert_operator_pubkey h) ks db) = stored_hashes db
    \<and> spark_outputs (fold (insert_operator_pubkey h) ks db) = spark_outputs db
    \<and> spark_transactions (fold (insert_operator_pubkey h) ks db) = spark_transactions db
    \<and> spark_issues (fold (insert_operator_pubkey h) ks db) = spark_issues db"
  using assms
proof (induction ks arbitrary: db)
  case (Cons k ks)
  then show ?case
    using insert_operator_pubkey_inv [OF Cons.prems] by (simp add: insert_operator_pubkey_def)
qed simp

lemma insert_operators_new:
  assumes "h \<notin> fst ` set (operator_pubkeys db)" and "distinct ks"
  shows "operator_pubkeys (fold (insert_operator_pubkey h) ks db) = operator_pubkeys db @ map (Pair h) ks"
proof -
  have "operator_pubkeys (fold (insert_operator_pubkey h) ks db) = operator_pubkeys db @ map (Pair h) ks"
    if "\<And>k. k \<in> set ks \<Longrightarrow> (h, k) \<notin> set (operator_pubkeys db)" "distinct ks" for db
    using that
  proof (induction ks arbitrary: db)
    case (Cons k ks)
    let ?db = "db\<lparr>operator_pubkeys := operator_pubkeys db @ [(h, k)]\<rparr>"
    have "insert_operator_pubkey h k db = ?db"
      using Cons.prems by (simp add: insert_operator_pubkey_def)
    moreover have "\<And>x. x \<in> set ks \<Longrightarrow> (h, x) \<notin> set (operator_pubkeys ?db)"
      using Cons.prems by auto
    ultimately show ?case
      using Cons.IH [of ?db] Cons.prems(2) by simp
  qed simp
  moreover have "(h, k) \<notin> set (operator_pubkeys db)" for k
    using assms(1) by force
  ultimately show ?thesis
    using assms(2) by simp
qed

text \<open>Spending a list of outputs marks each with the position at which it is spent.\<close>

definition leaf_at :: "TokenLeafToSpend \<Rightarrow> hash256 \<times> i32" where
  "leaf_at l = (parent_output_hash l, parent_output_vout l)"

definition mark_spent :: "hash256 \<Rightarrow> i32 \<Rightarrow> spark_output_row \<Rightarrow> spark_output_row" where
  "mark_spent h i r = r\<lparr>spend_txid := Some h, spend_vout := Some i\<rparr>"

lemma mark_spent_fields [simp]:
  "outpoint (mark_spent h i r) = outpoint r"
  "so_tx_hash (mark_spent h i r) = so_tx_hash r"
  "so_vout (mark_spent h i r) = so_vout r"
  "spend_txid (mark_spent h i r) = Some h"
  "spend_vout (mark_spent h i r) = Some i"
  "spark_id (mark_spent h i r) = spark_id r"
  "convert_model_to_spark_output L (mark_spent h i r) = convert_model_to_spark_output L r"
  by (simp_all add: mark_spent_def outpoint_def)

lemma output_at_outpoint: "output_at p v r \<longleftrightarrow> outpoint r = (p, v)"
  by (simp add: output_at_def outpoint_def)

lemma update_first_unique:
  "distinct (map g rs) \<Longrightarrow> update_first (\<lambda>r. g r = x) f rs = map (\<lambda>r. if g r = x then f r else r) rs"
proof (induction rs)
  case (Cons r rs)
  then show ?case
    by (auto intro!: map_idI [symmetric] simp: image_iff) 
qed simp


definition mark_from :: "hash256 \<Rightarrow> nat \<Rightarrow> TokenLeafToSpend list \<Rightarrow> spark_output_row \<Rightarrow> spark_output_row" where
  "mark_from h n ls r =
     (case map_of (zip (map leaf_at ls) [n..<n + length ls]) (outpoint r) of
        None \<Rightarrow> r | Some i \<Rightarrow> mark_spent h (of_nat i) r)"

lemma mark_from_Nil [simp]: "mark_from h n [] = (\<lambda>r. r)"
  by (simp add: mark_from_def fun_eq_iff)

lemma mark_from_Cons:
  assumes "leaf_at l \<notin> leaf_at ` set ls"
  shows "mark_from h n (l # ls) r =
    mark_from h (Suc n) ls (if outpoint r = leaf_at l then mark_spent h (of_nat n) r else r)"
proof -
  have "[n..<n + length (l # ls)] = n # [Suc n..<Suc n + length ls]"
    by (simp add: upt_conv_Cons del: upt_Suc)
  then have "map_of (zip (map leaf_at (l # ls)) [n..<n + length (l # ls)]) =
      (map_of (zip (map leaf_at ls) [Suc n..<Suc n + length ls]))(leaf_at l \<mapsto> n)"
    by (simp del: upt_Suc)
  moreover have "map_of (zip (map leaf_at ls) [Suc n..<Suc n + length ls]) (leaf_at l) = None"
    using assms by (simp add: map_of_zip_is_None)
  ultimately show ?thesis
    by (simp add: mark_from_def)
qed

lemma mark_from_fields [simp]:
  "outpoint (mark_from h n ls r) = outpoint r"
  "so_tx_hash (mark_from h n ls r) = so_tx_hash r"
  "so_vout (mark_from h n ls r) = so_vout r"
  "spark_id (mark_from h n ls r) = spark_id r"
  "convert_model_to_spark_output L (mark_from h n ls r) = convert_model_to_spark_output L r"
  by (simp_all add: mark_from_def split: option.split)

lemma insert_spent_output_Inr:
  assumes "insert_spent_output p v h i db = Inr db'" and "distinct (map outpoint (spark_outputs db))"
  shows "db' = db\<lparr>spark_outputs := map (\<lambda>r. if outpoint r = (p, v) then mark_spent h i r else r) (spark_outputs db)\<rparr>
    \<and> (p, v) \<in> outpoint ` set (spark_outputs db)"
proof -
  have "output_at p v = (\<lambda>r. outpoint r = (p, v))"
    by (simp add: fun_eq_iff output_at_outpoint)
  then show ?thesis
    using assms by (auto simp: insert_spent_output_def update_first_unique mark_spent_def list_ex_iff image_iff
        split: if_splits) metis
qed

lemma insert_spent_outputs_from:
  assumes "foldM (\<lambda>db (i, l). insert_spent_output (parent_output_hash l) (parent_output_vout l) h (of_nat i) db)
      db (enumerate n ls) = Inr db'"
    and "distinct (map outpoint (spark_outputs db))" and "distinct (map leaf_at ls)"
  shows "db' = db\<lparr>spark_outputs := map (mark_from h n ls) (spark_outputs db)\<rparr>
    \<and> leaf_at ` set ls \<subseteq> outpoint ` set (spark_outputs db)"
  using assms
proof (induction ls arbitrary: n db)
  case (Cons l ls)
  let ?f = "\<lambda>r. if outpoint r = leaf_at l then mark_spent h (of_nat n) r else r"
  from Cons.prems(1) obtain db1 where db1:
      "insert_spent_output (parent_output_hash l) (parent_output_vout l) h (of_nat n) db = Inr db1"
      "foldM (\<lambda>db (i, l). insert_spent_output (parent_output_hash l) (parent_output_vout l) h (of_nat i) db)
        db1 (enumerate (Suc n) ls) = Inr db'"
    by (auto simp: rbind_Inr_iff)
  have first: "db1 = db\<lparr>spark_outputs := map ?f (spark_outputs db)\<rparr>"
      "leaf_at l \<in> outpoint ` set (spark_outputs db)"
    using insert_spent_output_Inr [OF db1(1) Cons.prems(2)] by (simp_all add: leaf_at_def)
  have same: "map outpoint (spark_outputs db1) = map outpoint (spark_outputs db)"
    by (simp add: first(1) if_distrib)
  then have pts: "outpoint ` set (spark_outputs db1) = outpoint ` set (spark_outputs db)"
    by (metis set_map)
  have "leaf_at l \<notin> leaf_at ` set ls"
    using Cons.prems(3) by simp
  then have marks: "map (mark_from h (Suc n) ls) (spark_outputs db1) = map (mark_from h n (l # ls)) (spark_outputs db)"
    by (simp add: first(1) mark_from_Cons)
  have "db' = db1\<lparr>spark_outputs := map (mark_from h (Suc n) ls) (spark_outputs db1)\<rparr>
      \<and> leaf_at ` set ls \<subseteq> outpoint ` set (spark_outputs db1)"
    using Cons.prems(2,3) same by (intro Cons.IH [OF db1(2)]) simp_all
  then show ?case
    unfolding marks pts using first by simp
qed simp

lemma insert_spent_outputs_Inr:
  "insert_spent_outputs h ls db = Inr db' \<Longrightarrow> spark_db_inv db \<Longrightarrow> distinct (map leaf_at ls) \<Longrightarrow>
     db' = db\<lparr>spark_outputs := map (mark_from h 0 ls) (spark_outputs db)\<rparr>
     \<and> leaf_at ` set ls \<subseteq> outpoint ` set (spark_outputs db)"
  using insert_spent_outputs_from [of h db 0 ls db']
  by (simp add: insert_spent_outputs_def spark_db_inv_def)


section \<open>Reading back a transaction\<close>

definition storable_signature :: "lib \<Rightarrow> SparkSignature \<Rightarrow> bool" where
  "storable_signature L s =
     (typed_signature L (Some (signature_type s)) (SparkSignature_bytes s) = Inr s)"

fun storable_input :: "lib \<Rightarrow> TokenTransactionInput \<Rightarrow> bool" where
  "storable_input L (Mint k s ts) =
     (valid_key L k \<and> (case s of None \<Rightarrow> False | Some sd \<Rightarrow>
        input_index sd = Some 0 \<and> storable_signature L (owner_signature sd)
        \<and> (case operator_identity_public_key sd of None \<Rightarrow> True | Some o' \<Rightarrow> valid_key L o')))"
| "storable_input L (SparkTransfer ls) = (distinct (map leaf_at ls) \<and> length ls < 2 ^ 31)"

text \<open>The transactions that the tables can hold.\<close>

definition storable_tx :: "lib \<Rightarrow> TokenTransaction \<Rightarrow> bool" where
  "storable_tx L tx \<longleftrightarrow>
     leaves_to_create tx \<noteq> [] \<and> length (leaves_to_create tx) < 2 ^ 31
   \<and> list_all (storable_output L) (leaves_to_create tx)
   \<and> distinct (spark_operator_identity_public_keys tx)
   \<and> list_all (valid_key L) (spark_operator_identity_public_keys tx)
   \<and> storable_input L (spark_input tx)"

lemma sort_key_sorted: "sorted (map f xs) \<Longrightarrow> sort_key f xs = xs"
  by (rule properties_for_sort_key) simp_all

lemma output_models_hash:
  "r \<in> set (create_output_models_from_token_tx L tx) \<Longrightarrow>
     so_tx_hash r = TokenTransaction_hash L tx \<and> spend_txid r = None"
  by (auto simp: create_output_models_from_token_tx_def convert_spark_output_to_active_model_def)

lemma output_models_sorted:
  assumes "length (leaves_to_create tx) < 2 ^ 31"
  shows "sorted (map (\<lambda>r. sint (so_vout r)) (create_output_models_from_token_tx L tx))"
proof -
  have "map (\<lambda>r. sint (so_vout r)) (create_output_models_from_token_tx L tx) =
      map (\<lambda>p. sint (of_nat (fst p) :: i32)) (enumerate 0 (leaves_to_create tx))"
    by (simp add: create_output_models_from_token_tx_def convert_spark_output_to_active_model_def
        comp_def case_prod_beta)
  also have "\<dots> = map (\<lambda>p. int (fst p)) (enumerate 0 (leaves_to_create tx))"
  proof (rule map_cong [OF refl])
    fix p assume "p \<in> set (enumerate 0 (leaves_to_create tx))"
    then have "fst p < length (leaves_to_create tx)"
      by (simp add: in_set_enumerate_eq)
    with assms have "fst p < 2 ^ 31" by (rule order_less_trans [rotated])
    then show "sint (of_nat (fst p) :: i32) = int (fst p)"
      by (rule sint_of_nat_small)
  qed
  also have "\<dots> = map int (map fst (enumerate 0 (leaves_to_create tx)))"
    unfolding map_map comp_def ..
  also have "\<dots> = map int [0..<length (leaves_to_create tx)]"
    unfolding map_fst_enumerate by simp
  finally have "map (\<lambda>r. sint (so_vout r)) (create_output_models_from_token_tx L tx) =
      map int [0..<length (leaves_to_create tx)]" .
  moreover have "sorted (map int [0..<length (leaves_to_create tx)])"
    by (simp add: sorted_wrt_map sorted_wrt_iff_nth_less)
  ultimately show ?thesis
    by (simp only:)
qed

lemma stored_outputs:
  assumes "spark_outputs db = old @ map m (create_output_models_from_token_tx L tx)"
    and "\<And>r. r \<in> set old \<Longrightarrow> so_tx_hash r \<noteq> TokenTransaction_hash L tx"
    and m: "\<And>r. so_tx_hash (m r) = so_tx_hash r" "\<And>r. so_vout (m r) = so_vout r"
      "\<And>r. convert_model_to_spark_output L (m r) = convert_model_to_spark_output L r"
    and len: "length (leaves_to_create tx) < 2 ^ 31" and leaves: "list_all (storable_output L) (leaves_to_create tx)"
  shows "mapM (convert_model_to_spark_output L) (outputs_of db (TokenTransaction_hash L tx)) = Inr (leaves_to_create tx)"
proof -
  let ?rows = "create_output_models_from_token_tx L tx"
  have "filter (\<lambda>r. so_tx_hash r = TokenTransaction_hash L tx) (spark_outputs db) = map m ?rows"
    using assms(1,2) m(1) output_models_hash [of _ L tx] by (auto simp: filter_empty_conv filter_id_conv)
  moreover have "sorted (map (\<lambda>r. sint (so_vout r)) (map m ?rows))"
    using output_models_sorted [OF len, of L] by (simp add: comp_def m(2))
  ultimately have rows: "outputs_of db (TokenTransaction_hash L tx) = map m ?rows"
    by (simp add: outputs_of_def sort_key_sorted)
  have "list_all2 (\<lambda>r out. convert_model_to_spark_output L r = Inr out) (map m ?rows) (leaves_to_create tx)"
    using leaves
    by (auto simp: list_all2_conv_all_nth create_output_models_from_token_tx_def m(3) nth_enumerate_eq
        list_all_length stored_output_read)
  then show ?thesis
    unfolding rows mapM_Inr_iff .
qed


text \<open>The inputs of a transaction: the rows it spends, sorted by position, are the leaves.\<close>

definition row_leaf :: "spark_output_row \<Rightarrow> TokenLeafToSpend" where
  "row_leaf r = \<lparr>parent_output_hash = so_tx_hash r, parent_output_vout = so_vout r\<rparr>"

lemma row_leaf_eq: "outpoint r = leaf_at l \<Longrightarrow> row_leaf r = l"
  by (simp add: outpoint_def leaf_at_def row_leaf_def)

lemma row_leaf_mark_spent [simp]: "row_leaf (mark_spent h i r) = row_leaf r"
  by (simp add: row_leaf_def)

lemma zip_upt_Some:
  assumes "distinct xs"
  shows "map_of (zip xs [0..<length xs]) x = Some i \<longleftrightarrow> i < length xs \<and> xs ! i = x"
proof -
  have "map_of (zip xs [0..<length xs]) x = Some i \<longleftrightarrow> (x, i) \<in> set (zip xs [0..<length xs])"
    using assms by (intro map_of_eq_Some_iff) simp
  also have "\<dots> \<longleftrightarrow> i < length xs \<and> xs ! i = x"
    by (auto simp: in_set_zip)
  finally show ?thesis .
qed

lemma mark_from_spent:
  assumes "distinct (map leaf_at ls)" and "spend_txid r \<noteq> Some h"
  shows "spend_txid (mark_from h 0 ls r) = Some h \<and> r' = mark_from h 0 ls r \<longleftrightarrow>
    (\<exists>i < length ls. outpoint r = leaf_at (ls ! i) \<and> r' = mark_spent h (of_nat i) r)"
proof -
  define pos where "pos = map_of (zip (map leaf_at ls) [0..<length ls]) (outpoint r)"
  have pos: "pos = Some i \<longleftrightarrow> i < length ls \<and> outpoint r = leaf_at (ls ! i)" for i
    unfolding pos_def using zip_upt_Some [OF assms(1), of "outpoint r" i] by auto
  have mark: "mark_from h 0 ls r = (case pos of None \<Rightarrow> r | Some i \<Rightarrow> mark_spent h (of_nat i) r)"
    by (simp only: mark_from_def add_0 pos_def)
  show ?thesis
  proof (cases pos)
    case None
    with pos mark assms(2) show ?thesis by auto
  next
    case (Some i)
    then have i: "i < length ls" "outpoint r = leaf_at (ls ! i)"
      using pos [of i] by simp_all
    have uniq: "j = i" if "j < length ls" "outpoint r = leaf_at (ls ! j)" for j
      using pos [of j] that Some by simp
    have marked: "mark_from h 0 ls r = mark_spent h (of_nat i) r"
      unfolding mark Some by simp
    show ?thesis
    proof
      assume "spend_txid (mark_from h 0 ls r) = Some h \<and> r' = mark_from h 0 ls r"
      then have "r' = mark_spent h (of_nat i) r" by (simp only: marked)
      with i show "\<exists>i < length ls. outpoint r = leaf_at (ls ! i) \<and> r' = mark_spent h (of_nat i) r"
        by (intro exI [of _ i] conjI)
    next
      assume "\<exists>i < length ls. outpoint r = leaf_at (ls ! i) \<and> r' = mark_spent h (of_nat i) r"
      then obtain j where "j < length ls" "outpoint r = leaf_at (ls ! j)" "r' = mark_spent h (of_nat j) r"
        by (elim exE conjE)
      then show "spend_txid (mark_from h 0 ls r) = Some h \<and> r' = mark_from h 0 ls r"
        using uniq [of j] by (simp add: marked)
    qed
  qed
qed

lemma stored_inputs:
  assumes rows: "spark_outputs db = map (mark_from h 0 ls) rows" "distinct (map outpoint rows)"
    "\<And>r. r \<in> set rows \<Longrightarrow> spend_txid r \<noteq> Some h"
    and ls: "leaf_at ` set ls \<subseteq> outpoint ` set rows" "distinct (map leaf_at ls)" "length ls < 2 ^ 31"
  shows "transfer_input (inputs_of db h) = SparkTransfer ls"
proof -
  define row where "row i = the (map_of (map (\<lambda>r. (outpoint r, r)) rows) (leaf_at (ls ! i)))" for i
  have row: "row i \<in> set rows" "outpoint (row i) = leaf_at (ls ! i)" if i: "i < length ls" for i
  proof -
    have "leaf_at (ls ! i) \<in> outpoint ` set rows"
      using ls(1) i by (auto dest!: nth_mem)
    then obtain r where r: "r \<in> set rows" "outpoint r = leaf_at (ls ! i)"
      by (metis imageE)
    then have "map_of (map (\<lambda>r. (outpoint r, r)) rows) (leaf_at (ls ! i)) = Some r"
      using rows(2) by (intro map_of_is_SomeI) (auto simp: comp_def image_iff)
    with r show "row i \<in> set rows" "outpoint (row i) = leaf_at (ls ! i)"
      by (simp_all add: row_def)
  qed
  define M where "M = map (\<lambda>i. mark_spent h (of_nat i) (row i)) [0..<length ls]"
  let ?F = "filter (\<lambda>r. spend_txid r = Some h) (spark_outputs db)"
  let ?key = "\<lambda>r. sint (the (spend_vout r))"
  have "map outpoint M = map leaf_at ls"
    by (rule nth_equalityI) (simp_all add: M_def row(2))
  then have "distinct (map outpoint M)"
    using ls(2) by (simp only:)
  then have dM: "distinct M"
    by (simp add: distinct_map)
  have "map outpoint (spark_outputs db) = map outpoint rows"
    by (simp add: rows(1))
  then have "distinct (map outpoint (spark_outputs db))"
    using rows(2) by (simp only:)
  then have dF: "distinct ?F"
    by (intro distinct_filter) (simp only: distinct_map)
  have inj: "inj_on outpoint (set rows)"
    using rows(2) by (simp only: distinct_map)
  have uniq: "r = row i" if "r \<in> set rows" "i < length ls" "outpoint r = leaf_at (ls ! i)" for r i
    by (rule inj_onD [OF inj]) (simp_all add: that row)
  have same: "set ?F = set M"
  proof (rule set_eqI)
    fix r'
    have "r' \<in> set ?F \<longleftrightarrow> (\<exists>r \<in> set rows. spend_txid (mark_from h 0 ls r) = Some h \<and> r' = mark_from h 0 ls r)"
      by (auto simp: rows(1))
    also have "\<dots> \<longleftrightarrow> (\<exists>r \<in> set rows. \<exists>i < length ls. outpoint r = leaf_at (ls ! i) \<and> r' = mark_spent h (of_nat i) r)"
      by (rule bex_cong [OF refl]) (rule mark_from_spent [OF ls(2) rows(3)])
    also have "\<dots> \<longleftrightarrow> (\<exists>i < length ls. r' = mark_spent h (of_nat i) (row i))"
      using row uniq by blast
    also have "\<dots> \<longleftrightarrow> r' \<in> set M"
      by (auto simp: M_def)
    finally show "r' \<in> set ?F \<longleftrightarrow> r' \<in> set M" .
  qed
  then have mset: "mset ?F = mset M"
    using dF dM by (simp only: set_eq_iff_mset_eq_distinct)
  have keys: "map ?key M = map int [0..<length ls]"
  proof (rule nth_equalityI)
    fix i assume "i < length (map ?key M)"
    then have i: "i < length ls" by (simp add: M_def)
    with ls(3) have "i < 2 ^ 31" by (rule order_less_trans [rotated])
    then have "sint (of_nat i :: i32) = int i" by (rule sint_of_nat_small)
    with i show "map ?key M ! i = map int [0..<length ls] ! i"
      by (simp add: M_def)
  qed (simp add: M_def)
  have "distinct (map ?key M)"
    unfolding keys by (simp add: distinct_map)
  then have "inj_on ?key (set ?F)"
    unfolding same distinct_map by (rule conjunct2)
  moreover have "sorted (map ?key M)"
    unfolding keys by (simp add: sorted_wrt_map sorted_wrt_iff_nth_less)
  ultimately have sorted: "sort_key ?key ?F = M"
    by (rule sort_key_inj_key_eq [OF mset])
  have spent: "spend_vout r \<noteq> None" if "r \<in> set ?F" for r
    using that unfolding same by (auto simp: M_def)
  have "filter (\<lambda>r. spend_vout r \<noteq> None) ?F = ?F" and "filter (\<lambda>r. spend_vout r = None) ?F = []"
    using spent by (simp_all only: filter_id_conv filter_empty_conv) (blast, blast)
  with sorted have "inputs_of db h = M"
    by (simp only: inputs_of_def Let_def append_Nil2)
  moreover have "map row_leaf M = ls"
    by (rule nth_equalityI) (simp_all add: M_def row_leaf_eq row(2))
  ultimately show ?thesis
    by (simp add: transfer_input_def row_leaf_def [symmetric] M_def filter_id_conv)
qed


text \<open>The tables just before the input of a transaction is recorded.\<close>

definition with_outputs :: "lib \<Rightarrow> TokenTransaction \<Rightarrow> SparkDb \<Rightarrow> SparkDb \<Rightarrow> bool" where
  "with_outputs L tx db db' \<longleftrightarrow>
     spark_db_inv db' \<and> TokenTransaction_hash L tx \<notin> stored_hashes db
   \<and> stored_hashes db' = insert (TokenTransaction_hash L tx) (stored_hashes db)
   \<and> spark_transactions db' = spark_transactions db @ [create_spark_model_from_token_tx L tx]
   \<and> spark_outputs db' = spark_outputs db @ create_output_models_from_token_tx L tx
   \<and> (distinct (spark_operator_identity_public_keys tx) \<longrightarrow> operator_pubkeys db' = operator_pubkeys db
        @ map (\<lambda>k. (TokenTransaction_hash L tx, pk_serialize k)) (spark_operator_identity_public_keys tx))
   \<and> spark_issues db' = spark_issues db"

lemma insert_spark_transaction_Inr:
  assumes inv: "spark_db_inv db" and ins: "insert_spark_transaction L tx db = Inr db'"
  obtains db3 where "with_outputs L tx db db3"
    "case spark_input tx of
       Mint issuer s ts \<Rightarrow> rbind (create_spark_issue_model_from_token_tx L tx issuer s ts)
         (\<lambda>r. insert_issue_row r db3) = Inr db'
     | SparkTransfer leaves \<Rightarrow> insert_spent_outputs (TokenTransaction_hash L tx) leaves db3 = Inr db'"
proof -
  let ?h = "TokenTransaction_hash L tx" and ?ks = "map pk_serialize (spark_operator_identity_public_keys tx)"
  let ?rows = "create_output_models_from_token_tx L tx"
  have fold: "fold (\<lambda>k. insert_operator_pubkey ?h (pk_serialize k)) (spark_operator_identity_public_keys tx) db =
      fold (insert_operator_pubkey ?h) ?ks db" for db
    by (simp add: fold_map comp_def)
  obtain db1 db2 where d: "insert_transaction_row (create_spark_model_from_token_tx L tx) db = Inr db1"
      "foldM (\<lambda>db r. insert_output_row r db) db1 ?rows = Inr db2"
      "case spark_input tx of
         Mint issuer s ts \<Rightarrow> rbind (create_spark_issue_model_from_token_tx L tx issuer s ts)
           (\<lambda>r. insert_issue_row r (fold (insert_operator_pubkey ?h) ?ks db2)) = Inr db'
       | SparkTransfer leaves \<Rightarrow> insert_spent_outputs ?h leaves (fold (insert_operator_pubkey ?h) ?ks db2) = Inr db'"
    using ins by (cases "spark_input tx")
      (auto simp: insert_spark_transaction_def rbind_Inr_iff Let_def fold)
  have hash: "st_tx_hash (create_spark_model_from_token_tx L tx) = ?h"
    by (simp add: create_spark_model_from_token_tx_def)
  have db1: "db1 = db\<lparr>spark_transactions := spark_transactions db @ [create_spark_model_from_token_tx L tx]\<rparr>"
    using d(1) by (auto simp: insert_transaction_row_def split: if_splits)
  note i1 = insert_transaction_row_inv [OF inv d(1), unfolded hash]
  note i2 = insert_outputs_inv [OF conjunct1 [OF i1] d(2)]
  have "spark_db_inv db2 \<and> stored_hashes db2 = stored_hashes db1 \<and> spark_outputs db2 = spark_outputs db1 @ ?rows
      \<and> spark_transactions db2 = spark_transactions db1 \<and> operator_pubkeys db2 = operator_pubkeys db1
      \<and> spark_issues db2 = spark_issues db1"
    by (rule i2) (simp add: output_models_hash)
  then have i2: "spark_db_inv db2" "stored_hashes db2 = insert ?h (stored_hashes db)"
      "spark_outputs db2 = spark_outputs db @ ?rows" "operator_pubkeys db2 = operator_pubkeys db"
      "spark_transactions db2 = spark_transactions db @ [create_spark_model_from_token_tx L tx]"
      "spark_issues db2 = spark_issues db"
    using i1 by (simp_all add: db1)
  have sub: "fst ` set (operator_pubkeys db) \<subseteq> stored_hashes db"
    using inv by (simp only: spark_db_inv_def)
  have "?h \<notin> fst ` set (operator_pubkeys db2)"
    unfolding i2(4) using subsetD [OF sub] i1 by auto
  moreover have "distinct ?ks" if "distinct (spark_operator_identity_public_keys tx)"
    using that by (simp add: distinct_map inj_on_def)
  ultimately have ops: "operator_pubkeys (fold (insert_operator_pubkey ?h) ?ks db2) = operator_pubkeys db
      @ map (\<lambda>k. (?h, pk_serialize k)) (spark_operator_identity_public_keys tx)"
    if "distinct (spark_operator_identity_public_keys tx)"
    using that insert_operators_new [of ?h db2 ?ks] by (simp add: i2(4))
  have "with_outputs L tx db (fold (insert_operator_pubkey ?h) ?ks db2)"
    using insert_operators_inv [of db2 ?h ?ks] i1 i2 ops by (simp add: with_outputs_def)
  then show thesis
    by (rule that) (rule d(3))
qed

lemma with_outputs_old:
  assumes "with_outputs L tx db db3" and "spark_db_inv db"
  shows "\<And>r. r \<in> set (spark_outputs db) \<Longrightarrow> so_tx_hash r \<noteq> TokenTransaction_hash L tx"
    and "\<And>r. r \<in> set (spark_outputs db3) \<Longrightarrow> spend_txid r \<noteq> Some (TokenTransaction_hash L tx)"
    and "TokenTransaction_hash L tx \<notin> si_tx_hash ` set (spark_issues db)"
    and "TokenTransaction_hash L tx \<notin> fst ` set (operator_pubkeys db)"
proof -
  let ?h = "TokenTransaction_hash L tx"
  have new: "?h \<notin> stored_hashes db"
    using assms(1) by (simp add: with_outputs_def)
  have old: "so_tx_hash r \<in> stored_hashes db" "\<And>x. spend_txid r = Some x \<Longrightarrow> x \<in> stored_hashes db"
    if "r \<in> set (spark_outputs db)" for r
    using assms(2) that by (simp_all add: spark_db_inv_def)
  show "so_tx_hash r \<noteq> ?h" if "r \<in> set (spark_outputs db)" for r
    using old(1) [OF that] new by auto
  show "spend_txid r \<noteq> Some ?h" if "r \<in> set (spark_outputs db3)" for r
  proof -
    have "r \<in> set (spark_outputs db) \<or> spend_txid r = None"
      using assms(1) that output_models_hash [of r L tx] by (auto simp: with_outputs_def)
    then show ?thesis
      using old(2) new by auto
  qed
  show "?h \<notin> si_tx_hash ` set (spark_issues db)" "?h \<notin> fst ` set (operator_pubkeys db)"
    using assms(2) new by (auto simp: spark_db_inv_def)
qed


lemma insort_key_map:
  "(\<And>r. f (m r) = f r) \<Longrightarrow> insort_key f (m x) (map m xs) = map m (insort_key f x xs)"
  by (induction xs) simp_all

lemma sort_key_map:
  "(\<And>r. f (m r) = f r) \<Longrightarrow> sort_key f (map m xs) = map m (sort_key f xs)"
  by (induction xs) (simp_all add: insort_key_map)

lemma mapM_map_same: "(\<And>r. c (m r) = c r) \<Longrightarrow> mapM c (map m xs) = mapM c xs"
  by (induction xs) simp_all

lemma find_append_other: "\<not> P x \<Longrightarrow> find P (xs @ [x]) = find P xs"
  by (induction xs) simp_all

lemma find_append_new: "\<forall>x \<in> set xs. \<not> P x \<Longrightarrow> P y \<Longrightarrow> find P (xs @ [y]) = Some y"
  by (induction xs) simp_all

text \<open>A transaction reads the same when its own rows are the same up to who spends them.\<close>

lemma get_spark_tx_cong:
  assumes "find (\<lambda>r. st_tx_hash r = h) (spark_transactions db') = find (\<lambda>r. st_tx_hash r = h) (spark_transactions db)"
    and "find (\<lambda>r. si_tx_hash r = h) (spark_issues db') = find (\<lambda>r. si_tx_hash r = h) (spark_issues db)"
    and "operators_of db' h = operators_of db h" and "inputs_of db' h = inputs_of db h"
    and "mapM (convert_model_to_spark_output L) (outputs_of db' h) = mapM (convert_model_to_spark_output L) (outputs_of db h)"
  shows "get_spark_tx_with_outputs L db' h = get_spark_tx_with_outputs L db h"
  by (simp only: get_spark_tx_with_outputs_def get_spark_transaction_model_by_hash_def
      create_token_transaction_def assms)

lemma filter_mark:
  assumes "\<And>r. r \<in> set rows \<Longrightarrow> spend_txid (m r) = Some h \<longleftrightarrow> spend_txid r = Some h"
    and "\<And>r. r \<in> set rows \<Longrightarrow> spend_txid r = Some h \<Longrightarrow> m r = r"
  shows "filter (\<lambda>r. spend_txid r = Some h) (map m rows) = filter (\<lambda>r. spend_txid r = Some h) rows"
  using assms by (induction rows) auto

lemma filter_so_tx_hash_map:
  "(\<And>r. so_tx_hash (m r) = so_tx_hash r) \<Longrightarrow>
     filter (\<lambda>r. so_tx_hash r = h) (map m rows) = map m (filter (\<lambda>r. so_tx_hash r = h) rows)"
  by (induction rows) auto

lemma other_transaction_unchanged:
  assumes out: "with_outputs L tx db db3" and inv: "spark_db_inv db"
    and other: "h \<noteq> TokenTransaction_hash L tx" and ops: "distinct (spark_operator_identity_public_keys tx)"
    and db': "spark_transactions db' = spark_transactions db3" "operator_pubkeys db' = operator_pubkeys db3"
      "find (\<lambda>r. si_tx_hash r = h) (spark_issues db') = find (\<lambda>r. si_tx_hash r = h) (spark_issues db)"
      "spark_outputs db' = map m (spark_outputs db3)"
    and m: "\<And>r. so_tx_hash (m r) = so_tx_hash r" "\<And>r. so_vout (m r) = so_vout r"
      "\<And>r. convert_model_to_spark_output L (m r) = convert_model_to_spark_output L r"
      "\<And>r. r \<in> set (spark_outputs db3) \<Longrightarrow> spend_txid (m r) = Some h \<longleftrightarrow> spend_txid r = Some h"
      "\<And>r. r \<in> set (spark_outputs db3) \<Longrightarrow> spend_txid r = Some h \<Longrightarrow> m r = r"
  shows "get_spark_tx_with_outputs L db' h = get_spark_tx_with_outputs L db h"
proof (rule get_spark_tx_cong)
  let ?rows = "create_output_models_from_token_tx L tx"
  have outs: "spark_outputs db3 = spark_outputs db @ ?rows"
    and txs: "spark_transactions db3 = spark_transactions db @ [create_spark_model_from_token_tx L tx]"
    and keys: "operator_pubkeys db3 = operator_pubkeys db
        @ map (\<lambda>k. (TokenTransaction_hash L tx, pk_serialize k)) (spark_operator_identity_public_keys tx)"
    using out ops by (simp_all add: with_outputs_def)
  show "find (\<lambda>r. st_tx_hash r = h) (spark_transactions db') = find (\<lambda>r. st_tx_hash r = h) (spark_transactions db)"
    using other by (simp add: db'(1) txs find_append_other create_spark_model_from_token_tx_def)
  show "find (\<lambda>r. si_tx_hash r = h) (spark_issues db') = find (\<lambda>r. si_tx_hash r = h) (spark_issues db)"
    by (rule db'(3))
  show "operators_of db' h = operators_of db h"
    using other by (simp add: operators_of_def db'(2) keys filter_empty_conv)
  have none: "filter (\<lambda>r. spend_txid r = Some h) ?rows = []" "filter (\<lambda>r. so_tx_hash r = h) ?rows = []"
    using output_models_hash [of _ L tx] other by (auto simp: filter_empty_conv)
  have "filter (\<lambda>r. spend_txid r = Some h) (spark_outputs db') = filter (\<lambda>r. spend_txid r = Some h) (spark_outputs db)"
    using filter_mark [of "spark_outputs db3" m h] m(4,5) by (simp add: db'(4) outs none)
  then show "inputs_of db' h = inputs_of db h"
    by (simp only: inputs_of_def Let_def)
  have "filter (\<lambda>r. so_tx_hash r = h) (spark_outputs db') = map m (filter (\<lambda>r. so_tx_hash r = h) (spark_outputs db))"
    by (simp add: db'(4) filter_so_tx_hash_map [OF m(1)] outs none)
  then have "outputs_of db' h = map m (outputs_of db h)"
    by (simp add: outputs_of_def sort_key_map m(2))
  then show "mapM (convert_model_to_spark_output L) (outputs_of db' h) = mapM (convert_model_to_spark_output L) (outputs_of db h)"
    by (simp add: mapM_map_same m(3))
qed


lemma operators_read:
  assumes "with_outputs L tx db db3" and "spark_db_inv db" and "operator_pubkeys db' = operator_pubkeys db3"
    and "distinct (spark_operator_identity_public_keys tx)"
    and "list_all (valid_key L) (spark_operator_identity_public_keys tx)"
  shows "mapM (\<lambda>b. ok_or (pk_from_slice L b) ConversionFailed) (operators_of db' (TokenTransaction_hash L tx)) =
    Inr (spark_operator_identity_public_keys tx)"
proof -
  let ?h = "TokenTransaction_hash L tx"
  have "filter (\<lambda>p. fst p = ?h) (operator_pubkeys db) = []"
    using with_outputs_old(4) [OF assms(1,2)] by (force simp: filter_empty_conv)
  then have "operators_of db' ?h = map pk_serialize (spark_operator_identity_public_keys tx)"
    using assms(1,3,4) by (simp add: operators_of_def with_outputs_def comp_def)
  moreover have "list_all2 (\<lambda>b k. ok_or (pk_from_slice L b) ConversionFailed = Inr k) (map pk_serialize ks) ks"
    if "list_all (valid_key L) ks" for ks
    using that by (induction ks) simp_all
  ultimately show ?thesis
    using assms(5) by (simp add: mapM_Inr_iff)
qed

lemma notin_image_iff: "y \<notin> f ` A \<longleftrightarrow> (\<forall>x \<in> A. f x \<noteq> y)"
  by blast

lemma with_outputs_new: "with_outputs L tx db db3 \<Longrightarrow> TokenTransaction_hash L tx \<notin> stored_hashes db"
  by (simp add: with_outputs_def)

lemma own_row_found:
  assumes "with_outputs L tx db db3" and "spark_transactions db' = spark_transactions db3"
  shows "get_spark_transaction_model_by_hash db' (TokenTransaction_hash L tx) = Some (create_spark_model_from_token_tx L tx)"
proof -
  let ?h = "TokenTransaction_hash L tx"
  have "\<forall>r \<in> set (spark_transactions db). st_tx_hash r \<noteq> ?h"
    using with_outputs_new [OF assms(1)] by (simp only: stored_hashes_def notin_image_iff)
  then show ?thesis
    using assms by (simp add: get_spark_transaction_model_by_hash_def with_outputs_def find_append_new
        create_spark_model_from_token_tx_def)
qed

text \<open>The two kinds of transactions.\<close>

lemma stored_mint:
  assumes inv: "spark_db_inv db" and st: "storable_tx L tx" and i: "spark_input tx = Mint issuer s ts"
    and out: "with_outputs L tx db db3"
    and ins: "rbind (create_spark_issue_model_from_token_tx L tx issuer s ts) (\<lambda>r. insert_issue_row r db3) = Inr db'"
  shows "spark_db_inv db' \<and> get_spark_tx_with_outputs L db' (TokenTransaction_hash L tx) = Inr (Some tx)
    \<and> (\<forall>h. h \<noteq> TokenTransaction_hash L tx \<longrightarrow> get_spark_tx_with_outputs L db' h = get_spark_tx_with_outputs L db h)"
proof -
  let ?h = "TokenTransaction_hash L tx"
  obtain sd r where sd: "s = Some sd" and r: "create_spark_issue_model_from_token_tx L tx issuer s ts = Inr r"
      and "insert_issue_row r db3 = Inr db'"
    using ins by (auto simp: rbind_Inr_iff create_spark_issue_model_from_token_tx_def)
  then have db': "db' = db3\<lparr>spark_issues := spark_issues db3 @ [r]\<rparr>" and hash: "si_tx_hash r = ?h"
    by (auto simp: insert_issue_row_def create_spark_issue_model_from_token_tx_def split: if_splits)
  have iss: "spark_issues db3 = spark_issues db"
    using out by (simp add: with_outputs_def)
  have "spark_db_inv db'"
    by (rule insert_issue_row_inv [OF _ _ \<open>insert_issue_row r db3 = Inr db'\<close>])
      (use out hash in \<open>simp_all add: with_outputs_def\<close>)
  moreover have "get_spark_tx_with_outputs L db' ?h = Inr (Some tx)"
  proof -
    have "find (\<lambda>r. si_tx_hash r = ?h) (spark_issues db') = Some r"
      using with_outputs_old(3) [OF out inv] hash by (simp add: db' iss find_append_new notin_image_iff)
    moreover have "mint_input L r = Inr (spark_input tx)"
      using st r by (auto simp: i sd storable_tx_def mint_input_def create_spark_issue_model_from_token_tx_def
          storable_signature_def split: option.splits)
    moreover have "mapM (convert_model_to_spark_output L) (outputs_of db' ?h) = Inr (leaves_to_create tx)"
      using st out with_outputs_old(1) [OF out inv]
      by (intro stored_outputs [where m = id and old = "spark_outputs db"])
        (simp_all add: db' with_outputs_def storable_tx_def del: power_numeral)
    moreover have "mapM (\<lambda>b. ok_or (pk_from_slice L b) ConversionFailed) (operators_of db' ?h) =
        Inr (spark_operator_identity_public_keys tx)"
      using st by (intro operators_read [OF out inv]) (simp_all add: db' storable_tx_def)
    ultimately show ?thesis
      using st own_row_found [OF out, of db']
      by (simp add: get_spark_tx_with_outputs_def create_token_transaction_def storable_tx_def i db'
          create_spark_model_from_token_tx_def)
  qed
  moreover have "get_spark_tx_with_outputs L db' h = get_spark_tx_with_outputs L db h" if "h \<noteq> ?h" for h
    by (rule other_transaction_unchanged [OF out inv that, where m = "\<lambda>r. r"])
      (use st hash that in \<open>simp_all add: db' iss storable_tx_def find_append_other\<close>)
  ultimately show ?thesis by blast
qed

definition unspent_at :: "SparkDb \<Rightarrow> TokenLeafToSpend \<Rightarrow> bool" where
  "unspent_at db l = (\<forall>r \<in> set (spark_outputs db). outpoint r = leaf_at l \<longrightarrow> spend_txid r = None)"

lemma mark_from_cases:
  "mark_from h n ls r = r \<or> spend_txid (mark_from h n ls r) = Some h \<and> (\<exists>l \<in> set ls. outpoint r = leaf_at l)"
proof (cases "map_of (zip (map leaf_at ls) [n..<n + length ls]) (outpoint r)")
  case (Some i)
  then have "outpoint r \<in> leaf_at ` set ls"
    by (auto dest!: map_of_SomeD set_zip_leftD)
  then show ?thesis
    using Some by (auto simp: mark_from_def)
next
  case None
  then have "mark_from h n ls r = r"
    by (simp only: mark_from_def option.case)
  then show ?thesis ..
qed

lemma mark_from_marks:
  assumes "outpoint r = leaf_at l" and "l \<in> set ls"
  shows "spend_txid (mark_from h n ls r) = Some h"
proof (cases "map_of (zip (map leaf_at ls) [n..<n + length ls]) (outpoint r)")
  case None
  then have "outpoint r \<notin> leaf_at ` set ls"
    by (subst (asm) map_of_zip_is_None) auto
  with assms show ?thesis by auto
qed (simp add: mark_from_def)

lemma mark_from_unspent:
  assumes "list_all (unspent_at db) ls" and "with_outputs L tx db db3" and "r \<in> set (spark_outputs db3)"
  shows "mark_from h n ls r = r \<or> spend_txid (mark_from h n ls r) = Some h \<and> spend_txid r = None"
proof -
  have "spend_txid r = None" if "l \<in> set ls" "outpoint r = leaf_at l" for l
  proof -
    have "r \<in> set (spark_outputs db) \<or> spend_txid r = None"
      using assms(2,3) output_models_hash [of r L tx] by (auto simp: with_outputs_def)
    then show ?thesis
      using assms(1) that by (auto simp: list_all_iff unspent_at_def)
  qed
  then show ?thesis
    using mark_from_cases [of h n ls r] by blast
qed

lemma stored_transfer:
  assumes inv: "spark_db_inv db" and st: "storable_tx L tx" and i: "spark_input tx = SparkTransfer ls"
    and out: "with_outputs L tx db db3" and ins: "insert_spent_outputs (TokenTransaction_hash L tx) ls db3 = Inr db'"
  shows "spark_db_inv db' \<and> get_spark_tx_with_outputs L db' (TokenTransaction_hash L tx) = Inr (Some tx)
    \<and> (\<forall>h. h \<noteq> TokenTransaction_hash L tx \<longrightarrow> list_all (unspent_at db) ls \<longrightarrow>
         get_spark_tx_with_outputs L db' h = get_spark_tx_with_outputs L db h)"
proof -
  let ?h = "TokenTransaction_hash L tx"
  have inv3: "spark_db_inv db3" and own: "?h \<in> stored_hashes db3"
    using out by (simp_all add: with_outputs_def)
  have ls: "distinct (map leaf_at ls)" "length ls < 2 ^ 31"
    using st by (simp_all add: storable_tx_def i)
  note marked = insert_spent_outputs_Inr [OF ins inv3 ls(1)]
  then have db': "db' = db3\<lparr>spark_outputs := map (mark_from ?h 0 ls) (spark_outputs db3)\<rparr>" by (rule conjunct1)
  have "spark_db_inv db'"
    by (rule foldM_inv [OF ins [unfolded insert_spent_outputs_def], where P = "\<lambda>d. spark_db_inv d \<and> ?h \<in> stored_hashes d", THEN conjunct1])
      (use inv3 own in \<open>auto dest: insert_spent_output_inv split: prod.splits\<close>)
  moreover have "get_spark_tx_with_outputs L db' ?h = Inr (Some tx)"
  proof -
    have "transfer_input (inputs_of db' ?h) = SparkTransfer ls"
      using inv3 with_outputs_old(2) [OF out inv] marked ls
      by (intro stored_inputs [where rows = "spark_outputs db3"]) (auto simp: db' spark_db_inv_def)
    moreover have "mapM (convert_model_to_spark_output L) (outputs_of db' ?h) = Inr (leaves_to_create tx)"
      using st out with_outputs_old(1) [OF out inv]
      by (intro stored_outputs [where m = "mark_from ?h 0 ls" and old = "map (mark_from ?h 0 ls) (spark_outputs db)"])
        (auto simp: db' with_outputs_def storable_tx_def)
    moreover have "mapM (\<lambda>b. ok_or (pk_from_slice L b) ConversionFailed) (operators_of db' ?h) =
        Inr (spark_operator_identity_public_keys tx)"
      using st by (intro operators_read [OF out inv]) (simp_all add: db' storable_tx_def)
    ultimately show ?thesis
      using st own_row_found [OF out, of db']
      by (simp add: get_spark_tx_with_outputs_def create_token_transaction_def storable_tx_def i db'
          create_spark_model_from_token_tx_def)
  qed
  moreover have "get_spark_tx_with_outputs L db' h = get_spark_tx_with_outputs L db h"
    if "h \<noteq> ?h" "list_all (unspent_at db) ls" for h
  proof (rule other_transaction_unchanged [OF out inv that(1), where m = "mark_from ?h 0 ls"])
    fix r assume r: "r \<in> set (spark_outputs db3)"
    note m = mark_from_unspent [OF that(2) out r, of ?h 0]
    show "spend_txid (mark_from ?h 0 ls r) = Some h \<longleftrightarrow> spend_txid r = Some h"
      using m that(1) by auto
    show "spend_txid r = Some h \<Longrightarrow> mark_from ?h 0 ls r = r"
      using m by auto
  qed (use st out in \<open>simp_all add: db' storable_tx_def with_outputs_def\<close>)
  ultimately show ?thesis by blast
qed


section \<open>The tables as a map\<close>

text \<open>What the users of a store rely on: an insertion that succeeds makes the value readable
  under its key and changes nothing else.\<close>

primrec stores :: "('db \<Rightarrow> 'a \<Rightarrow> bool) \<Rightarrow> ('a \<Rightarrow> 'db \<Rightarrow> 'e + 'db) \<Rightarrow> 'db \<Rightarrow> 'a list \<Rightarrow> 'db \<Rightarrow> bool" where
  "stores fits put db [] db' = (db' = db)"
| "stores fits put db (x # xs) db' = (fits db x \<and> (case put x db of Inl _ \<Rightarrow> False | Inr d \<Rightarrow> stores fits put d xs db'))"

locale keyed_store =
  fixes ok :: "'db \<Rightarrow> bool" and get :: "'db \<Rightarrow> 'k \<Rightarrow> 'r" and put :: "'a \<Rightarrow> 'db \<Rightarrow> 'e + 'db"
    and key :: "'a \<Rightarrow> 'k" and found :: "'a \<Rightarrow> 'r" and fits :: "'db \<Rightarrow> 'a \<Rightarrow> bool"
  assumes put_get: "ok db \<Longrightarrow> fits db x \<Longrightarrow> put x db = Inr db' \<Longrightarrow> ok db' \<and> get db' = (get db)(key x := found x)"
begin

lemma stores_get:
  "ok db \<Longrightarrow> stores fits put db xs db' \<Longrightarrow>
     ok db' \<and> get db' = (\<lambda>k. case map_of (rev (map (\<lambda>x. (key x, x)) xs)) k of None \<Rightarrow> get db k | Some x \<Rightarrow> found x)"
proof (induction xs arbitrary: db)
  case (Cons x xs)
  then obtain d where d: "put x db = Inr d" "fits db x" "stores fits put d xs db'"
    by (auto split: sum.splits)
  have step: "ok d" "get d = (get db)(key x := found x)"
    using put_get [OF Cons.prems(1) d(2,1)] by simp_all
  show ?case
    using Cons.IH [OF step(1) d(3)] by (auto simp: step(2) map_add_def fun_eq_iff split: option.split)
qed simp

lemma stores_ok: "ok db \<Longrightarrow> stores fits put db xs db' \<Longrightarrow> ok db'"
  using stores_get by blast

end

text \<open>A transaction fits when the columns can hold it and what it spends is not spent yet.\<close>

definition fits_tables :: "lib \<Rightarrow> SparkDb \<Rightarrow> TokenTransaction \<Rightarrow> bool" where
  "fits_tables L db tx = (storable_tx L tx \<and>
     (case spark_input tx of Mint _ _ _ \<Rightarrow> True | SparkTransfer ls \<Rightarrow> list_all (unspent_at db) ls))"

interpretation spark_store: keyed_store spark_db_inv "get_spark_tx_with_outputs L" "insert_spark_transaction L"
  "TokenTransaction_hash L" "\<lambda>tx. Inr (Some tx)" "fits_tables L" for L
proof
  fix db tx db'
  assume inv: "spark_db_inv db" and fits: "fits_tables L db tx" and ins: "insert_spark_transaction L tx db = Inr db'"
  have st: "storable_tx L tx"
    using fits by (simp add: fits_tables_def)
  obtain db3 where out: "with_outputs L tx db db3" and
      inp: "case spark_input tx of
         Mint issuer s ts \<Rightarrow> rbind (create_spark_issue_model_from_token_tx L tx issuer s ts)
           (\<lambda>r. insert_issue_row r db3) = Inr db'
       | SparkTransfer leaves \<Rightarrow> insert_spent_outputs (TokenTransaction_hash L tx) leaves db3 = Inr db'"
    by (rule insert_spark_transaction_Inr [OF inv ins])
  show "spark_db_inv db' \<and> get_spark_tx_with_outputs L db' =
      (get_spark_tx_with_outputs L db)(TokenTransaction_hash L tx := Inr (Some tx))"
  proof (cases "spark_input tx")
    case (Mint issuer s ts)
    then show ?thesis
      using stored_mint [OF inv st Mint out] inp by (simp add: fun_eq_iff)
  next
    case (SparkTransfer ls)
    then show ?thesis
      using stored_transfer [OF inv st SparkTransfer out] inp fits by (simp add: fun_eq_iff fits_tables_def)
  qed
qed



definition example_lib :: lib where
  "example_lib = lib0\<lparr>sha256 := \<lambda>bs. of_nat (length bs), ecdsa_from_compact := Some\<rparr>"

definition example_leaf :: "u8 \<Rightarrow> u128 \<Rightarrow> TokenLeafOutput" where
  "example_leaf i a = \<lparr>leaf_id = [i], owner_public_key = PublicKey 7, revocation_public_key = PublicKey 8,
     withdrawal_bond_sats = 1000, withdrawal_locktime = 5,
     leaf_receipt = \<lparr>token_amount = \<lparr>amount = a, blinding_factor = 0\<rparr>, token_pubkey = TokenPubkey (PublicKey 9)\<rparr>,
     is_frozen = Some False, withdraw_txid = None, withdraw_tx_vout = None, withdraw_height = None,
     withdraw_block_hash = None\<rparr>"

definition example_issue :: TokenTransaction where
  "example_issue = \<lparr>spark_input = Mint (PublicKey 9) (Some \<lparr>operator_identity_public_key = None,
       owner_signature = ECDSA [1, 2, 3], input_index = Some 0\<rparr>) 77,
     leaves_to_create = [example_leaf 1 10], spark_operator_identity_public_keys = [], spark_network = None\<rparr>"

definition example_spend :: "TokenLeafOutput list \<Rightarrow> TokenTransaction" where
  "example_spend leaves = \<lparr>spark_input = SparkTransfer [\<lparr>parent_output_hash = 64, parent_output_vout = 0\<rparr>],
     leaves_to_create = leaves, spark_operator_identity_public_keys = [], spark_network = None\<rparr>"

lemma example_hashes [simp]:
  "TokenTransaction_hash example_lib example_issue = 64"
  "TokenTransaction_hash example_lib (example_spend [a, b]) = 96"
  "TokenTransaction_hash example_lib (example_spend [a, b, c]) = 128"
  by (simp_all add: TokenTransaction_hash_def hash_token_transaction_def example_issue_def example_spend_def
      example_lib_def digest_def)

lemma example_tx_fields [simp]:
  "spark_input example_issue = Mint (PublicKey 9) (Some \<lparr>operator_identity_public_key = None,
     owner_signature = ECDSA [1, 2, 3], input_index = Some 0\<rparr>) 77"
  "leaves_to_create example_issue = [example_leaf 1 10]" "spark_operator_identity_public_keys example_issue = []"
  "spark_input (example_spend ls) = SparkTransfer [\<lparr>parent_output_hash = 64, parent_output_vout = 0\<rparr>]"
  "leaves_to_create (example_spend ls) = ls" "spark_operator_identity_public_keys (example_spend ls) = []"
  by (simp_all add: example_issue_def example_spend_def)

lemma valid_key_example [simp]: "valid_key example_lib k"
  using valid_key_lib0 [of k] by (simp add: valid_key_def example_lib_def)

text \<open>The tables after the issue, and after a transfer that spends what it created.\<close>

definition example_stored_issue :: SparkDb where
  "example_stored_issue = SparkDb_empty\<lparr>
     spark_transactions := [create_spark_model_from_token_tx example_lib example_issue],
     spark_outputs := [convert_spark_output_to_active_model 64 0 (example_leaf 1 10)],
     spark_issues := [\<lparr>si_tx_hash = 64, si_issuer_pubkey = pk_serialize (PublicKey 9), si_nonce = 0,
       si_issuer_provided_timestamp = 77, si_issuer_signature = [1, 2, 3], si_issue_amount = to_dec_string (10 :: u128),
       si_operator_pubkey = None, si_signature_type = Some EcdsaType\<rparr>]\<rparr>"

definition example_stored_spend :: SparkDb where
  "example_stored_spend = example_stored_issue\<lparr>
     spark_transactions := spark_transactions example_stored_issue
       @ [create_spark_model_from_token_tx example_lib (example_spend [example_leaf 2 4, example_leaf 3 6])],
     spark_outputs := [mark_spent 96 0 (convert_spark_output_to_active_model 64 0 (example_leaf 1 10)),
       convert_spark_output_to_active_model 96 0 (example_leaf 2 4),
       convert_spark_output_to_active_model 96 1 (example_leaf 3 6)]\<rparr>"

lemmas example_storage_defs = insert_spark_transaction_def insert_transaction_row_def insert_output_row_def
  create_spark_model_from_token_tx_def create_output_models_from_token_tx_def
  convert_spark_output_to_active_model_def create_spark_issue_model_from_token_tx_def insert_issue_row_def
  insert_spent_outputs_def insert_spent_output_def output_at_def SparkDb_empty_def same_spend_def Let_def
  example_stored_issue_def

lemma example_issue_stored:
  "insert_spark_transaction example_lib example_issue SparkDb_empty = Inr example_stored_issue"
  by (simp add: example_storage_defs)
    (simp add: example_leaf_def get_issue_amount_def signature_type_def SparkSignature_bytes_def
      example_storage_defs)

lemma example_spend_stored:
  "insert_spark_transaction example_lib (example_spend [example_leaf 2 4, example_leaf 3 6]) example_stored_issue
     = Inr example_stored_spend"
  by (simp add: example_storage_defs example_stored_spend_def)
    (simp add: example_leaf_def example_storage_defs mark_spent_def)

lemma example_fits:
  "fits_tables example_lib SparkDb_empty example_issue"
  "fits_tables example_lib example_stored_issue (example_spend [example_leaf 2 4, example_leaf 3 6])"
  by (simp_all add: fits_tables_def storable_tx_def storable_output_def example_leaf_def storable_signature_def typed_signature_def signature_type_def SparkSignature_bytes_def unspent_at_def
      example_stored_issue_def convert_spark_output_to_active_model_def)
    (simp add: example_lib_def)




definition example_second_spend :: TokenTransaction where
  "example_second_spend = example_spend [example_leaf 4 3, example_leaf 5 3, example_leaf 6 4]"

definition example_double_spent :: SparkDb where
  "example_double_spent = example_stored_spend\<lparr>
     spark_transactions := spark_transactions example_stored_spend
       @ [create_spark_model_from_token_tx example_lib example_second_spend],
     spark_outputs := [mark_spent 128 0 (convert_spark_output_to_active_model 64 0 (example_leaf 1 10)),
       convert_spark_output_to_active_model 96 0 (example_leaf 2 4),
       convert_spark_output_to_active_model 96 1 (example_leaf 3 6),
       convert_spark_output_to_active_model 128 0 (example_leaf 4 3),
       convert_spark_output_to_active_model 128 1 (example_leaf 5 3),
       convert_spark_output_to_active_model 128 2 (example_leaf 6 4)]\<rparr>"

lemma example_double_spend_stored:
  "insert_spark_transaction example_lib example_second_spend example_stored_spend = Inr example_double_spent"
  by (simp add: example_storage_defs example_double_spent_def example_stored_spend_def example_second_spend_def)
    (simp add: example_leaf_def example_storage_defs mark_spent_def)

lemma example_first_spend_read:
  "get_spark_tx_with_outputs example_lib example_double_spent 96 = Inr (Some
     \<lparr>spark_input = SparkTransfer [], leaves_to_create = [example_leaf 2 4, example_leaf 3 6],
      spark_operator_identity_public_keys = [], spark_network = None\<rparr>)"
proof -
  have out: "convert_model_to_spark_output example_lib (convert_spark_output_to_active_model h i (example_leaf j a)) =
      Inr (example_leaf j a)" for h i j a
    by (rule stored_output_read) (simp add: storable_output_def example_leaf_def)
  have "outputs_of example_double_spent 96 = [convert_spark_output_to_active_model 96 0 (example_leaf 2 4),
       convert_spark_output_to_active_model 96 1 (example_leaf 3 6)]"
    by (simp add: outputs_of_def example_double_spent_def convert_spark_output_to_active_model_def)
  moreover have "inputs_of example_double_spent 96 = []" "operators_of example_double_spent 96 = []"
    by (simp_all add: inputs_of_def operators_of_def example_double_spent_def convert_spark_output_to_active_model_def
        example_stored_spend_def example_stored_issue_def SparkDb_empty_def)
  moreover have "get_spark_transaction_model_by_hash example_double_spent 96 =
      Some (create_spark_model_from_token_tx example_lib (example_spend [example_leaf 2 4, example_leaf 3 6]))"
    by (simp add: get_spark_transaction_model_by_hash_def example_double_spent_def example_stored_spend_def
        example_stored_issue_def create_spark_model_from_token_tx_def)
  ultimately show ?thesis
    by (simp add: get_spark_tx_with_outputs_def create_token_transaction_def transfer_input_def out
        create_spark_model_from_token_tx_def) (simp add: example_spend_def)
qed


text \<open>The lookup of the output that a leaf was spent into looks among the outputs that the
  parent transaction itself spent: whatever it returns is an input of the parent, and after a
  mint it never returns anything.\<close>

lemma get_spent_output_reads_inputs_of_parent:
  assumes "get_spent_output L db h i = Inr (Some out)"
  shows "\<exists>r \<in> set (inputs_of db h). convert_model_to_spark_output L r = Inr out"
  using assms by (auto simp: get_spent_output_def inputs_of_def rbind_Inr_iff find_Some_iff split: option.splits)




section \<open>Everything that changes the tables\<close>

definition signatures_inv :: "SparkDb \<Rightarrow> bool" where
  "signatures_inv db \<longleftrightarrow>
     distinct (map (\<lambda>r. (os_tx_hash r, os_operator_identity_pubkey r)) (operator_signatures db))
   \<and> distinct (map (\<lambda>r. (us_tx_hash r, us_signature r)) (user_signatures db))
   \<and> os_tx_hash ` set (operator_signatures db) \<subseteq> stored_hashes db
   \<and> us_tx_hash ` set (user_signatures db) \<subseteq> stored_hashes db"

inductive spark_db_step :: "lib \<Rightarrow> SparkDb \<Rightarrow> SparkDb \<Rightarrow> bool" for L where
  transaction: "insert_spark_transaction L tx db = Inr db' \<Longrightarrow> spark_db_step L db db'"
| signature: "insert_signature_data d db = Inr db' \<Longrightarrow> spark_db_step L db db'"
| revocation: "set_revocation_secret_key h i k db = (b, db') \<Longrightarrow> spark_db_step L db db'"
| status: "spark_db_step L db (set_token_transaction_status h s db)"
| withdrawal: "mark_spark_output_as_withdrawn j t vout bh db = Inr db' \<Longrightarrow> spark_db_step L db db'"

lemma insert_spark_transaction_inv:
  assumes inv: "spark_db_inv db" and ins: "insert_spark_transaction L tx db = Inr db'"
  shows "spark_db_inv db' \<and> stored_hashes db' = insert (TokenTransaction_hash L tx) (stored_hashes db)"
proof -
  let ?h = "TokenTransaction_hash L tx"
  obtain db3 where out: "with_outputs L tx db db3" and
      inp: "case spark_input tx of
         Mint issuer s ts \<Rightarrow> rbind (create_spark_issue_model_from_token_tx L tx issuer s ts)
           (\<lambda>r. insert_issue_row r db3) = Inr db'
       | SparkTransfer leaves \<Rightarrow> insert_spent_outputs ?h leaves db3 = Inr db'"
    by (rule insert_spark_transaction_Inr [OF inv ins])
  have inv3: "spark_db_inv db3" and own: "stored_hashes db3 = insert ?h (stored_hashes db)"
    using out by (simp_all add: with_outputs_def)
  have "spark_db_inv db' \<and> stored_hashes db' = stored_hashes db3"
  proof (cases "spark_input tx")
    case (Mint issuer s ts)
    then obtain r where r: "create_spark_issue_model_from_token_tx L tx issuer s ts = Inr r" "insert_issue_row r db3 = Inr db'"
      using inp by (auto simp: rbind_Inr_iff)
    then have "si_tx_hash r = ?h"
      by (auto simp: create_spark_issue_model_from_token_tx_def rbind_Inr_iff)
    then show ?thesis
      using insert_issue_row_inv [OF inv3 _ r(2)] own r(2)
      by (auto simp: insert_issue_row_def stored_hashes_def split: if_splits)
  next
    case (SparkTransfer ls)
    then have ins: "insert_spent_outputs ?h ls db3 = Inr db'"
      using inp by simp
    show ?thesis
      by (rule foldM_inv [OF ins [unfolded insert_spent_outputs_def],
            where P = "\<lambda>d. spark_db_inv d \<and> stored_hashes d = stored_hashes db3"])
        (use inv3 own in \<open>auto dest: insert_spent_output_inv split: prod.splits\<close>)
  qed
  then show ?thesis by (simp add: own)
qed

lemma insert_spark_transaction_signatures:
  assumes "insert_spark_transaction L tx db = Inr db'"
  shows "operator_signatures db' = operator_signatures db \<and> user_signatures db' = user_signatures db"
proof -
  let ?P = "\<lambda>d. operator_signatures d = operator_signatures db \<and> user_signatures d = user_signatures db"
  have ops: "?P d \<Longrightarrow> ?P (fold (\<lambda>k. insert_operator_pubkey h (pk_serialize k)) ks d)" for d h ks
    by (induction ks arbitrary: d) (simp_all add: insert_operator_pubkey_def)
  have outs: "foldM (\<lambda>db r. insert_output_row r db) d rs = Inr d' \<Longrightarrow> ?P d \<Longrightarrow> ?P d'" for d d' rs
    by (erule foldM_inv [where P = ?P]) (auto simp: insert_output_row_def split: if_splits)
  have spent: "insert_spent_outputs h ls d = Inr d' \<Longrightarrow> ?P d \<Longrightarrow> ?P d'" for h ls d d'
    unfolding insert_spent_outputs_def
    by (erule foldM_inv [where P = ?P]) (auto simp: insert_spent_output_def split: if_splits prod.splits)
  obtain db1 db2 where d: "insert_transaction_row (create_spark_model_from_token_tx L tx) db = Inr db1"
      "foldM (\<lambda>db r. insert_output_row r db) db1 (create_output_models_from_token_tx L tx) = Inr db2"
      "case spark_input tx of
         Mint issuer s ts \<Rightarrow> rbind (create_spark_issue_model_from_token_tx L tx issuer s ts) (\<lambda>r. insert_issue_row r
           (fold (\<lambda>k. insert_operator_pubkey (TokenTransaction_hash L tx) (pk_serialize k)) (spark_operator_identity_public_keys tx) db2)) = Inr db'
       | SparkTransfer leaves \<Rightarrow> insert_spent_outputs (TokenTransaction_hash L tx) leaves
           (fold (\<lambda>k. insert_operator_pubkey (TokenTransaction_hash L tx) (pk_serialize k)) (spark_operator_identity_public_keys tx) db2) = Inr db'"
    using assms by (cases "spark_input tx") (auto simp: insert_spark_transaction_def rbind_Inr_iff Let_def)
  have "?P db1"
    using d(1) by (auto simp: insert_transaction_row_def split: if_splits)
  note db3 = ops [OF outs [OF d(2) this]]
  show ?thesis
  proof (cases "spark_input tx")
    case (Mint issuer s ts)
    then obtain r where "insert_issue_row r (fold (\<lambda>k. insert_operator_pubkey (TokenTransaction_hash L tx) (pk_serialize k))
        (spark_operator_identity_public_keys tx) db2) = Inr db'"
      using d(3) by (auto simp: rbind_Inr_iff)
    then show ?thesis
      using db3 by (auto simp: insert_issue_row_def split: if_splits)
  next
    case (SparkTransfer ls)
    then show ?thesis
      using d(3) spent [OF _ db3] by simp
  qed
qed

lemma stored_hashes_found: "get_spark_transaction_model_by_hash db h \<noteq> None \<longleftrightarrow> h \<in> stored_hashes db"
  by (auto simp: get_spark_transaction_model_by_hash_def stored_hashes_def find_None_iff)

lemma upsert_distinct:
  assumes "distinct (map g rs)" and "\<And>r. g (f r) = g r"
  shows "distinct (map g (if list_ex (\<lambda>r. g r = g x) rs then update_first (\<lambda>r. g r = g x) f rs else rs @ [x]))"
  using assms by (auto simp: map_update_first list_ex_iff image_iff)

lemma upsert_fst:
  assumes "k ` set rs \<subseteq> H" and "k x \<in> H" and "\<And>r. k (f r) = k r"
  shows "k ` set (if b then update_first P f rs else rs @ [x]) \<subseteq> H"
  using assms by (auto dest!: set_update_first)

lemma insert_signature_data_inv:
  assumes inv: "spark_db_inv db" "signatures_inv db" and ins: "insert_signature_data d db = Inr db'"
  shows "spark_db_inv db' \<and> signatures_inv db'"
proof -
  obtain op user where m: "convert_spark_signature_data_to_signature_models d = (op, user)" by fastforce
  have u: "us_tx_hash u = os_tx_hash op" if "user = Some u" for u
    using m that by (auto simp: convert_spark_signature_data_to_signature_models_def)
  let ?k = "\<lambda>r. (os_tx_hash r, os_operator_identity_pubkey r)" and ?l = "\<lambda>r. (us_tx_hash r, us_signature r)"
  let ?f = "\<lambda>r. r\<lparr>os_signature := os_signature op, os_type := os_type op\<rparr>"
  have st: "os_tx_hash op \<in> stored_hashes db"
    using ins m by (auto simp: insert_signature_data_def Let_def stored_hashes_found [symmetric] split: if_splits)
  have ops: "operator_signatures db' = (if list_ex (\<lambda>r. ?k r = ?k op) (operator_signatures db)
      then update_first (\<lambda>r. ?k r = ?k op) ?f (operator_signatures db) else operator_signatures db @ [op])"
    using ins m by (auto simp: insert_signature_data_def Let_def split: if_splits option.splits)
  have users: "user_signatures db' = user_signatures db \<or> (\<exists>x. us_tx_hash x = os_tx_hash op \<and>
      user_signatures db' = (if list_ex (\<lambda>r. ?l r = ?l x) (user_signatures db)
        then update_first (\<lambda>r. ?l r = ?l x) (\<lambda>r. r\<lparr>us_operator_public_key := us_operator_public_key x\<rparr>) (user_signatures db)
        else user_signatures db @ [x]))"
  proof (cases user)
    case (Some x)
    then show ?thesis
      using ins m u [OF Some] by (intro disjI2 exI [of _ x])
        (simp add: insert_signature_data_def Let_def split: if_splits, auto)
  qed (use ins m in \<open>auto simp: insert_signature_data_def Let_def split: if_splits\<close>)
  have same: "spark_transactions db' = spark_transactions db" "spark_outputs db' = spark_outputs db"
      "operator_pubkeys db' = operator_pubkeys db" "spark_issues db' = spark_issues db"
    using ins m by (auto simp: insert_signature_data_def Let_def split: if_splits option.splits)
  have h: "stored_hashes db' = stored_hashes db"
    by (simp add: stored_hashes_def same)
  have "spark_db_inv db'"
    using inv(1) unfolding spark_db_inv_def h same .
  moreover have "distinct (map ?k (operator_signatures db'))"
    unfolding ops by (rule upsert_distinct) (use inv(2) in \<open>simp_all add: signatures_inv_def\<close>)
  moreover have "os_tx_hash ` set (operator_signatures db') \<subseteq> stored_hashes db"
    unfolding ops by (rule upsert_fst) (use inv(2) st in \<open>simp_all add: signatures_inv_def\<close>)
  moreover have "distinct (map ?l (user_signatures db')) \<and> us_tx_hash ` set (user_signatures db') \<subseteq> stored_hashes db"
    using users
  proof
    assume "user_signatures db' = user_signatures db"
    then show ?thesis
      using inv(2) by (simp add: signatures_inv_def)
  next
    assume "\<exists>x. us_tx_hash x = os_tx_hash op \<and>
      user_signatures db' = (if list_ex (\<lambda>r. ?l r = ?l x) (user_signatures db)
        then update_first (\<lambda>r. ?l r = ?l x) (\<lambda>r. r\<lparr>us_operator_public_key := us_operator_public_key x\<rparr>) (user_signatures db)
        else user_signatures db @ [x])"
    then obtain x where x: "us_tx_hash x = os_tx_hash op"
        "user_signatures db' = (if list_ex (\<lambda>r. ?l r = ?l x) (user_signatures db)
          then update_first (\<lambda>r. ?l r = ?l x) (\<lambda>r. r\<lparr>us_operator_public_key := us_operator_public_key x\<rparr>) (user_signatures db)
          else user_signatures db @ [x])"
      by (elim exE conjE) (rule that)
    show ?thesis
      unfolding x(2)
      by (intro conjI upsert_distinct upsert_fst) (use inv(2) st x(1) in \<open>simp_all add: signatures_inv_def\<close>)
  qed
  ultimately show ?thesis
    by (simp add: signatures_inv_def h)
qed

lemma set_token_transaction_status_inv:
  assumes "spark_db_inv db"
  shows "spark_db_inv (set_token_transaction_status h s db) \<and> stored_hashes (set_token_transaction_status h s db) = stored_hashes db"
proof -
  let ?f = "\<lambda>r. if st_tx_hash r = h then r\<lparr>st_status := s\<rparr> else r"
  have f: "map st_tx_hash (map ?f rs) = map st_tx_hash rs" for rs :: "spark_transaction_row list"
    by (induction rs) simp_all
  have "set (map st_tx_hash (map ?f (spark_transactions db))) = set (map st_tx_hash (spark_transactions db))"
    unfolding f ..
  then have hs: "stored_hashes (set_token_transaction_status h s db) = stored_hashes db"
    by (simp only: stored_hashes_def set_token_transaction_status_def set_map) simp
  then show ?thesis
    using assms unfolding spark_db_inv_def hs
    by (simp add: set_token_transaction_status_def f del: map_map list.map_comp)
qed

lemma spark_db_step_inv:
  assumes "spark_db_step L db db'" and inv: "spark_db_inv db" "signatures_inv db"
  shows "spark_db_inv db' \<and> signatures_inv db'"
  using assms(1)
proof cases
  case (transaction tx)
  then show ?thesis
    using insert_spark_transaction_inv [OF inv(1)] insert_spark_transaction_signatures inv(2)
    by (auto simp: signatures_inv_def)
next
  case (signature d)
  then show ?thesis
    using insert_signature_data_inv [OF inv] by simp
next
  case (revocation h i k b)
  have "spark_db_inv db' \<and> stored_hashes db' = stored_hashes db"
    using revocation inv(1) outputs_update_inv [OF inv(1), of "\<lambda>r. r\<lparr>revocation_secret_key := Some (secret_bytes k)\<rparr>"]
    by (auto simp: set_revocation_secret_key_def outpoint_def stored_hashes_def split: if_splits)
  moreover have "operator_signatures db' = operator_signatures db \<and> user_signatures db' = user_signatures db"
    using revocation by (auto simp: set_revocation_secret_key_def split: if_splits)
  ultimately show ?thesis
    using inv(2) by (simp add: signatures_inv_def)
next
  case (status h s)
  then show ?thesis
    using set_token_transaction_status_inv [OF inv(1), of h s] inv(2)
    by (simp add: signatures_inv_def) (simp add: set_token_transaction_status_def)
next
  case (withdrawal j t vout bh)
  have "spark_db_inv db' \<and> stored_hashes db' = stored_hashes db"
    using withdrawal outputs_update_inv [OF inv(1),
      of "\<lambda>r. r\<lparr>so_withdraw_txid := Some t, so_withdraw_vout := Some vout, so_withdraw_blockhash := Some bh\<rparr>"]
    by (auto simp: mark_spark_output_as_withdrawn_def outpoint_def stored_hashes_def split: if_splits)
  moreover have "operator_signatures db' = operator_signatures db \<and> user_signatures db' = user_signatures db"
    using withdrawal by (auto simp: mark_spark_output_as_withdrawn_def split: if_splits)
  ultimately show ?thesis
    using inv(2) by (simp add: signatures_inv_def)
qed

lemma spark_db_reachable_inv:
  assumes "(spark_db_step L)\<^sup>*\<^sup>* SparkDb_empty db"
  shows "spark_db_inv db \<and> signatures_inv db"
  using assms
proof (induction rule: rtranclp_induct)
  case base
  then show ?case
    by (simp add: spark_db_inv_empty) (simp add: signatures_inv_def SparkDb_empty_def)
next
  case (step y z)
  then show ?case
    using spark_db_step_inv by blast
qed



end
