(* ===== verification/Messages.thy ===== *)
theory Messages
  imports Spark
begin

text \<open>
  The messages between the services of the node (crates/types/src/messages) and the
  blocks the Bitcoin node returns (crates/bitcoin-client/src/json.rs). The address of a
  peer and the channel on which a caller waits for an answer are numbers.
\<close>

type_synonym SocketAddr = nat
type_synonym channel = nat

record BlockData =
  blk_hash :: block_hash
  previousblockhash :: "block_hash option"
  blk_height :: u64

record GetBlockTxResult = BlockData +
  blk_tx :: "Transaction list"

datatype Inventory =
    Ltx txid
  | SparkTx hash256
  | SparkSignatures hash256
  | SparkFreeze TokensFreezeData

datatype ControllerP2PMessage =
    P2P_Inv "Inventory list" SocketAddr
  | P2P_GetData "Inventory list" SocketAddr
  | P2P_Lrc20Tx "Lrc20Transaction list" SocketAddr
  | P2P_SparkTxs "TokenTransaction list" SocketAddr
  | P2P_SparkSignatureData "SparkSignatureData list" SocketAddr

datatype ControllerMessage =
    InvalidTxs "txid list"
  | GetData "Inventory list" SocketAddr
  | PartiallyCheckedTxs "txid list"
  | FullyCheckedTxs "Lrc20Transaction list"
  | CheckedSparkTxs "TokenTransaction list"
  | CheckedSparkFreezeData "TokensFreezeData list"
  | MinedTxs "txid list"
  | ConfirmedTxs "txid list"
  | InitializeTxs "Lrc20Transaction list"
  | NewSparkTxs "TokenTransaction list" "channel option"
  | NewSparkSignaturesRequest "SparkSignatureData list" "channel option"
  | NewFreezeTokensRequest "TokensFreezeData list"
  | Reorganization "txid list" u64
  | AttachedTxs "txid list"
  | AttachedSparkTxs "TokenTransaction list"
  | P2P ControllerP2PMessage
  | InitialIndexingFinished

datatype TxCheckerMessage =
    FullCheck "(Lrc20Transaction \<times> SocketAddr option) list"
  | IsolatedCheck "Lrc20Transaction list"
  | SparkCheck "TokenTransaction list" "SocketAddr option" "channel option"
  | SparkSignatureCheck "SparkSignatureData list" "channel option"
  | TokensFreezeCheck "TokensFreezeData list"

datatype GraphBuilderMessage = CheckedTxs "Lrc20Transaction list"

datatype SparkGraphBuilderMessage = SparkCheckedTxs "TokenTransaction list"

datatype TxConfirmMessage = Txs "txid list" | Block GetBlockTxResult

datatype IndexerMessage = IndexerReorganization u64

end
