(* ===== verification/Tx_Confirm.thy ===== *)
theory Tx_Confirm
  imports Messages
begin

text \<open>
  Waiting for confirmations (crates/tx-confirm/src/lib.rs). The Bitcoin node is a
  parameter: what it answers to a request, or that the request fails. A handler that
  fails leaves the state as it is at that point, so errors carry the state and what had
  been sent. The time is in units since the epoch.
\<close>

section \<open>State\<close>

record BlockInfo =
  bi_hash :: block_hash
  bi_txs :: "txid list"

definition BlockInfo_from :: "lib \<Rightarrow> GetBlockTxResult \<Rightarrow> BlockInfo" where
  "BlockInfo_from L b = \<lparr>bi_hash = blk_hash b, bi_txs = map (tx_txid L) (blk_tx b)\<rparr>"

record TxConfirmator =
  conf_queue :: "(txid, nat) hmap"
  max_confirmation_time :: nat
  confirmations_number :: u8
  latest_blocks :: "BlockInfo list"

definition TxConfirmator_new :: "nat \<Rightarrow> u8 \<Rightarrow> TxConfirmator" where
  "TxConfirmator_new max_time n =
     \<lparr>conf_queue = [], max_confirmation_time = max_time, confirmations_number = n, latest_blocks = []\<rparr>"

datatype confirm_error =
    ForkTooBig
  | MissingPreviousHash
  | BitcoinRpcError

section \<open>Blocks\<close>

definition extract_waiting_txs_from_block :: "TxConfirmator \<Rightarrow> BlockInfo \<Rightarrow> txid list" where
  "extract_waiting_txs_from_block c b = filter (hcontains (conf_queue c)) (bi_txs b)"

definition handle_mined_txs :: "txid list \<Rightarrow> ControllerMessage list" where
  "handle_mined_txs txids = (if txids = [] then [] else [MinedTxs txids])"

definition new_confirmed_txs :: "txid list \<Rightarrow> TxConfirmator \<Rightarrow> TxConfirmator \<times> ControllerMessage list" where
  "new_confirmed_txs txids c =
     (c\<lparr>conf_queue := fold hremove txids (conf_queue c)\<rparr>, [ConfirmedTxs txids])"

text \<open>Walking back from the new block: the last indexed blocks are popped (the argument lists
  them from the newest) until one is the block the new chain has at that place.\<close>

type_synonym get_block_info = "block_hash \<Rightarrow> unit + BlockData"

fun reorg_loop ::
  "get_block_info \<Rightarrow> TxConfirmator \<Rightarrow> BlockInfo list \<Rightarrow> block_hash option \<Rightarrow> u64 \<Rightarrow> txid list \<Rightarrow>
     (confirm_error \<times> BlockInfo list) + (BlockInfo list \<times> u64 \<times> txid list)" where
  "reorg_loop rpc c [] prev height reorged = Inl (ForkTooBig, [])"
| "reorg_loop rpc c (b # bs) prev height reorged =
     (case prev of
        None \<Rightarrow> Inl (MissingPreviousHash, bs)
      | Some h \<Rightarrow>
          if bi_hash b = h then Inr (b # bs, height - 1, reorged)
          else case rpc h of
              Inl _ \<Rightarrow> Inl (BitcoinRpcError, bs)
            | Inr blk \<Rightarrow> reorg_loop rpc c bs (previousblockhash blk) (height - 1)
                           (reorged @ extract_waiting_txs_from_block c b))"

definition handle_reorg ::
  "get_block_info \<Rightarrow> GetBlockTxResult \<Rightarrow> TxConfirmator \<Rightarrow>
     (confirm_error \<times> TxConfirmator) + (TxConfirmator \<times> ControllerMessage list)" where
  "handle_reorg rpc new_block c =
     (case reorg_loop rpc c (rev (latest_blocks c)) (previousblockhash new_block) (blk_height new_block) [] of
        Inl (e, bs) \<Rightarrow> Inl (e, c\<lparr>latest_blocks := rev bs\<rparr>)
      | Inr (bs, height, reorged) \<Rightarrow>
          Inr (c\<lparr>latest_blocks := rev bs, conf_queue := fold hremove reorged (conf_queue c)\<rparr>,
               [Reorganization reorged height]))"

text \<open>The tail of handle_new_block: when enough blocks have been indexed, the oldest one
  leaves and its waiting transactions are confirmed.\<close>

definition confirm_oldest :: "TxConfirmator \<Rightarrow> TxConfirmator \<times> ControllerMessage list" where
  "confirm_oldest c =
     (if length (latest_blocks c) = unat (confirmations_number c) then
        case latest_blocks c of
          [] \<Rightarrow> (c, [])
        | confirmed # rest \<Rightarrow>
            let c1 = c\<lparr>latest_blocks := rest\<rparr>;
                lrc20_txs = extract_waiting_txs_from_block c1 confirmed in
            if lrc20_txs = [] then (c1, []) else new_confirmed_txs lrc20_txs c1
      else (c, []))"

definition parent_mismatch :: "GetBlockTxResult \<Rightarrow> TxConfirmator \<Rightarrow> bool" where
  "parent_mismatch b c =
     (case previousblockhash b of
        None \<Rightarrow> False
      | Some h \<Rightarrow> latest_blocks c \<noteq> [] \<and> bi_hash (last (latest_blocks c)) \<noteq> h)"

definition handle_new_block ::
  "lib \<Rightarrow> get_block_info \<Rightarrow> GetBlockTxResult \<Rightarrow> TxConfirmator \<Rightarrow>
     (confirm_error \<times> TxConfirmator) + (TxConfirmator \<times> ControllerMessage list)" where
  "handle_new_block L rpc b c =
     (if parent_mismatch b c then handle_reorg rpc b c
      else
        let info = BlockInfo_from L b;
            mined = extract_waiting_txs_from_block c info;
            (c1, out) = confirm_oldest (c\<lparr>latest_blocks := latest_blocks c @ [info]\<rparr>) in
        Inr (c1, handle_mined_txs mined @ out))"

section \<open>Transactions to confirm\<close>

text \<open>What the Bitcoin node says of a transaction: unknown (error code -5), another failure,
  or its number of confirmations if it is mined.\<close>

datatype raw_transaction_info =
    TxNotFound
  | TxRequestFailed
  | TxInfo "u32 option"

definition handle_tx_to_confirm ::
  "(txid \<Rightarrow> raw_transaction_info) \<Rightarrow> nat \<Rightarrow> txid \<Rightarrow> TxConfirmator \<Rightarrow>
     (confirm_error \<times> TxConfirmator) + (TxConfirmator \<times> ControllerMessage list)" where
  "handle_tx_to_confirm rpc now t c =
     (let c1 = (if hcontains (conf_queue c) t then c else c\<lparr>conf_queue := hinsert t now (conf_queue c)\<rparr>) in
      case rpc t of
        TxNotFound \<Rightarrow> Inr (c1, [])
      | TxRequestFailed \<Rightarrow> Inl (BitcoinRpcError, c1)
      | TxInfo None \<Rightarrow> Inr (c1, [])
      | TxInfo (Some confirmations) \<Rightarrow>
          if ucast (confirmations_number c) \<le> confirmations
          then let (c2, out) = new_confirmed_txs [t] c1 in Inr (c2, handle_mined_txs [t] @ out)
          else Inr (c1, handle_mined_txs [t]))"

text \<open>The loop over the transactions of an event: the messages sent before a failure stay
  sent.\<close>

fun handle_txs_to_confirm ::
  "(txid \<Rightarrow> raw_transaction_info) \<Rightarrow> nat \<Rightarrow> txid list \<Rightarrow> TxConfirmator \<Rightarrow> ControllerMessage list \<Rightarrow>
     (confirm_error \<times> TxConfirmator \<times> ControllerMessage list) + (TxConfirmator \<times> ControllerMessage list)" where
  "handle_txs_to_confirm rpc now [] c out = Inr (c, out)"
| "handle_txs_to_confirm rpc now (t # ts) c out =
     (case handle_tx_to_confirm rpc now t c of
        Inl (e, c') \<Rightarrow> Inl (e, c', out)
      | Inr (c', out') \<Rightarrow> handle_txs_to_confirm rpc now ts c' (out @ out'))"

definition confirm_handle_event ::
  "lib \<Rightarrow> get_block_info \<Rightarrow> (txid \<Rightarrow> raw_transaction_info) \<Rightarrow> nat \<Rightarrow> TxConfirmMessage \<Rightarrow> TxConfirmator \<Rightarrow>
     (confirm_error \<times> TxConfirmator \<times> ControllerMessage list) + (TxConfirmator \<times> ControllerMessage list)" where
  "confirm_handle_event L get_block get_tx now event c =
     (case event of
        Txs txids \<Rightarrow> handle_txs_to_confirm get_tx now txids c []
      | Block b \<Rightarrow> map_err (\<lambda>(e, c'). (e, c', [])) (handle_new_block L get_block b c))"

text \<open>The clean-up unwraps the age of an entry: it panics when the clock went backwards.\<close>

definition clean_up_waiting_txs :: "nat \<Rightarrow> TxConfirmator \<Rightarrow> unit fault + TxConfirmator" where
  "clean_up_waiting_txs now c =
     foldM (\<lambda>c (t, created_at).
       if now < created_at then Inl Panics
       else Inr (if max_confirmation_time c < now - created_at
                 then c\<lparr>conf_queue := hremove t (conf_queue c)\<rparr> else c)) c (conf_queue c)"

section \<open>What the confirmator promises\<close>

text \<open>The waiting transactions, the ones a list of messages reports as confirmed, and a
  run of consecutive blocks.\<close>

definition waiting :: "TxConfirmator \<Rightarrow> txid set" where
  "waiting c = fst ` set (conf_queue c)"

definition confirmed_by :: "ControllerMessage list \<Rightarrow> txid set" where
  "confirmed_by out = (\<Union>m \<in> set out. case m of ConfirmedTxs ts \<Rightarrow> set ts | _ \<Rightarrow> {})"

definition mined_by :: "ControllerMessage list \<Rightarrow> txid set" where
  "mined_by out = (\<Union>m \<in> set out. case m of MinedTxs ts \<Rightarrow> set ts | _ \<Rightarrow> {})"

definition index_blocks ::
  "lib \<Rightarrow> get_block_info \<Rightarrow> GetBlockTxResult list \<Rightarrow> TxConfirmator \<Rightarrow>
     (confirm_error \<times> TxConfirmator) + (TxConfirmator \<times> ControllerMessage list)" where
  "index_blocks L rpc bs c =
     foldM (\<lambda>(c, out) b. rbind (handle_new_block L rpc b c) (\<lambda>(c', out'). Inr (c', out @ out'))) (c, []) bs"

fun linked :: "GetBlockTxResult list \<Rightarrow> bool" where
  "linked (a # b # bs) = (previousblockhash b = Some (blk_hash a) \<and> linked (b # bs))"
| "linked _ = True"

definition block_txids :: "lib \<Rightarrow> GetBlockTxResult \<Rightarrow> txid set" where
  "block_txids L b = tx_txid L ` set (blk_tx b)"

lemma hcontains_waiting: "hcontains (conf_queue c) t \<longleftrightarrow> t \<in> waiting c"
  by (simp add: hcontains_def waiting_def map_of_eq_None_iff)

lemma keys_fold_hremove: "fst ` set (fold AList.delete ts m) = fst ` set m - set ts"
proof (induction ts arbitrary: m)
  case (Cons t ts)
  have "fst ` set (AList.delete t m) = fst ` set m - {t}"
    by (auto simp: AList.delete_eq)
  with Cons show ?case by auto
qed simp

lemma extract_waiting:
  "set (extract_waiting_txs_from_block c b) = set (bi_txs b) \<inter> waiting c"
  by (simp add: extract_waiting_txs_from_block_def Int_def hcontains_waiting [symmetric])

lemma waiting_latest [simp]: "waiting (c\<lparr>latest_blocks := bs\<rparr>) = waiting c"
  by (simp add: waiting_def)

lemma waiting_queue: "waiting (c\<lparr>conf_queue := q\<rparr>) = fst ` set q"
  by (simp add: waiting_def)

lemma confirmed_by_simps [simp]:
  "confirmed_by [] = {}"
  "confirmed_by (xs @ ys) = confirmed_by xs \<union> confirmed_by ys"
  "confirmed_by (handle_mined_txs ts) = {}"
  "confirmed_by [ConfirmedTxs ts] = set ts"
  by (auto simp: confirmed_by_def handle_mined_txs_def)

lemma mined_by_simps [simp]:
  "mined_by [] = {}"
  "mined_by (xs @ ys) = mined_by xs \<union> mined_by ys"
  "mined_by (handle_mined_txs ts) = set ts"
  "mined_by [ConfirmedTxs ts] = {}"
  by (auto simp: mined_by_def handle_mined_txs_def)

lemma new_confirmed_txs_waiting:
  "new_confirmed_txs ts c = (c', out) \<Longrightarrow>
     waiting c' = waiting c - set ts \<and> confirmed_by out = set ts \<and> mined_by out = {}
     \<and> latest_blocks c' = latest_blocks c \<and> confirmations_number c' = confirmations_number c"
  by (clarsimp simp: new_confirmed_txs_def) (simp add: waiting_def keys_fold_hremove)

text \<open>A block that extends the last one: the oldest block leaves exactly when it has the
  required number of confirmations.\<close>

lemma confirm_oldest_waits:
  "length (latest_blocks c) \<noteq> unat (confirmations_number c) \<Longrightarrow> confirm_oldest c = (c, [])"
  by (simp add: confirm_oldest_def)

lemma confirm_oldest_confirms:
  assumes "latest_blocks c = b # bs" and "length (b # bs) = unat (confirmations_number c)"
    and "confirm_oldest c = (c', out)"
  shows "latest_blocks c' = bs \<and> confirmations_number c' = confirmations_number c
    \<and> waiting c' = waiting c - set (bi_txs b) \<and> confirmed_by out = set (bi_txs b) \<inter> waiting c
    \<and> mined_by out = {}"
proof (cases "extract_waiting_txs_from_block (c\<lparr>latest_blocks := bs\<rparr>) b = []")
  case True
  then have "set (bi_txs b) \<inter> waiting c = {}"
    using extract_waiting [of "c\<lparr>latest_blocks := bs\<rparr>" b] by simp
  with True assms show ?thesis
    by (auto simp: confirm_oldest_def)
next
  case False
  then have "new_confirmed_txs (extract_waiting_txs_from_block (c\<lparr>latest_blocks := bs\<rparr>) b)
      (c\<lparr>latest_blocks := bs\<rparr>) = (c', out)"
    using assms by (simp add: confirm_oldest_def Let_def)
  from new_confirmed_txs_waiting [OF this] show ?thesis
    by (auto simp: extract_waiting)
qed

lemma handle_new_block_extends:
  assumes "\<not> parent_mismatch b c"
  shows "\<exists>c1 out. confirm_oldest (c\<lparr>latest_blocks := latest_blocks c @ [BlockInfo_from L b]\<rparr>) = (c1, out)
    \<and> handle_new_block L rpc b c =
        Inr (c1, handle_mined_txs (extract_waiting_txs_from_block c (BlockInfo_from L b)) @ out)"
  using assms by (simp add: handle_new_block_def Let_def split: prod.split)

lemma linked_snoc: "linked (bs @ [b]) \<longleftrightarrow>
    linked bs \<and> (bs = [] \<or> previousblockhash b = Some (blk_hash (last bs)))"
  by (induction bs rule: linked.induct) auto

lemma set_bi_txs [simp]: "set (bi_txs (BlockInfo_from L b)) = block_txids L b"
  by (simp add: BlockInfo_from_def block_txids_def)

lemma bi_hash_from [simp]: "bi_hash (BlockInfo_from L b) = blk_hash b"
  by (simp add: BlockInfo_from_def)

text \<open>The state after a run: the confirmator keeps the blocks that still lack
  confirmations.\<close>

definition buried :: "nat \<Rightarrow> 'a list \<Rightarrow> 'a list" where
  "buried n bs = take (Suc (length bs) - n) bs"

lemma buried_snoc_waits: "Suc (length bs) < n \<Longrightarrow> buried n (bs @ [b]) = []"
  by (simp add: buried_def)

lemma buried_snoc_confirms:
  assumes "0 < n" and "n \<le> Suc (length bs)"
  shows "buried n (bs @ [b]) = buried n bs @ [(bs @ [b]) ! (Suc (length bs) - n)]"
proof -
  have "Suc (length (bs @ [b])) - n = Suc (Suc (length bs) - n)"
    using assms by (simp add: Suc_diff_le)
  then have "buried n (bs @ [b]) = take (Suc (Suc (length bs) - n)) (bs @ [b])"
    by (simp only: buried_def)
  also have "\<dots> = take (Suc (length bs) - n) (bs @ [b]) @ [(bs @ [b]) ! (Suc (length bs) - n)]"
    using assms by (intro take_Suc_conv_app_nth) simp
  finally show ?thesis
    using assms by (simp add: buried_def)
qed

lemma set_buried:
  assumes "0 < n"
  shows "set (buried n bs) = {bs ! i |i. i < length bs \<and> n \<le> length bs - i}"
proof -
  have "i < Suc (length bs) - n \<longleftrightarrow> i < length bs \<and> n \<le> length bs - i" for i
    using assms by auto
  then have "(!) bs ` {0..<Suc (length bs) - n} = {bs ! i |i. i < length bs \<and> n \<le> length bs - i}"
    by auto
  moreover have "Suc (length bs) - n \<le> length bs"
    using assms by simp
  ultimately show ?thesis
    by (simp add: buried_def flip: nth_image)
qed

lemma index_blocks_run:
  assumes n: "n = unat (confirmations_number c)" "0 < n" and c: "latest_blocks c = []" and "linked bs"
  shows "\<exists>c' out. index_blocks L rpc bs c = Inr (c', out)
    \<and> latest_blocks c' = map (BlockInfo_from L) (drop (Suc (length bs) - n) bs)
    \<and> confirmations_number c' = confirmations_number c
    \<and> waiting c' = waiting c - (\<Union>b \<in> set (buried n bs). block_txids L b)
    \<and> confirmed_by out = waiting c \<inter> (\<Union>b \<in> set (buried n bs). block_txids L b)"
  using \<open>linked bs\<close>
proof (induction bs rule: rev_induct)
  case Nil
  then show ?case
    using n c by (auto simp: index_blocks_def buried_def)
next
  case (snoc b bs)
  then obtain c1 out where IH: "index_blocks L rpc bs c = Inr (c1, out)"
      "latest_blocks c1 = map (BlockInfo_from L) (drop (Suc (length bs) - n) bs)"
      "confirmations_number c1 = confirmations_number c"
      "waiting c1 = waiting c - (\<Union>b \<in> set (buried n bs). block_txids L b)"
      "confirmed_by out = waiting c \<inter> (\<Union>b \<in> set (buried n bs). block_txids L b)"
    by (auto simp: linked_snoc)
  let ?c = "c1\<lparr>latest_blocks := latest_blocks c1 @ [BlockInfo_from L b]\<rparr>"
  have "\<not> parent_mismatch b c1"
    using snoc.prems IH(2)
    by (cases "drop (Suc (length bs) - n) bs = []")
      (auto simp: parent_mismatch_def linked_snoc last_map last_drop split: option.splits)
  from handle_new_block_extends [OF this, of L rpc] obtain c2 out2 where
      step: "confirm_oldest ?c = (c2, out2)"
      "handle_new_block L rpc b c1 = Inr (c2, handle_mined_txs (extract_waiting_txs_from_block c1 (BlockInfo_from L b)) @ out2)"
    by blast
  have run: "index_blocks L rpc (bs @ [b]) c =
      Inr (c2, out @ handle_mined_txs (extract_waiting_txs_from_block c1 (BlockInfo_from L b)) @ out2)"
    using IH(1) step(2) by (simp add: index_blocks_def foldM_append)
  have all: "latest_blocks ?c = map (BlockInfo_from L) (drop (Suc (length bs) - n) (bs @ [b]))"
    using IH(2) n(2) by simp
  show ?case
  proof (cases "n \<le> Suc (length bs)")
    case False
    then have "length (latest_blocks ?c) \<noteq> unat (confirmations_number ?c)"
      using IH(2,3) n by simp
    from confirm_oldest_waits [OF this] False show ?thesis
      using run step(1) IH all by (auto simp: buried_def)
  next
    case True
    then have d: "drop (Suc (length bs) - n) (bs @ [b]) =
        (bs @ [b]) ! (Suc (length bs) - n) # drop (Suc (length (bs @ [b])) - n) (bs @ [b])"
      using n(2) by (simp add: Cons_nth_drop_Suc Suc_diff_le del: drop_append)
    have len: "length (latest_blocks ?c) = unat (confirmations_number ?c)"
      using IH(2,3) n True by simp
    have first: "latest_blocks ?c = BlockInfo_from L ((bs @ [b]) ! (Suc (length bs) - n)) #
        map (BlockInfo_from L) (drop (Suc (length (bs @ [b])) - n) (bs @ [b]))"
      unfolding all d by (rule list.map)
    from confirm_oldest_confirms [OF first len [unfolded first] step(1)] run IH show ?thesis
      unfolding buried_snoc_confirms [OF n(2) True] by auto
  qed
qed


text \<open>A reorganisation: the popped blocks are the ones above the common ancestor, and the node
  is asked for the blocks of the new chain at their heights.\<close>

fun fork_branch :: "get_block_info \<Rightarrow> block_hash option \<Rightarrow> BlockInfo list \<Rightarrow> block_hash \<Rightarrow> bool" where
  "fork_branch rpc prev [] anc = (prev = Some anc)"
| "fork_branch rpc prev (b # bs) anc =
     (case prev of
        None \<Rightarrow> False
      | Some h \<Rightarrow> h \<noteq> bi_hash b \<and>
          (case rpc h of Inl _ \<Rightarrow> False | Inr blk \<Rightarrow> fork_branch rpc (previousblockhash blk) bs anc))"

lemma reorg_loop_finds_ancestor:
  "fork_branch rpc prev orphans (bi_hash a) \<Longrightarrow>
     reorg_loop rpc c (orphans @ a # kept) prev h acc =
       Inr (a # kept, h - of_nat (Suc (length orphans)),
            acc @ concat (map (extract_waiting_txs_from_block c) orphans))"
proof (induction orphans arbitrary: prev h acc)
  case (Cons b bs)
  then show ?case
    by (auto simp: algebra_simps split: option.splits sum.splits)
qed simp

lemma reorg_loop_too_long:
  assumes "\<And>b. b \<in> set bs \<Longrightarrow> bi_hash b \<notin> range branch" and "prev = Some (branch i)"
    and "\<And>i. \<exists>d. rpc (branch i) = Inr d \<and> previousblockhash d = Some (branch (Suc i))"
  shows "reorg_loop rpc c bs prev h acc = Inl (ForkTooBig, [])"
  using assms(1,2)
proof (induction bs arbitrary: prev i h acc)
  case (Cons b bs)
  obtain d where "rpc (branch i) = Inr d" "previousblockhash d = Some (branch (Suc i))"
    using assms(3) by blast
  moreover have "bi_hash b \<noteq> branch i"
    using Cons.prems(1) [of b] by auto
  ultimately show ?case
    using Cons by auto
qed simp

lemma reorg_loop_success:
  assumes "reorg_loop rpc c bs prev h acc = Inr (kept, h', txs)"
  shows "\<exists>orphans a rest. bs = orphans @ a # rest \<and> kept = a # rest
    \<and> fork_branch rpc prev orphans (bi_hash a)"
  using assms
proof (induction bs arbitrary: prev h acc)
  case (Cons b bs)
  from Cons.prems obtain p where p: "prev = Some p" by (cases prev) auto
  show ?case
  proof (cases "bi_hash b = p")
    case True
    with Cons.prems p show ?thesis
      by (intro exI [of _ "[]"] exI [of _ b] exI [of _ bs]) simp
  next
    case False
    with Cons.prems p obtain d where d: "rpc p = Inr d"
        "reorg_loop rpc c bs (previousblockhash d) (h - 1) (acc @ extract_waiting_txs_from_block c b) = Inr (kept, h', txs)"
      by (auto split: sum.splits)
    from Cons.IH [OF d(2)] obtain orphans a rest where "bs = orphans @ a # rest" "kept = a # rest"
        "fork_branch rpc (previousblockhash d) orphans (bi_hash a)" by blast
    with p False d(1) show ?thesis
      by (intro exI [of _ "b # orphans"] exI [of _ a] exI [of _ rest]) auto
  qed
qed simp

section \<open>Properties\<close>

text \<open>C29. Confirmation depth. Along a chain of consecutive blocks the confirmator never fails,
  and after any number of blocks the transactions it has reported as confirmed are exactly the
  waiting ones of the blocks with at least the required number of confirmations (the block
  itself counts as one). These leave the queue, the others stay in it, and the blocks kept
  for reorganisations are the ones below that depth.\<close>

theorem confirmation_depth:
  assumes "0 < confirmations_number c" and "latest_blocks c = []" and "linked bs"
  shows "\<exists>c' out. index_blocks L rpc bs c = Inr (c', out)
    \<and> (\<forall>t. t \<in> confirmed_by out \<longleftrightarrow>
         t \<in> waiting c \<and> (\<exists>i < length bs. t \<in> block_txids L (bs ! i)
                              \<and> unat (confirmations_number c) \<le> length bs - i))
    \<and> waiting c' = waiting c - confirmed_by out
    \<and> latest_blocks c' = map (BlockInfo_from L) (drop (Suc (length bs) - unat (confirmations_number c)) bs)"
proof -
  let ?n = "unat (confirmations_number c)"
  have n: "0 < ?n" using assms(1) by (simp add: word_less_nat_alt)
  obtain c' out where run: "index_blocks L rpc bs c = Inr (c', out)"
      "latest_blocks c' = map (BlockInfo_from L) (drop (Suc (length bs) - ?n) bs)"
      "waiting c' = waiting c - (\<Union>b \<in> set (buried ?n bs). block_txids L b)"
      "confirmed_by out = waiting c \<inter> (\<Union>b \<in> set (buried ?n bs). block_txids L b)"
    using index_blocks_run [OF refl n assms(2,3), of L rpc] by blast
  have "t \<in> confirmed_by out \<longleftrightarrow> t \<in> waiting c \<and>
      (\<exists>i < length bs. t \<in> block_txids L (bs ! i) \<and> ?n \<le> length bs - i)" for t
    unfolding run(4) set_buried [OF n] by auto
  moreover have "waiting c' = waiting c - confirmed_by out"
    unfolding run(3,4) by auto
  ultimately show ?thesis
    using run(1,2) by auto
qed


definition example_block :: "nat \<Rightarrow> nat \<Rightarrow> Transaction list \<Rightarrow> GetBlockTxResult" where
  "example_block h p txs =
     \<lparr>blk_hash = of_nat h, previousblockhash = Some (of_nat p), blk_height = of_nat h, blk_tx = txs\<rparr>"

definition example_confirmator :: "TxConfirmator" where
  "example_confirmator = \<lparr>conf_queue = [(7, 0)], max_confirmation_time = 100,
     confirmations_number = 2, latest_blocks = []\<rparr>"

lemma confirmation_depth_witness:
  "\<exists>c' out. index_blocks lib0 (\<lambda>_. Inl ()) [example_block 1 0 [], example_block 2 1 []] example_confirmator = Inr (c', out)
    \<and> latest_blocks c' = [BlockInfo_from lib0 (example_block 2 1 [])]"
  using confirmation_depth [of example_confirmator "[example_block 1 0 [], example_block 2 1 []]" lib0 "\<lambda>_. Inl ()"]
  by (auto simp: example_confirmator_def example_block_def)

lemma handle_reorg_iff:
  assumes "parent_mismatch b c"
  shows "handle_new_block L rpc b c = Inr (c', out) \<longleftrightarrow>
    (\<exists>kept a orphans txs.
        latest_blocks c = kept @ a # orphans
      \<and> fork_branch rpc (previousblockhash b) (rev orphans) (bi_hash a)
      \<and> txs = concat (map (extract_waiting_txs_from_block c) (rev orphans))
      \<and> c' = c\<lparr>latest_blocks := kept @ [a], conf_queue := fold hremove txs (conf_queue c)\<rparr>
      \<and> out = [Reorganization txs (blk_height b - of_nat (Suc (length orphans)))])"
    (is "?l \<longleftrightarrow> ?r")
proof
  assume ?l
  then obtain bs h txs where loop:
      "reorg_loop rpc c (rev (latest_blocks c)) (previousblockhash b) (blk_height b) [] = Inr (bs, h, txs)"
    using assms by (auto simp: handle_new_block_def handle_reorg_def split: sum.splits)
  from reorg_loop_success [OF this] obtain orphans a rest where
      d: "rev (latest_blocks c) = orphans @ a # rest" and f: "fork_branch rpc (previousblockhash b) orphans (bi_hash a)"
    by blast
  then have "latest_blocks c = rev rest @ a # rev orphans"
    by (metis append.assoc append_Cons append_Nil rev.simps(2) rev_append rev_rev_ident)
  moreover have "(bs, h, txs) = (a # rest, blk_height b - of_nat (Suc (length orphans)),
      concat (map (extract_waiting_txs_from_block c) orphans))"
    using loop unfolding d reorg_loop_finds_ancestor [OF f] by simp
  ultimately show ?r
    using \<open>?l\<close> assms loop f
    by (intro exI [of _ "rev rest"] exI [of _ a] exI [of _ "rev orphans"])
      (auto simp: handle_new_block_def handle_reorg_def)
next
  assume ?r
  then show ?l
    using assms by (auto simp: handle_new_block_def handle_reorg_def reorg_loop_finds_ancestor)
qed

lemma reorg_success_shape:
  assumes "parent_mismatch b c" and "handle_new_block L rpc b c = Inr (c', [Reorganization txs h])"
  obtains kept a orphans where "latest_blocks c = kept @ a # orphans" "latest_blocks c' = kept @ [a]"
    "h = blk_height b - of_nat (Suc (length orphans))"
  using assms(2) unfolding handle_reorg_iff [OF assms(1)] by auto

text \<open>C30. Reorganisations. When a block does not extend the last indexed one, the confirmator
  succeeds exactly when the chain of the new block leads back to an indexed block through blocks
  that are not the indexed ones. It then drops the blocks above that ancestor, gives up on
  their waiting transactions, reports these, and asks for indexing to go on after the ancestor:
  the height it reports is one less than the new block's for the ancestor and for each dropped
  block.\<close>

theorem reorg_back_to_ancestor:
  assumes "parent_mismatch b c"
  shows "handle_new_block L rpc b c = Inr (c', out) \<longleftrightarrow>
    (\<exists>kept a orphans txs.
        latest_blocks c = kept @ a # orphans
      \<and> fork_branch rpc (previousblockhash b) (rev orphans) (bi_hash a)
      \<and> txs = concat (map (extract_waiting_txs_from_block c) (rev orphans))
      \<and> c' = c\<lparr>latest_blocks := kept @ [a], conf_queue := fold hremove txs (conf_queue c)\<rparr>
      \<and> out = [Reorganization txs (blk_height b - of_nat (Suc (length orphans)))])"
  by (rule handle_reorg_iff [OF assms])

lemma reorg_back_to_ancestor_witness:
  "\<exists>kept a orphans txs. latest_blocks (example_confirmator\<lparr>latest_blocks :=
        [\<lparr>bi_hash = 1, bi_txs = []\<rparr>, \<lparr>bi_hash = 2, bi_txs = [7]\<rparr>]\<rparr>) = kept @ a # orphans
      \<and> [Reorganization [7] 1] = [Reorganization txs (3 - of_nat (Suc (length orphans)))]"
proof -
  let ?c = "example_confirmator\<lparr>latest_blocks :=
        [\<lparr>bi_hash = 1, bi_txs = []\<rparr>, \<lparr>bi_hash = 2, bi_txs = [7]\<rparr>]\<rparr>"
  let ?rpc = "(\<lambda>_. Inr \<lparr>blk_hash = 22, previousblockhash = Some 1, blk_height = 2\<rparr>) :: get_block_info"
  have m: "parent_mismatch (example_block 3 22 []) ?c"
    by (simp add: parent_mismatch_def example_block_def)
  have "handle_new_block lib0 ?rpc (example_block 3 22 []) ?c = Inr
      (?c\<lparr>latest_blocks := [\<lparr>bi_hash = 1, bi_txs = []\<rparr>], conf_queue := []\<rparr>, [Reorganization [7] 1])"
    using m by (simp add: handle_new_block_def handle_reorg_def example_block_def example_confirmator_def
        extract_waiting_txs_from_block_def)
  then show ?thesis
    unfolding reorg_back_to_ancestor [OF m] by (auto simp: example_block_def)
qed



text \<open>With zero as the number of confirmations (the default when the configuration has no
  section for the indexer) no block ever confirms a transaction, and the confirmator keeps
  every block.\<close>

theorem zero_confirmations_never_confirm:
  assumes "confirmations_number c = 0" and "handle_new_block L rpc b c = Inr (c', out)"
  shows "confirmed_by out = {}"
proof (cases "parent_mismatch b c")
  case True
  with assms(2) show ?thesis
    by (auto simp: handle_new_block_def handle_reorg_def confirmed_by_def split: sum.splits)
next
  case False
  then show ?thesis
    using assms handle_new_block_extends [OF False, of L rpc] by (auto simp: confirm_oldest_waits)
qed

lemma zero_confirmations_never_confirm_witness:
  "confirmed_by [MinedTxs [7 * 65536]] = {}"
proof -
  let ?c = "example_confirmator\<lparr>confirmations_number := 0, conf_queue := [(7 * 65536, 0)]\<rparr>"
  let ?b = "example_block 1 0 [\<lparr>tx_version = 2, tx_lock_time = 7, tx_input = [], tx_output = []\<rparr>]"
  have "handle_new_block lib0 (\<lambda>_. Inl ()) ?b ?c =
      Inr (?c\<lparr>latest_blocks := [BlockInfo_from lib0 ?b]\<rparr>, [MinedTxs [7 * 65536]])"
    by (simp add: handle_new_block_def parent_mismatch_def example_confirmator_def example_block_def
        confirm_oldest_def handle_mined_txs_def extract_waiting_txs_from_block_def BlockInfo_from_def lib0_def Let_def)
  from zero_confirmations_never_confirm [OF _ this] show ?thesis by simp
qed


lemma clean_up_loop:
  assumes "\<And>t k. (t, k) \<in> set es \<Longrightarrow> k \<le> now"
  shows "foldM (\<lambda>c (t, created_at).
       if now < created_at then Inl Panics
       else Inr (if max_confirmation_time c < now - created_at
                 then c\<lparr>conf_queue := hremove t (conf_queue c)\<rparr> else c)) c es
    = Inr (c\<lparr>conf_queue := fold hremove (map fst (filter (\<lambda>(t, k). max_confirmation_time c < now - k) es)) (conf_queue c)\<rparr>)"
  using assms
proof (induction es arbitrary: c)
  case (Cons e es)
  obtain t k where "e = (t, k)" by force
  moreover from this have "\<not> now < k"
    using Cons.prems [of t k] by simp
  moreover have "\<And>t k. (t, k) \<in> set es \<Longrightarrow> k \<le> now"
    using Cons.prems by auto
  ultimately show ?case
    using Cons.IH by simp
qed simp

lemma clean_up_loop_panics:
  assumes "(t, k) \<in> set es" and "now < k"
  shows "foldM (\<lambda>c (t, created_at).
       if now < created_at then Inl Panics
       else Inr (if max_confirmation_time c < now - created_at
                 then c\<lparr>conf_queue := hremove t (conf_queue c)\<rparr> else c)) c es = Inl Panics"
  using assms by (induction es arbitrary: c) (auto split: prod.splits)

text \<open>The clean-up drops exactly the transactions that wait longer than the maximal time, and
  panics exactly when the clock is behind the time at which some transaction was queued.\<close>

theorem clean_up_drops_old:
  assumes "distinct (map fst (conf_queue c))"
  shows "if \<exists>(t, k) \<in> set (conf_queue c). now < k then clean_up_waiting_txs now c = Inl Panics
    else \<exists>c'. clean_up_waiting_txs now c = Inr c' \<and>
      waiting c' = {t. \<exists>k. hget (conf_queue c) t = Some k \<and> now - k \<le> max_confirmation_time c}"
proof (cases "\<exists>(t, k) \<in> set (conf_queue c). now < k")
  case True
  then show ?thesis
    using clean_up_loop_panics by (fastforce simp: clean_up_waiting_txs_def)
next
  case False
  let ?old = "filter (\<lambda>(t, k). max_confirmation_time c < now - k) (conf_queue c)"
  have run: "clean_up_waiting_txs now c = Inr (c\<lparr>conf_queue := fold hremove (map fst ?old) (conf_queue c)\<rparr>)"
    unfolding clean_up_waiting_txs_def using False by (intro clean_up_loop) auto
  have "fst ` set ?old =
      {t. \<exists>k. hget (conf_queue c) t = Some k \<and> max_confirmation_time c < now - k}"
    using assms by (auto simp: image_iff)
  moreover have "fst ` set (conf_queue c) = {t. \<exists>k. hget (conf_queue c) t = Some k}"
    unfolding dom_map_of_conv_image_fst [symmetric] by auto
  ultimately have "fst ` set (conf_queue c) - fst ` set ?old =
      {t. \<exists>k. hget (conf_queue c) t = Some k \<and> now - k \<le> max_confirmation_time c}"
    by (simp only:) (auto simp: not_less)
  then have "waiting (c\<lparr>conf_queue := fold hremove (map fst ?old) (conf_queue c)\<rparr>) =
      {t. \<exists>k. hget (conf_queue c) t = Some k \<and> now - k \<le> max_confirmation_time c}"
    by (simp only: waiting_queue keys_fold_hremove set_map)
  with run show ?thesis
    using False by auto
qed

lemma clean_up_drops_old_witness:
  "\<exists>c'. clean_up_waiting_txs 200 (example_confirmator\<lparr>conf_queue := [(7, 0), (8, 150)]\<rparr>) = Inr c'
     \<and> waiting c' = {8}"
  using clean_up_drops_old [of "example_confirmator\<lparr>conf_queue := [(7, 0), (8, 150)]\<rparr>" 200]
  by (simp add: example_confirmator_def) (auto split: if_splits)

end
