(* ===== verification/Indexer.thy ===== *)
theory Indexer
  imports Tx_Confirm "HOL-Library.Sublist"
begin

text \<open>
  The indexer of Bitcoin blocks (crates/indexers/src): the block loader with its workers as a
  step relation over the two channels, the initial indexing, the polling for new blocks, the
  reaction to a reorganisation, and the sub-indexer for announcements. What the Bitcoin node
  and the storage answer is a parameter.
\<close>

section \<open>Loading blocks\<close>

datatype FetchLoadedBlockEvent = Loaded GetBlockTxResult | FailedBlock u64

datatype IndexBlocksEvent = LoadedBlocks "GetBlockTxResult list" | FinishLoading | Cancelled

text \<open>The loader is between two chunks, sending the heights of a chunk to the workers,
  waiting for the blocks of a chunk of the given size, or done. A worker that has taken a
  height holds it until it has answered.\<close>

datatype loader_phase =
    NextChunk
  | SendHeights "u64 list" nat
  | Receive nat
  | Finished

record BlockLoader =
  phase :: loader_phase
  chunks :: "u64 list list"
  load_channel :: "u64 list"
  in_work :: "u64 list"
  loaded_channel :: "FetchLoadedBlockEvent list"
  loaded_blocks :: "GetBlockTxResult list"
  received_blocks :: nat
  to_indexer :: "IndexBlocksEvent list"

definition update_received_blocks :: "BlockLoader \<Rightarrow> BlockLoader" where
  "update_received_blocks s = s\<lparr>received_blocks := received_blocks s + 1\<rparr>"

definition finish_chunk :: "BlockLoader \<Rightarrow> nat \<Rightarrow> bool" where
  "finish_chunk s n = (received_blocks s = n)"

definition next_chunk :: "BlockLoader \<Rightarrow> BlockLoader" where
  "next_chunk s = s\<lparr>received_blocks := 0\<rparr>"

fun handle_fetch_event :: "FetchLoadedBlockEvent \<Rightarrow> BlockLoader \<Rightarrow> BlockLoader" where
  "handle_fetch_event (Loaded b) s = update_received_blocks (s\<lparr>loaded_blocks := loaded_blocks s @ [b]\<rparr>)"
| "handle_fetch_event (FailedBlock h) s = s\<lparr>load_channel := load_channel s @ [h]\<rparr>"

text \<open>The sorted blocks up to the first gap.\<close>

fun sequential_prefix :: "GetBlockTxResult list \<Rightarrow> GetBlockTxResult list" where
  "sequential_prefix (a # b # bs) =
     (if blk_height a + 1 \<noteq> blk_height b then [a] else a # sequential_prefix (b # bs))"
| "sequential_prefix bs = bs"

definition send_loaded_blocks :: "BlockLoader \<Rightarrow> BlockLoader" where
  "send_loaded_blocks s =
     s\<lparr>to_indexer := to_indexer s @ [LoadedBlocks (sequential_prefix (sort_key blk_height (loaded_blocks s)))],
       loaded_blocks := []\<rparr>"

definition blocks_to_load :: "u64 \<Rightarrow> u64 \<Rightarrow> u64 list" where
  "blocks_to_load start confirmed = map of_nat [unat start ..< Suc (unat confirmed)]"

function chunks_of :: "nat \<Rightarrow> 'a list \<Rightarrow> 'a list list" where
  "chunks_of n xs = (if xs = [] \<or> n = 0 then [] else take n xs # chunks_of n (drop n xs))"
  by pat_completeness auto
termination
  by (relation "measure (length \<circ> snd)") auto

declare chunks_of.simps [simp del]

text \<open>Channels and chunks of size zero panic.\<close>

definition loader_start :: "nat \<Rightarrow> u64 \<Rightarrow> u64 \<Rightarrow> unit fault + BlockLoader" where
  "loader_start chunk_size start confirmed =
     (if chunk_size = 0 then Inl Panics else Inr
     \<lparr>phase = NextChunk, chunks = chunks_of chunk_size (blocks_to_load start confirmed),
      load_channel = [], in_work = [], loaded_channel = [], loaded_blocks = [], received_blocks = 0,
      to_indexer = []\<rparr>)"

text \<open>What the loader does on its own, or on receiving an event. A full channel blocks the
  sender.\<close>

definition loader_receive :: "nat \<Rightarrow> BlockLoader \<Rightarrow> FetchLoadedBlockEvent \<Rightarrow> BlockLoader" where
  "loader_receive n s e =
     (let s1 = handle_fetch_event e s in
      if finish_chunk s1 n then (send_loaded_blocks (next_chunk s1))\<lparr>phase := NextChunk\<rparr> else s1)"

definition send_load_block :: "u64 \<Rightarrow> BlockLoader \<Rightarrow> BlockLoader" where
  "send_load_block h s = s\<lparr>load_channel := load_channel s @ [h]\<rparr>"

text \<open>A worker takes a height, or answers with the block or with a failure.\<close>

inductive worker_step ::
  "(u64 \<Rightarrow> GetBlockTxResult \<Rightarrow> bool) \<Rightarrow> nat \<Rightarrow> nat \<Rightarrow> BlockLoader \<Rightarrow> BlockLoader \<Rightarrow> bool"
  for answers :: "u64 \<Rightarrow> GetBlockTxResult \<Rightarrow> bool" and workers_number :: nat and chunk_size :: nat where
  takes: "load_channel s = h # hs \<Longrightarrow> length (in_work s) < workers_number \<Longrightarrow>
     worker_step answers workers_number chunk_size s (s\<lparr>load_channel := hs, in_work := h # in_work s\<rparr>)"
| loads: "h \<in> set (in_work s) \<Longrightarrow> answers h b \<Longrightarrow> length (loaded_channel s) < chunk_size \<Longrightarrow>
     worker_step answers workers_number chunk_size s
       (s\<lparr>in_work := remove1 h (in_work s), loaded_channel := loaded_channel s @ [Loaded b]\<rparr>)"
| fails: "h \<in> set (in_work s) \<Longrightarrow> length (loaded_channel s) < chunk_size \<Longrightarrow>
     worker_step answers workers_number chunk_size s
       (s\<lparr>in_work := remove1 h (in_work s), loaded_channel := loaded_channel s @ [FailedBlock h]\<rparr>)"

inductive loader_step ::
  "(u64 \<Rightarrow> GetBlockTxResult \<Rightarrow> bool) \<Rightarrow> nat \<Rightarrow> nat \<Rightarrow> BlockLoader \<Rightarrow> BlockLoader \<Rightarrow> bool"
  for answers :: "u64 \<Rightarrow> GetBlockTxResult \<Rightarrow> bool" and workers_number :: nat and chunk_size :: nat where
  start_chunk: "phase s = NextChunk \<Longrightarrow> chunks s = hs # rest \<Longrightarrow>
     loader_step answers workers_number chunk_size s (s\<lparr>phase := SendHeights hs (length hs), chunks := rest\<rparr>)"
| finish: "phase s = NextChunk \<Longrightarrow> chunks s = [] \<Longrightarrow>
     loader_step answers workers_number chunk_size s (s\<lparr>phase := Finished, to_indexer := to_indexer s @ [FinishLoading]\<rparr>)"
| send_height: "phase s = SendHeights (h # hs) n \<Longrightarrow> length (load_channel s) < chunk_size \<Longrightarrow>
     loader_step answers workers_number chunk_size s (send_load_block h (s\<lparr>phase := SendHeights hs n\<rparr>))"
| all_sent: "phase s = SendHeights [] n \<Longrightarrow>
     loader_step answers workers_number chunk_size s (s\<lparr>phase := Receive n\<rparr>)"
| receive_loaded: "phase s = Receive n \<Longrightarrow> loaded_channel s = Loaded b # es \<Longrightarrow>
     loader_step answers workers_number chunk_size s (loader_receive n (s\<lparr>loaded_channel := es\<rparr>) (Loaded b))"
| receive_failed: "phase s = Receive n \<Longrightarrow> loaded_channel s = FailedBlock h # es \<Longrightarrow>
     length (load_channel s) < chunk_size \<Longrightarrow>
     loader_step answers workers_number chunk_size s (loader_receive n (s\<lparr>loaded_channel := es\<rparr>) (FailedBlock h))"
| worker: "worker_step answers workers_number chunk_size s s' \<Longrightarrow> loader_step answers workers_number chunk_size s s'"

section \<open>The indexer\<close>

text \<open>The Bitcoin node as the indexer uses it.\<close>

record bitcoin_node =
  get_block_count :: "unit + u64"
  get_block_hash :: "u64 \<Rightarrow> unit + block_hash"
  get_block_txs :: "block_hash \<Rightarrow> unit + GetBlockTxResult"
  get_block_info_of :: "block_hash \<Rightarrow> unit + BlockData"

record IndexingParams =
  starting_block_hash :: "block_hash option"
  force_reindex :: "bool option"

text \<open>The state of the indexer, with the hash of the last indexed block in its storage and
  what it has sent to the controller and to the confirmator.\<close>

record BitcoinBlockIndexer =
  confirmed_block_height :: u64
  confirmed_block_hash :: "block_hash option"
  confirmed_index_block_time :: nat
  liveness_period :: "nat option"
  ix_network :: Network
  last_indexed_block_hash :: "block_hash option"
  to_controller :: "ControllerMessage list"
  to_confirmator :: "TxConfirmMessage list"

text \<open>The announcement of a transaction is the last one among its outputs.\<close>

definition last_announcement :: "lib \<Rightarrow> Transaction \<Rightarrow> Announcement option" where
  "last_announcement L tx =
     fold (\<lambda>out found. case announcement_from_script L (script_pubkey out) of
         Inr a \<Rightarrow> Some a | Inl _ \<Rightarrow> found) (tx_output tx) None"

definition announcement_tx :: "lib \<Rightarrow> Network \<Rightarrow> u64 \<Rightarrow> Transaction \<Rightarrow> Lrc20Transaction option" where
  "announcement_tx L network height tx =
     (if is_coinbase L tx then None
      else case last_announcement L tx of
          None \<Rightarrow> None
        | Some a \<Rightarrow>
            if unat height < minimal_block_height a network then None
            else Some \<lparr>bitcoin_tx = tx, tx_type = AnnouncementTx a\<rparr>)"

definition find_announcements :: "lib \<Rightarrow> Network \<Rightarrow> GetBlockTxResult \<Rightarrow> ControllerMessage list" where
  "find_announcements L network b =
     (let txs = List.map_filter (announcement_tx L network (blk_height b)) (blk_tx b) in
      if txs = [] then [] else [InitializeTxs txs])"

text \<open>A block goes to the sub-indexers of the node, the one for announcements and the one for
  confirmations, and then into the storage.\<close>

definition index_block ::
  "lib \<Rightarrow> (block_hash \<Rightarrow> unit + unit) \<Rightarrow> GetBlockTxResult \<Rightarrow> BitcoinBlockIndexer \<Rightarrow>
     BitcoinBlockIndexer + BitcoinBlockIndexer" where
  "index_block L update_indexer_state b ix =
     (let ix1 = ix\<lparr>to_controller := to_controller ix @ find_announcements L (ix_network ix) b,
                   to_confirmator := to_confirmator ix @ [Block b]\<rparr> in
      case update_indexer_state (blk_hash b) of
        Inl _ \<Rightarrow> Inl ix1
      | Inr _ \<Rightarrow> Inr (ix1\<lparr>last_indexed_block_hash := Some (blk_hash b)\<rparr>))"

definition get_block_by_height :: "bitcoin_node \<Rightarrow> u64 \<Rightarrow> unit + GetBlockTxResult" where
  "get_block_by_height node height = rbind (get_block_hash node height) (get_block_txs node)"

definition get_block_height :: "bitcoin_node \<Rightarrow> block_hash \<Rightarrow> unit + u64" where
  "get_block_height node h = rbind (get_block_info_of node h) (\<lambda>d. Inr (blk_height d))"

definition get_starting_block_height ::
  "bitcoin_node \<Rightarrow> block_hash option \<Rightarrow> IndexingParams \<Rightarrow> BitcoinBlockIndexer \<Rightarrow> unit + u64" where
  "get_starting_block_height node lrc20_genesis_block params ix =
     rbind (case lrc20_genesis_block of None \<Rightarrow> Inr 0 | Some g \<Rightarrow> get_block_height node g) (\<lambda>genesis.
     rbind (case last_indexed_block_hash ix of
         None \<Rightarrow> Inr genesis
       | Some h \<Rightarrow> rbind (get_block_height node h) (\<lambda>last. Inr (last + 1))) (\<lambda>starting.
     case starting_block_hash params of
       None \<Rightarrow> Inr starting
     | Some h \<Rightarrow>
         rbind (get_block_height node h) (\<lambda>given.
         Inr (if starting < given \<or> force_reindex params = Some True then given else starting))))"

definition saturating_sub :: "u64 \<Rightarrow> u64 \<Rightarrow> u64" where
  "saturating_sub a b = (if a < b then 0 else a - b)"

text \<open>Loading starts early enough to see again the blocks that were not confirmed yet.\<close>

definition initial_height ::
  "bitcoin_node \<Rightarrow> block_hash option \<Rightarrow> IndexingParams \<Rightarrow> u64 \<Rightarrow> BitcoinBlockIndexer \<Rightarrow> unit + u64" where
  "initial_height node genesis params n ix =
     rbind (get_starting_block_height node genesis params ix)
       (\<lambda>h. Inr (saturating_sub h (n - 1)))"

fun init_blocks_handle ::
  "lib \<Rightarrow> (block_hash \<Rightarrow> unit + unit) \<Rightarrow> GetBlockTxResult list \<Rightarrow> u64 \<Rightarrow> BitcoinBlockIndexer \<Rightarrow>
     BitcoinBlockIndexer + (u64 \<times> BitcoinBlockIndexer)" where
  "init_blocks_handle L upd [] height ix = Inr (height, ix)"
| "init_blocks_handle L upd (b # bs) height ix =
     (if blk_height b \<noteq> height then Inl ix
      else rbind (index_block L upd b ix) (init_blocks_handle L upd bs (height + 1)))"

fun handle_initial_blocks ::
  "lib \<Rightarrow> (block_hash \<Rightarrow> unit + unit) \<Rightarrow> IndexBlocksEvent list \<Rightarrow> u64 \<Rightarrow> BitcoinBlockIndexer \<Rightarrow>
     BitcoinBlockIndexer + BitcoinBlockIndexer" where
  "handle_initial_blocks L upd [] height ix = Inr ix"
| "handle_initial_blocks L upd (FinishLoading # es) height ix = Inr ix"
| "handle_initial_blocks L upd (Cancelled # es) height ix = Inl ix"
| "handle_initial_blocks L upd (LoadedBlocks bs # es) height ix =
     rbind (init_blocks_handle L upd bs height ix) (\<lambda>(h, ix'). handle_initial_blocks L upd es h ix')"

text \<open>The end of the initial indexing.\<close>

definition finish_init :: "bitcoin_node \<Rightarrow> nat \<Rightarrow> BitcoinBlockIndexer \<Rightarrow> unit + BitcoinBlockIndexer" where
  "finish_init node now ix =
     rbind (case last_indexed_block_hash ix of Some h \<Rightarrow> Inr h | None \<Rightarrow> get_block_hash node 0) (\<lambda>h.
     rbind (get_block_height node h) (\<lambda>height.
     Inr (ix\<lparr>confirmed_block_hash := Some h, confirmed_block_height := height,
             confirmed_index_block_time := now,
             to_controller := to_controller ix @ [InitialIndexingFinished]\<rparr>)))"

definition is_bnode_synced :: "nat \<Rightarrow> nat \<Rightarrow> BitcoinBlockIndexer \<Rightarrow> bool" where
  "is_bnode_synced now confirmed_best_block_time ix =
     (case liveness_period ix of None \<Rightarrow> True | Some p \<Rightarrow> now - confirmed_best_block_time < p)"

text \<open>A poll: nothing when the indexed height is the best one or the next block is the one
  indexed last, otherwise the next block is indexed.\<close>

definition handle_new_blocks ::
  "lib \<Rightarrow> bitcoin_node \<Rightarrow> (block_hash \<Rightarrow> unit + unit) \<Rightarrow> nat \<Rightarrow> BitcoinBlockIndexer \<Rightarrow>
     BitcoinBlockIndexer + BitcoinBlockIndexer" where
  "handle_new_blocks L node upd now ix =
     rbind (map_err (\<lambda>_. ix) (get_block_count node)) (\<lambda>best.
     if best = confirmed_block_height ix then Inr ix
     else
       rbind (map_err (\<lambda>_. ix) (get_block_by_height node (confirmed_block_height ix + 1))) (\<lambda>block.
       if confirmed_block_hash ix = Some (blk_hash block) then Inr ix
       else
         rbind (index_block L upd block ix) (\<lambda>ix1.
         Inr (ix1\<lparr>confirmed_block_height := blk_height block,
                  confirmed_block_hash := Some (blk_hash block),
                  confirmed_index_block_time := now\<rparr>))))"

definition handle_reorganization ::
  "bitcoin_node \<Rightarrow> u64 \<Rightarrow> BitcoinBlockIndexer \<Rightarrow> BitcoinBlockIndexer + BitcoinBlockIndexer" where
  "handle_reorganization node new_height ix =
     (let ix1 = ix\<lparr>confirmed_block_height := new_height\<rparr> in
      rbind (map_err (\<lambda>_. ix1) (get_block_by_height node new_height)) (\<lambda>block.
      Inr (ix1\<lparr>confirmed_block_hash := Some (blk_hash block)\<rparr>)))"

fun indexer_handle_event ::
  "bitcoin_node \<Rightarrow> IndexerMessage \<Rightarrow> BitcoinBlockIndexer \<Rightarrow> BitcoinBlockIndexer + BitcoinBlockIndexer" where
  "indexer_handle_event node (IndexerReorganization height) ix = handle_reorganization node height ix"

definition state_of :: "'s + 's \<Rightarrow> 's" where
  "state_of m = (case m of Inl s \<Rightarrow> s | Inr s \<Rightarrow> s)"

text \<open>A turn of the main loop: an event, whose failure is only logged, or a tick, and then a poll.
  The number counts the failed polls in a row; the loop ends (None) on the seventh.\<close>

definition MAX_NUMBER_OF_RESTART_ATTEMPTS :: nat where
  "MAX_NUMBER_OF_RESTART_ATTEMPTS = 6"

definition run_turn ::
  "lib \<Rightarrow> bitcoin_node \<Rightarrow> (block_hash \<Rightarrow> unit + unit) \<Rightarrow> nat \<Rightarrow> IndexerMessage option \<Rightarrow>
     nat \<Rightarrow> BitcoinBlockIndexer \<Rightarrow> BitcoinBlockIndexer \<times> nat option" where
  "run_turn L node upd now event restart_number ix =
     (let ix1 = (case event of None \<Rightarrow> ix | Some e \<Rightarrow> state_of (indexer_handle_event node e ix));
          r = handle_new_blocks L node upd now ix1;
          ix2 = state_of r;
          failed = (\<not> is_ok r \<or> \<not> is_bnode_synced now (confirmed_index_block_time ix2) ix2) in
      if failed then
        (ix2, if MAX_NUMBER_OF_RESTART_ATTEMPTS \<le> restart_number then None else Some (restart_number + 1))
      else (ix2, Some 0))"

section \<open>The block loader: invariant\<close>

fun consecutive :: "u64 list \<Rightarrow> bool" where
  "consecutive (a # b # hs) = (a + 1 = b \<and> consecutive (b # hs))"
| "consecutive _ = True"

definition chunk_ok :: "nat \<Rightarrow> u64 list \<Rightarrow> bool" where
  "chunk_ok n c = (c \<noteq> [] \<and> length c \<le> n \<and> consecutive c \<and> sorted c)"

fun event_height :: "FetchLoadedBlockEvent \<Rightarrow> u64" where
  "event_height (Loaded b) = blk_height b"
| "event_height (FailedBlock h) = h"

fun unsent :: "loader_phase \<Rightarrow> u64 list" where
  "unsent (SendHeights hs n) = hs"
| "unsent _ = []"

definition outstanding :: "BlockLoader \<Rightarrow> u64 multiset" where
  "outstanding s = mset (unsent (phase s)) + mset (load_channel s) + mset (in_work s)
     + mset (map event_height (loaded_channel s)) + mset (map blk_height (loaded_blocks s))"

definition delivered :: "u64 list list \<Rightarrow> IndexBlocksEvent list \<Rightarrow> bool" where
  "delivered cs es = list_all2 (\<lambda>c e. \<exists>bs. e = LoadedBlocks bs \<and> map blk_height bs = c) cs es"

fun in_chunk :: "loader_phase \<Rightarrow> BlockLoader \<Rightarrow> u64 list \<Rightarrow> bool" where
  "in_chunk (SendHeights hs n) s c = (n = length c \<and> loaded_blocks s = [] \<and> received_blocks s = 0)"
| "in_chunk (Receive n) s c = (n = length c \<and> received_blocks s = length (loaded_blocks s) \<and> received_blocks s < n)"
| "in_chunk _ s c = False"

definition loader_inv :: "nat \<Rightarrow> u64 list list \<Rightarrow> BlockLoader \<Rightarrow> bool" where
  "loader_inv chunk_size cs s =
     (\<exists>ready. (\<forall>c \<in> set cs. chunk_ok chunk_size c) \<and>
       (case phase s of
          NextChunk \<Rightarrow> cs = ready @ chunks s \<and> outstanding s = {#} \<and> received_blocks s = 0
                         \<and> delivered ready (to_indexer s)
        | Finished \<Rightarrow> ready = cs \<and> chunks s = [] \<and> outstanding s = {#}
                        \<and> (\<exists>es. to_indexer s = es @ [FinishLoading] \<and> delivered ready es)
        | p \<Rightarrow> \<exists>c. cs = ready @ c # chunks s \<and> outstanding s = mset c \<and> in_chunk p s c
                   \<and> delivered ready (to_indexer s)))"

lemma map_sort_key: "map f (sort_key f xs) = sort (map f xs)"
  by (rule sym, rule properties_for_sort) simp_all

lemma sequential_prefix_id: "consecutive (map blk_height bs) \<Longrightarrow> sequential_prefix bs = bs"
  by (induction bs rule: sequential_prefix.induct) simp_all

lemma send_chunk:
  assumes "mset (map blk_height bs) = mset c" and "chunk_ok n c"
  shows "map blk_height (sequential_prefix (sort_key blk_height bs)) = c"
proof -
  have "map blk_height (sort_key blk_height bs) = c"
    unfolding map_sort_key using assms by (intro properties_for_sort) (simp_all add: chunk_ok_def)
  with assms(2) show ?thesis
    by (simp add: chunk_ok_def sequential_prefix_id)
qed

lemma delivered_snoc:
  "delivered cs es \<Longrightarrow> map blk_height bs = c \<Longrightarrow> delivered (cs @ [c]) (es @ [LoadedBlocks bs])"
  by (simp add: delivered_def list_all2_appendI)

lemma consecutive_upt: "consecutive (map of_nat [a..<b])"
proof (induction "b - a" arbitrary: a)
  case (Suc d)
  then have "[a..<b] = a # [Suc a..<b]" by (simp add: upt_conv_Cons)
  moreover have "consecutive (map of_nat [Suc a..<b])"
    using Suc by simp
  ultimately show ?case
    by (cases "Suc a < b") (simp_all add: upt_conv_Cons add.commute)
qed simp

lemma sorted_blocks_to_load: "sorted (blocks_to_load a b)"
proof -
  have "sorted_wrt (\<lambda>x y. (of_nat x :: u64) \<le> of_nat y) [unat a..<Suc (unat b)]"
  proof (rule sorted_wrt_mono_rel [OF _ sorted_wrt_upt])
    fix x y
    assume "x \<in> set [unat a..<Suc (unat b)]" "y \<in> set [unat a..<Suc (unat b)]" "x < y"
    moreover from this have "y < 2 ^ 64"
      using unat_bound [of b] by (auto simp del: upt_Suc)
    ultimately show "(of_nat x :: u64) \<le> of_nat y"
      by (simp add: word_le_nat_alt unat_of_nat)
  qed
  then show ?thesis
    by (simp add: blocks_to_load_def sorted_wrt_map del: upt_Suc)
qed

lemma consecutive_drop1: "consecutive (a # hs) \<Longrightarrow> consecutive hs"
  by (cases hs) simp_all

lemma consecutive_append: "consecutive (xs @ ys) \<Longrightarrow> consecutive xs \<and> consecutive ys"
  by (induction xs rule: consecutive.induct) (auto dest: consecutive_drop1)

lemma chunks_of_ok:
  "0 < n \<Longrightarrow> consecutive hs \<Longrightarrow> sorted hs \<Longrightarrow>
     (\<forall>c \<in> set (chunks_of n hs). chunk_ok n c) \<and> concat (chunks_of n hs) = hs"
proof (induction n hs rule: chunks_of.induct)
  case (1 n hs)
  have "consecutive (take n hs) \<and> consecutive (drop n hs)"
    using consecutive_append [of "take n hs" "drop n hs"] 1(3) by simp
  with 1 show ?case
    unfolding chunks_of.simps [of n hs] by (auto simp: chunk_ok_def sorted_wrt_take sorted_wrt_drop)
qed

lemma loader_start_inv:
  assumes "loader_start n a b = Inr s"
  shows "loader_inv n (chunks_of n (blocks_to_load a b)) s"
    and "concat (chunks_of n (blocks_to_load a b)) = blocks_to_load a b"
  using assms chunks_of_ok [of n "blocks_to_load a b"] sorted_blocks_to_load consecutive_upt
  by (auto simp: loader_start_def loader_inv_def outstanding_def delivered_def blocks_to_load_def
      simp del: upt_Suc split: if_splits)

lemma loader_inv_nextD:
  assumes "loader_inv n cs s" and "phase s = NextChunk"
  obtains ready where "cs = ready @ chunks s" "outstanding s = {#}" "received_blocks s = 0"
    "delivered ready (to_indexer s)" "\<And>c. c \<in> set cs \<Longrightarrow> chunk_ok n c"
  using assms by (auto simp: loader_inv_def)

lemma loader_inv_chunkD:
  assumes "loader_inv n cs s" and "phase s \<noteq> NextChunk" and "phase s \<noteq> Finished"
  obtains ready c where "cs = ready @ c # chunks s" "outstanding s = mset c" "in_chunk (phase s) s c"
    "delivered ready (to_indexer s)" "chunk_ok n c"
  using assms by (cases "phase s") (auto simp: loader_inv_def)

lemma loader_inv_chunkI:
  assumes "cs = ready @ c # chunks s" "outstanding s = mset c" "in_chunk (phase s) s c"
    "delivered ready (to_indexer s)" "\<And>c. c \<in> set cs \<Longrightarrow> chunk_ok n c"
  shows "loader_inv n cs s"
  using assms by (cases "phase s") (auto simp: loader_inv_def)

lemma loader_inv_nextI:
  assumes "phase s = NextChunk" "cs = ready @ chunks s" "outstanding s = {#}" "received_blocks s = 0"
    "delivered ready (to_indexer s)" "\<And>c. c \<in> set cs \<Longrightarrow> chunk_ok n c"
  shows "loader_inv n cs s"
  using assms by (auto simp: loader_inv_def)

lemma loader_inv_chunks: "loader_inv n cs s \<Longrightarrow> c \<in> set cs \<Longrightarrow> chunk_ok n c"
  by (auto simp: loader_inv_def)


text \<open>A step of a worker moves a height from one place to the next.\<close>

lemma loader_inv_moves:
  assumes inv: "loader_inv n cs s" and "phase s' = phase s" and "chunks s' = chunks s"
    and "loaded_blocks s' = loaded_blocks s" and "received_blocks s' = received_blocks s"
    and "to_indexer s' = to_indexer s" and "outstanding s' = outstanding s"
  shows "loader_inv n cs s'"
proof -
  have c: "in_chunk p s' c = in_chunk p s c" for p c
    using assms by (cases p) simp_all
  show ?thesis
    using inv unfolding loader_inv_def assms(2-7) c .
qed

lemma mset_whole:
  assumes "A + B = C" and "size A = size C"
  shows "A = C \<and> B = {#}"
proof -
  have "size A + size B = size C"
    using assms(1) by (simp flip: size_union)
  with assms show ?thesis by simp
qed

lemma loader_inv_receive:
  assumes inv: "loader_inv n cs s" and p: "phase s = Receive k" and e: "loaded_channel s = e # es"
  shows "loader_inv n cs (loader_receive k (s\<lparr>loaded_channel := es\<rparr>) e)"
proof -
  obtain ready c where c: "cs = ready @ c # chunks s" "outstanding s = mset c"
      "k = length c" "received_blocks s = length (loaded_blocks s)" "received_blocks s < k"
      "delivered ready (to_indexer s)" "chunk_ok n c"
    by (rule loader_inv_chunkD [OF inv]) (auto simp: p)
  show ?thesis
  proof (cases e)
    case (FailedBlock h)
    have "\<not> finish_chunk (handle_fetch_event e (s\<lparr>loaded_channel := es\<rparr>)) k"
      using c FailedBlock by (simp add: finish_chunk_def)
    then show ?thesis
      using c p e FailedBlock loader_inv_chunks [OF inv]
      by (intro loader_inv_chunkI [where ready = ready and c = c]) (auto simp: loader_receive_def outstanding_def)
  next
    case (Loaded b)
    show ?thesis
    proof (cases "Suc (received_blocks s) = k")
      case False
      then show ?thesis
        using c p e Loaded loader_inv_chunks [OF inv]
        by (intro loader_inv_chunkI [where ready = ready and c = c])
          (auto simp: loader_receive_def outstanding_def finish_chunk_def update_received_blocks_def)
    next
      case True
      let ?bs = "loaded_blocks s @ [b]"
      have rest: "mset (map blk_height ?bs) + (mset (load_channel s) + mset (in_work s) + mset (map event_height es)) = mset c"
        using c(2) p e Loaded by (simp add: outstanding_def ac_simps)
      moreover have "size (mset (map blk_height ?bs)) = size (mset c)"
        using True c(3,4) by simp
      ultimately have all: "mset (map blk_height ?bs) = mset c"
          "mset (load_channel s) + mset (in_work s) + mset (map event_height es) = {#}"
        by (blast dest: mset_whole)+
      have "delivered (ready @ [c]) (to_indexer s @ [LoadedBlocks (sequential_prefix (sort_key blk_height ?bs))])"
        by (intro delivered_snoc c(6) send_chunk [OF all(1) c(7)])
      then show ?thesis
        using c(1) p e Loaded True all(2) loader_inv_chunks [OF inv]
        by (intro loader_inv_nextI [where ready = "ready @ [c]"])
          (auto simp: loader_receive_def finish_chunk_def update_received_blocks_def send_loaded_blocks_def next_chunk_def outstanding_def)
    qed
  qed
qed

lemma remove1_mset: "h \<in> set hs \<Longrightarrow> add_mset h (mset (remove1 h hs)) = mset hs"
  by simp

lemma worker_step_inv:
  assumes "worker_step answers w n s s'" and "loader_inv n cs s"
    and node: "\<And>h b. answers h b \<Longrightarrow> blk_height b = h"
  shows "loader_inv n cs s'"
  using assms(1)
proof cases
  case (takes h hs)
  then show ?thesis
    by (intro loader_inv_moves [OF assms(2)]) (auto simp: outstanding_def)
next
  case (loads h b)
  then show ?thesis
    using node [of h b] remove1_mset [of h "in_work s"]
    by (intro loader_inv_moves [OF assms(2)]) (auto simp: outstanding_def)
next
  case (fails h)
  then show ?thesis
    using remove1_mset [of h "in_work s"]
    by (intro loader_inv_moves [OF assms(2)]) (auto simp: outstanding_def)
qed

lemma loader_step_inv:
  assumes "loader_step answers w n s s'" and "loader_inv n cs s"
    and node: "\<And>h b. answers h b \<Longrightarrow> blk_height b = h"
  shows "loader_inv n cs s'"
  using assms(1,2)
proof cases
  case (start_chunk hs rest)
  then obtain ready where "cs = ready @ hs # rest" "outstanding s = {#}" "received_blocks s = 0"
      "delivered ready (to_indexer s)"
    by (auto elim: loader_inv_nextD [OF assms(2)])
  then show ?thesis
    using start_chunk loader_inv_chunks [OF assms(2)]
    by (intro loader_inv_chunkI [where ready = ready and c = hs]) (auto simp: outstanding_def)
next
  case finish
  then show ?thesis
    using loader_inv_nextD [OF assms(2)] by (auto simp: loader_inv_def outstanding_def)
next
  case (send_height h hs k)
  then obtain ready c where "cs = ready @ c # chunks s" "outstanding s = mset c" "in_chunk (phase s) s c"
      "delivered ready (to_indexer s)"
    by - (rule loader_inv_chunkD [OF assms(2)], auto)
  then show ?thesis
    using send_height loader_inv_chunks [OF assms(2)]
    by (intro loader_inv_chunkI [where ready = ready and c = c]) (auto simp: outstanding_def send_load_block_def)
next
  case (all_sent k)
  then obtain ready c where "cs = ready @ c # chunks s" "outstanding s = mset c" "in_chunk (phase s) s c"
      "delivered ready (to_indexer s)" "chunk_ok n c"
    by - (rule loader_inv_chunkD [OF assms(2)], auto)
  then show ?thesis
    using all_sent loader_inv_chunks [OF assms(2)]
    by (intro loader_inv_chunkI [where ready = ready and c = c]) (auto simp: outstanding_def chunk_ok_def)
next
  case (receive_loaded k b es)
  show ?thesis
    unfolding receive_loaded(1) by (rule loader_inv_receive [OF assms(2) receive_loaded(2,3)])
next
  case (receive_failed k h es)
  show ?thesis
    unfolding receive_failed(1) by (rule loader_inv_receive [OF assms(2) receive_failed(2,3)])
next
  case worker
  then show ?thesis by (rule worker_step_inv [OF _ assms(2) node])
qed

lemma loader_run_inv:
  assumes "(loader_step answers w n)\<^sup>*\<^sup>* s s'" and "loader_inv n cs s"
    and "\<And>h b. answers h b \<Longrightarrow> blk_height b = h"
  shows "loader_inv n cs s'"
  using assms(1,2) by (induction rule: rtranclp_induct) (auto intro: loader_step_inv [OF _ _ assms(3)])


section \<open>The block loader: progress\<close>

lemma outstanding_size:
  "size (outstanding s) = length (unsent (phase s)) + length (load_channel s) + length (in_work s)
     + length (loaded_channel s) + length (loaded_blocks s)"
  by (simp add: outstanding_def)

lemma loader_inv_size:
  assumes "loader_inv n cs s"
  shows "length (unsent (phase s)) + length (load_channel s) + length (in_work s)
     + length (loaded_channel s) + length (loaded_blocks s) \<le> n"
proof (cases "phase s = NextChunk \<or> phase s = Finished")
  case True
  then have "outstanding s = {#}"
    using assms by (auto simp: loader_inv_def)
  then show ?thesis
    using outstanding_size [of s] by simp
next
  case False
  then obtain c where "outstanding s = mset c" "chunk_ok n c"
    by - (rule loader_inv_chunkD [OF assms], auto)
  then show ?thesis
    using outstanding_size [of s] by (simp add: chunk_ok_def)
qed

text \<open>What is left to do when no block fails.\<close>

fun phase_work :: "loader_phase \<Rightarrow> nat" where
  "phase_work NextChunk = 1"
| "phase_work (SendHeights hs n) = 3 + 4 * length hs"
| "phase_work (Receive n) = 2"
| "phase_work Finished = 0"

fun event_work :: "FetchLoadedBlockEvent \<Rightarrow> nat" where
  "event_work (Loaded b) = 1"
| "event_work (FailedBlock h) = 4"

definition work :: "BlockLoader \<Rightarrow> nat" where
  "work s = sum_list (map (\<lambda>c. 4 * length c + 3) (chunks s)) + phase_work (phase s)
     + 3 * length (load_channel s) + 2 * length (in_work s) + sum_list (map event_work (loaded_channel s))"

lemma work_receive:
  assumes "phase s = Receive k" and "loaded_channel s = e # es"
  shows "work (loader_receive k (s\<lparr>loaded_channel := es\<rparr>) e) < work s"
proof (cases e)
  case (Loaded b)
  with assms show ?thesis
    by (simp add: loader_receive_def Let_def work_def finish_chunk_def update_received_blocks_def send_loaded_blocks_def next_chunk_def)
next
  case (FailedBlock h)
  with assms show ?thesis
    by (simp add: loader_receive_def Let_def work_def finish_chunk_def send_loaded_blocks_def next_chunk_def)
qed

lemma progressI: "loader_step answers w n s s' \<Longrightarrow> work s' < work s \<Longrightarrow>
    \<exists>s'. loader_step answers w n s s' \<and> work s' < work s"
  by blast

lemma receive_progress:
  assumes inv: "loader_inv n cs s" and p: "phase s = Receive k" and w: "0 < w"
    and node: "\<And>h. \<exists>b. answers h b"
  shows "\<exists>s'. loader_step answers w n s s' \<and> work s' < work s"
proof -
  have room: "length (load_channel s) + length (in_work s) + length (loaded_channel s) \<le> n"
    using loader_inv_size [OF inv] by simp
  consider (event) e es where "loaded_channel s = e # es"
    | (busy) h where "loaded_channel s = []" "h \<in> set (in_work s)"
    | (idle) h hs where "loaded_channel s = []" "in_work s = []" "load_channel s = h # hs"
    | (none) "loaded_channel s = []" "in_work s = []" "load_channel s = []"
    by (cases "loaded_channel s"; cases "in_work s"; cases "load_channel s") auto
  then show ?thesis
  proof cases
    case event
    have "loader_step answers w n s (loader_receive k (s\<lparr>loaded_channel := es\<rparr>) e)"
    proof (cases e)
      case (Loaded b)
      with event p show ?thesis by (auto intro: loader_step.receive_loaded)
    next
      case (FailedBlock h)
      with event p room show ?thesis by (auto intro: loader_step.receive_failed)
    qed
    then show ?thesis
      using work_receive [OF p event] by blast
  next
    case busy
    obtain b where b: "answers h b" using node by blast
    have "0 < n"
      using busy room by (cases "in_work s") auto
    with busy b have "loader_step answers w n s
        (s\<lparr>in_work := remove1 h (in_work s), loaded_channel := loaded_channel s @ [Loaded b]\<rparr>)"
      by (intro loader_step.worker worker_step.loads) simp_all
    moreover have "Suc (length (remove1 h (in_work s))) = length (in_work s)"
      using busy(2) length_pos_if_in_set [OF busy(2)] by (simp add: length_remove1)
    ultimately show ?thesis
      by - (erule progressI, simp add: work_def)
  next
    case idle
    then have "loader_step answers w n s (s\<lparr>load_channel := hs, in_work := h # in_work s\<rparr>)"
      using w by (intro loader_step.worker worker_step.takes) simp_all
    then show ?thesis
      by (rule progressI) (simp add: work_def idle)
  next
    case none
    obtain c where "outstanding s = mset c" "k = length c"
        "received_blocks s = length (loaded_blocks s)" "received_blocks s < k"
      by (rule loader_inv_chunkD [OF inv]) (auto simp: p)
    then show ?thesis
      using none p outstanding_size [of s] by simp
  qed
qed

lemma loader_progress:
  assumes inv: "loader_inv n cs s" and "phase s \<noteq> Finished" and w: "0 < w"
    and node: "\<And>h. \<exists>b. answers h b"
  shows "\<exists>s'. loader_step answers w n s s' \<and> work s' < work s"
proof (cases "phase s")
  case NextChunk
  show ?thesis
  proof (cases "chunks s")
    case Nil
    from loader_step.finish [OF NextChunk this, of answers w n] show ?thesis
      by (rule progressI) (simp add: work_def NextChunk Nil)
  next
    case (Cons hs rest)
    from loader_step.start_chunk [OF NextChunk this, of answers w n] show ?thesis
      by (rule progressI) (simp add: work_def NextChunk Cons)
  qed
next
  case (SendHeights hs k)
  show ?thesis
  proof (cases hs)
    case Nil
    with SendHeights have p: "phase s = SendHeights [] k" by simp
    from loader_step.all_sent [OF this, of answers w n] show ?thesis
      by (rule progressI) (simp add: work_def p)
  next
    case (Cons h hs')
    with SendHeights have "length (load_channel s) < n"
      using loader_inv_size [OF inv] by simp
    moreover have p: "phase s = SendHeights (h # hs') k"
      using Cons SendHeights by simp
    ultimately have "loader_step answers w n s (send_load_block h (s\<lparr>phase := SendHeights hs' k\<rparr>))"
      by (intro loader_step.send_height)
    then show ?thesis
      by (rule progressI) (simp add: work_def p send_load_block_def)
  qed
next
  case (Receive k)
  then show ?thesis by (intro receive_progress [OF inv _ w node])
next
  case Finished
  then show ?thesis using assms(2) by simp
qed

lemma loader_finishes:
  assumes "loader_inv n cs s" and w: "0 < w" and node: "\<And>h. \<exists>b. answers h b"
    and height: "\<And>h b. answers h b \<Longrightarrow> blk_height b = h"
  shows "\<exists>s'. (loader_step answers w n)\<^sup>*\<^sup>* s s' \<and> phase s' = Finished"
  using assms(1)
proof (induction "work s" arbitrary: s rule: less_induct)
  case less
  show ?case
  proof (cases "phase s = Finished")
    case False
    from loader_progress [OF less.prems False w, of answers] node obtain s1
      where s1: "loader_step answers w n s s1" "work s1 < work s" by blast
    have "loader_inv n cs s1"
      by (rule loader_step_inv [OF s1(1) less.prems height])
    from less.hyps [OF s1(2) this] s1(1) show ?thesis
      by (meson converse_rtranclp_into_rtranclp)
  qed auto
qed


section \<open>Initial indexing\<close>

lemma delivered_blocks: "delivered cs es \<Longrightarrow>
    \<exists>bss. es = map LoadedBlocks bss \<and> map (map blk_height) bss = cs"
  unfolding delivered_def
proof (induction cs es rule: list_all2_induct)
  case (Cons c cs e es)
  then obtain bs bss where "e = LoadedBlocks bs" "map blk_height bs = c" "es = map LoadedBlocks bss"
      "map (map blk_height) bss = cs" by blast
  then show ?case
    by (intro exI [of _ "bs # bss"]) simp
qed simp

lemma loader_inv_delivered:
  assumes "loader_inv n cs s"
  shows "\<exists>bss es. to_indexer s = map LoadedBlocks bss @ es \<and> prefix (map (map blk_height) bss) cs
    \<and> (if phase s = Finished then es = [FinishLoading] \<and> map (map blk_height) bss = cs else es = [])"
proof (cases "phase s = Finished")
  case True
  with assms obtain es where "to_indexer s = es @ [FinishLoading]" "delivered cs es"
    by (auto simp: loader_inv_def)
  with delivered_blocks [of cs es] True show ?thesis by auto
next
  case False
  obtain ready where "delivered ready (to_indexer s)" "prefix ready cs"
    using assms False by (cases "phase s") (auto simp: loader_inv_def)
  with delivered_blocks [of ready "to_indexer s"] False show ?thesis by auto
qed

definition indexed :: "lib \<Rightarrow> GetBlockTxResult list \<Rightarrow> BitcoinBlockIndexer \<Rightarrow> BitcoinBlockIndexer" where
  "indexed L bs ix = fold (\<lambda>b ix. ix\<lparr>to_controller := to_controller ix @ find_announcements L (ix_network ix) b,
      to_confirmator := to_confirmator ix @ [Block b],
      last_indexed_block_hash := Some (blk_hash b)\<rparr>) bs ix"

lemma indexed_simps [simp]:
  "indexed L [] ix = ix"
  "indexed L (xs @ ys) ix = indexed L ys (indexed L xs ix)"
  by (simp_all add: indexed_def)

lemma indexed_fields:
  "to_confirmator (indexed L bs ix) = to_confirmator ix @ map Block bs"
  "ix_network (indexed L bs ix) = ix_network ix"
  "to_controller (indexed L bs ix) = to_controller ix @ concat (map (find_announcements L (ix_network ix)) bs)"
  "last_indexed_block_hash (indexed L bs ix) =
     (if bs = [] then last_indexed_block_hash ix else Some (blk_hash (last bs)))"
  by (induction bs arbitrary: ix) (simp_all add: indexed_def)

lemma init_blocks_handle_sequential:
  assumes "\<And>h. upd h = Inr ()" and "map blk_height bs = map of_nat [a..<a + length bs]"
  shows "init_blocks_handle L upd bs (of_nat a) ix = Inr (of_nat (a + length bs), indexed L bs ix)"
  using assms(2)
proof (induction bs arbitrary: a ix)
  case (Cons b bs)
  have "[a..<a + length (b # bs)] = a # [Suc a..<Suc a + length bs]"
    by (simp add: upt_conv_Cons del: upt_Suc)
  with Cons.prems have "map blk_height (b # bs) = map of_nat (a # [Suc a..<Suc a + length bs])"
    by (simp only:)
  then have "blk_height b = of_nat a" "map blk_height bs = map of_nat [Suc a..<Suc a + length bs]"
    by simp_all
  with Cons.IH [of "Suc a"] show ?case
    by (simp add: index_block_def assms(1) indexed_def add.commute Let_def)
qed simp

lemma handle_initial_blocks_sequential:
  assumes "\<And>h. upd h = Inr ()" and "map blk_height (concat bss) = map of_nat [a..<a + length (concat bss)]"
  shows "handle_initial_blocks L upd (map LoadedBlocks bss @ [FinishLoading]) (of_nat a) ix =
    Inr (indexed L (concat bss) ix)"
  using assms(2)
proof (induction bss arbitrary: a ix)
  case (Cons bs bss)
  let ?m = "a + length bs"
  have "[a..<a + length (concat (bs # bss))] = [a..<?m] @ [?m..<?m + length (concat bss)]"
    using upt_add_eq_append [of a ?m "length (concat bss)"] by (simp add: add.assoc)
  with Cons.prems have "map blk_height bs @ map blk_height (concat bss) =
      map of_nat [a..<?m] @ map of_nat [?m..<?m + length (concat bss)]"
    by simp
  then have split: "map blk_height bs = map of_nat [a..<?m]"
      "map blk_height (concat bss) = map of_nat [?m..<?m + length (concat bss)]"
    by (simp_all add: append_eq_append_conv)
  from init_blocks_handle_sequential [OF assms(1) split(1)] Cons.IH [OF split(2)] show ?case
    by simp
qed simp

section \<open>Properties\<close>



definition example_node_block :: "u64 \<Rightarrow> GetBlockTxResult" where
  "example_node_block h =
     \<lparr>blk_hash = ucast h, previousblockhash = Some (ucast (h - 1)), blk_height = h, blk_tx = []\<rparr>"

abbreviation example_answers :: "u64 \<Rightarrow> GetBlockTxResult \<Rightarrow> bool" where
  "example_answers h b \<equiv> b = example_node_block h"

lemma example_loader_start: "loader_start 2 5 5 = Inr
   \<lparr>phase = NextChunk, chunks = [[5]], load_channel = [], in_work = [], loaded_channel = [],
    loaded_blocks = [], received_blocks = 0, to_indexer = []\<rparr>"
  by (simp add: loader_start_def blocks_to_load_def chunks_of.simps upt_conv_Cons)


text \<open>C33. The channels of the block loader never hold more than a chunk, counting the heights the
  workers hold, so that no sender ever waits for room; and from every reachable state the loader
  can still finish when the node has the blocks.\<close>

theorem loader_never_stuck:
  assumes "loader_start chunk_size start confirmed = Inr s0" and "0 < workers"
    and "(loader_step answers workers chunk_size)\<^sup>*\<^sup>* s0 s"
    and "\<And>h b. answers h b \<Longrightarrow> blk_height b = h" and "\<And>h. \<exists>b. answers h b"
  shows "length (load_channel s) + length (in_work s) + length (loaded_channel s) \<le> chunk_size
    \<and> (\<exists>s'. (loader_step answers workers chunk_size)\<^sup>*\<^sup>* s s' \<and> phase s' = Finished)"
proof -
  let ?cs = "chunks_of chunk_size (blocks_to_load start confirmed)"
  have inv: "loader_inv chunk_size ?cs s"
    by (rule loader_run_inv [OF assms(3) loader_start_inv(1) [OF assms(1)] assms(4)])
  have "\<exists>s'. (loader_step answers workers chunk_size)\<^sup>*\<^sup>* s s' \<and> phase s' = Finished"
    by (rule loader_finishes [OF inv assms(2,5,4)])
  with loader_inv_size [OF inv] show ?thesis by simp
qed

lemma loader_never_stuck_witness:
  "\<exists>s0 s'. loader_start 2 5 5 = Inr s0 \<and> (loader_step example_answers 1 2)\<^sup>*\<^sup>* s0 s' \<and> phase s' = Finished"
  using loader_never_stuck [OF example_loader_start, of 1 example_answers, OF _ rtranclp.rtrancl_refl]
    example_loader_start
  by (auto simp: example_node_block_def)

text \<open>C34. Initial indexing. What a finished loader has sent is accepted by the indexer, which sees
  only sequential blocks: every block of the range goes to the confirmator once and in
  order, and the last one is stored as the last indexed.\<close>

theorem initial_indexing_complete:
  assumes "loader_start chunk_size start confirmed = Inr s0" and "start \<le> confirmed"
    and "(loader_step answers workers chunk_size)\<^sup>*\<^sup>* s0 s" and "phase s = Finished"
    and "\<And>h b. answers h b \<Longrightarrow> blk_height b = h" and "\<And>h. upd h = Inr ()"
  shows "\<exists>bs ix'. handle_initial_blocks L upd (to_indexer s) start ix = Inr ix'
    \<and> map blk_height bs = blocks_to_load start confirmed
    \<and> to_confirmator ix' = to_confirmator ix @ map Block bs
    \<and> last_indexed_block_hash ix' = Some (blk_hash (last bs))"
proof -
  let ?cs = "chunks_of chunk_size (blocks_to_load start confirmed)"
  have "loader_inv chunk_size ?cs s"
    by (rule loader_run_inv [OF assms(3) loader_start_inv(1) [OF assms(1)] assms(5)])
  from loader_inv_delivered [OF this] assms(4) obtain bss where
      d: "to_indexer s = map LoadedBlocks bss @ [FinishLoading]" "map (map blk_height) bss = ?cs"
    by auto
  then have h: "map blk_height (concat bss) = blocks_to_load start confirmed"
    using loader_start_inv(2) [OF assms(1)] by (simp add: map_concat)
  then have len: "length (concat bss) = Suc (unat confirmed) - unat start"
    by (metis blocks_to_load_def length_map length_upt)
  moreover have le: "unat start \<le> unat confirmed"
    using assms(2) by (simp add: word_le_nat_alt)
  ultimately have "map blk_height (concat bss) = map of_nat [unat start..<unat start + length (concat bss)]"
    using h by (simp add: blocks_to_load_def del: upt_Suc)
  moreover have "concat bss \<noteq> []"
    using len le by (metis Suc_diff_le length_0_conv nat.distinct(1))
  ultimately show ?thesis
    using handle_initial_blocks_sequential [OF assms(6), where a = "unat start"] h d(1)
    by (intro exI [of _ "concat bss"] exI [of _ "indexed L (concat bss) ix"]) (auto simp: indexed_fields)
qed


definition example_indexer :: BitcoinBlockIndexer where
  "example_indexer = \<lparr>confirmed_block_height = 3, confirmed_block_hash = Some 3,
     confirmed_index_block_time = 0, liveness_period = None, ix_network = Regtest,
     last_indexed_block_hash = None, to_controller = [], to_confirmator = []\<rparr>"

lemma initial_indexing_complete_witness:
  "\<exists>(s :: BlockLoader) (bs :: GetBlockTxResult list) ix'. phase s = Finished \<and> map blk_height bs = blocks_to_load 5 5
    \<and> handle_initial_blocks lib0 (\<lambda>_. Inr ()) (to_indexer s) 5 example_indexer = Inr ix'
    \<and> last_indexed_block_hash ix' = Some (blk_hash (last bs))"
proof -
  have height: "blk_height b = h" if "example_answers h b" for h b
    using that by (simp add: example_node_block_def)
  let ?s0 = "\<lparr>phase = NextChunk, chunks = [[5]], load_channel = [], in_work = [], loaded_channel = [],
      loaded_blocks = [], received_blocks = 0, to_indexer = []\<rparr>"
  have "\<exists>s. (loader_step example_answers 1 2)\<^sup>*\<^sup>* ?s0 s \<and> phase s = Finished"
    by (rule loader_finishes [OF loader_start_inv(1) [OF example_loader_start] _ _ height]) simp_all
  then obtain s where s: "(loader_step example_answers 1 2)\<^sup>*\<^sup>* ?s0 s" "phase s = Finished"
    by blast
  have "\<exists>bs ix'. handle_initial_blocks lib0 (\<lambda>_. Inr ()) (to_indexer s) 5 example_indexer = Inr ix'
    \<and> map blk_height bs = blocks_to_load 5 5
    \<and> to_confirmator ix' = to_confirmator example_indexer @ map Block bs
    \<and> last_indexed_block_hash ix' = Some (blk_hash (last bs))"
    by (rule initial_indexing_complete [OF example_loader_start _ s height]) simp_all
  with s(2) show ?thesis by blast
qed

text \<open>C35. Reorganisations end. When the confirmator goes back to a common ancestor, the height it
  reports is the ancestor's; told that height, the indexer fetches the block after the ancestor
  on the new chain in the same turn, and that block extends the confirmator's last one: it is
  not taken for another reorganisation.\<close>

theorem reorganization_resumes_at_ancestor:
  assumes "parent_mismatch b c" and "handle_new_block L rpc b c = Inr (c', [Reorganization txs h])"
    and heights: "\<And>a orphans kept. latest_blocks c = kept @ a # orphans \<Longrightarrow> bi_hash a = blk_hash A \<Longrightarrow>
        blk_height b = blk_height A + of_nat (Suc (length orphans))"
    and ancestor: "latest_blocks c' \<noteq> []" "bi_hash (last (latest_blocks c')) = blk_hash A"
    and node: "get_block_by_height node (blk_height A) = Inr A"
      "get_block_by_height node (blk_height A + 1) = Inr B"
      "previousblockhash B = Some (blk_hash A)" "blk_hash B \<noteq> blk_hash A"
      "get_block_count node = Inr best" "best \<noteq> blk_height A"
    and upd: "upd (blk_hash B) = Inr ()"
  shows "h = blk_height A
    \<and> to_confirmator (fst (run_turn L node upd now (Some (IndexerReorganization h)) r ix)) =
        to_confirmator ix @ [Block B]
    \<and> \<not> parent_mismatch B c'"
proof -
  obtain kept a orphans where d: "latest_blocks c = kept @ a # orphans" "latest_blocks c' = kept @ [a]"
      "h = blk_height b - of_nat (Suc (length orphans))"
    using reorg_success_shape [OF assms(1,2)] by blast
  then have "bi_hash a = blk_hash A"
    using ancestor by simp
  then have h: "h = blk_height A"
    using heights [OF d(1)] d(3) by simp
  have "\<not> parent_mismatch B c'"
    using ancestor node(3) by (simp add: parent_mismatch_def)
  with h show ?thesis
    using node upd
    by (simp add: run_turn_def handle_reorganization_def handle_new_blocks_def state_of_def
        index_block_def Let_def)
qed


definition example_node :: bitcoin_node where
  "example_node =
     \<lparr>get_block_count = Inr 3, get_block_hash = (\<lambda>h. Inr (if h = 1 then 1 else ucast h + 20)),
      get_block_txs = (\<lambda>h. Inr (if h = 1 then example_block 1 0 []
        else (example_block 2 1 [])\<lparr>blk_hash := h\<rparr>)),
      get_block_info_of = (\<lambda>_. Inl ())\<rparr>"

lemma reorganization_resumes_at_ancestor_witness:
  "to_confirmator (fst (run_turn lib0 example_node (\<lambda>_. Inr ()) 0 (Some (IndexerReorganization 1)) 0 example_indexer))
     = [Block ((example_block 2 1 [])\<lparr>blk_hash := 22\<rparr>)]"
proof -
  let ?c = "example_confirmator\<lparr>latest_blocks :=
        [\<lparr>bi_hash = 1, bi_txs = []\<rparr>, \<lparr>bi_hash = 2, bi_txs = [7]\<rparr>]\<rparr>"
  let ?c' = "?c\<lparr>latest_blocks := [\<lparr>bi_hash = 1, bi_txs = []\<rparr>], conf_queue := []\<rparr>"
  let ?rpc = "(\<lambda>_. Inr \<lparr>blk_hash = 22, previousblockhash = Some 1, blk_height = 2\<rparr>) :: get_block_info"
  have m: "parent_mismatch (example_block 3 22 []) ?c"
    by (simp add: parent_mismatch_def example_block_def)
  have r: "handle_new_block lib0 ?rpc (example_block 3 22 []) ?c = Inr (?c', [Reorganization [7] 1])"
    using m by (simp add: handle_new_block_def handle_reorg_def example_block_def example_confirmator_def
        extract_waiting_txs_from_block_def)
  have three: "(3 :: u64) \<noteq> 1"
    unfolding word_unat_eq_iff by simp
  have orphans: "length orphans = 1"
    if "latest_blocks ?c = kept @ a # orphans" "bi_hash a = 1" for kept a orphans
    using that by (cases kept) (auto simp: Cons_eq_append_conv)
  have "1 = blk_height (example_block 1 0 [])
    \<and> to_confirmator (fst (run_turn lib0 example_node (\<lambda>_. Inr ()) 0 (Some (IndexerReorganization 1)) 0 example_indexer))
      = to_confirmator example_indexer @ [Block ((example_block 2 1 [])\<lparr>blk_hash := 22\<rparr>)]
    \<and> \<not> parent_mismatch ((example_block 2 1 [])\<lparr>blk_hash := 22\<rparr>) ?c'"
  proof (rule reorganization_resumes_at_ancestor [OF m r, where best = 3])
    show "(3 :: u64) \<noteq> blk_height (example_block 1 0 [])"
      using three by (simp add: example_block_def)
    show "blk_height (example_block 3 22 []) = blk_height (example_block 1 0 []) + of_nat (Suc (length orphans))"
      if "latest_blocks ?c = kept @ a # orphans" "bi_hash a = blk_hash (example_block 1 0 [])" for kept a orphans
      using orphans [OF that(1)] that(2) by (simp add: example_block_def)
  qed (simp_all add: three get_block_by_height_def example_node_def example_block_def)
  then show ?thesis
    by (simp add: example_indexer_def)
qed

definition announcements_of :: "lib \<Rightarrow> Transaction \<Rightarrow> Announcement list" where
  "announcements_of L tx = List.map_filter
     (\<lambda>out. case announcement_from_script L (script_pubkey out) of Inr a \<Rightarrow> Some a | Inl _ \<Rightarrow> None)
     (tx_output tx)"

lemma fold_last_found:
  "fold (\<lambda>x found. case f x of Inr a \<Rightarrow> Some a | Inl _ \<Rightarrow> found) xs z =
     (let as = List.map_filter (\<lambda>x. case f x of Inr a \<Rightarrow> Some a | Inl _ \<Rightarrow> None) xs in
      if as = [] then z else Some (last as))"
  by (induction xs arbitrary: z) (auto simp: map_filter_simps Let_def split: sum.splits)

lemma last_announcement_last:
  "last_announcement L tx = (if announcements_of L tx = [] then None else Some (last (announcements_of L tx)))"
  by (simp add: last_announcement_def announcements_of_def fold_last_found Let_def)


end
