(* ===== verification/Lrc20_Storage.thy ===== *)
theory Lrc20_Storage
  imports Consensus Spark_Storage Messages
begin

text \<open>
  The storage of LRC20 transactions, of the mempool and of the inventory
  (crates/storage/src/traits/lrc20.rs, mempool.rs, inventory.rs and indexer.rs, and
  converters/lrc20.rs). The tables are lists of rows in the order of their identifiers;
  the constraints and the cascades are those of the migrations, and a query that fixes
  no order returns the rows in the order of their identifiers. The time of an insertion
  is an argument. Failures of the connection to the database are not modelled.
\<close>

section \<open>Tables\<close>

datatype L1TxStatus = Handling | Attached | InvalidIssue
datatype L1TxType = L1Issue | L1Transfer | L1SparkExit | L1Announcement
datatype MempoolStatus = Initialized | WaitingMined | Pending | Mined | Attaching
datatype AnnouncementType =
  TyIssue | TyTxFreeze | TyPubkeyFreeze | TyTransferOwnership | TyTokenPubkey | TyTokenLogo
datatype ProofType =
  TySparkExit | TyP2tr | TyP2wsh | TyP2wpkh | TyEmpty | TyMultisig | TyLightning | TyLightningHtlc | TyBulletproof
datatype ScriptType = ScriptP2tr | ScriptP2wsh | ScriptP2wpkh

record l1_transaction_row =
  l1_id :: nat
  l1_txid :: txid
  raw_tx :: bytes
  l1_timestamp :: int
  l1_status :: L1TxStatus
  l1_tx_type :: L1TxType

record proof_row =
  pr_txid :: txid
  pr_vout :: i32
  pr_spend_txid :: "txid option"
  pr_spend_vout :: "i32 option"
  pr_is_frozen :: bool
  pr_script :: script
  pr_metadata :: "bytes option"
  pr_script_type :: ScriptType
  pr_proof_type :: ProofType

record token_row =
  tk_txid :: txid
  tk_vout :: i32
  tk_token_pubkey :: bytes
  tk_token_amount :: bytes

record inner_key_row =
  ik_txid :: txid
  ik_vout :: i32
  ik_pubkey :: bytes

record announcement_row =
  an_txid :: txid
  an_token_pubkey :: bytes
  an_type :: AnnouncementType

record token_pubkey_announcement_row =
  tpr_txid :: txid
  tpr_name :: bytes
  tpr_symbol :: bytes
  tpr_decimal :: i32
  tpr_max_supply :: bytes
  tpr_is_freezable :: bool

record tx_freeze_announcement_row =
  tfr_txid :: txid
  freeze_txid :: txid
  freeze_vout :: i32

text \<open>The remaining tables of announcements hold one value for a transaction: the amount of an
  issue, the key that is frozen, the new owner and the logo.\<close>

record multisig_proof_row =
  mp_txid :: txid
  mp_vout :: i32
  mp_m :: i32

record p2wsh_proof_row =
  wp_txid :: txid
  wp_vout :: i32
  wp_script :: script

record lightning_commitment_proof_row =
  lc_txid :: txid
  lc_vout :: i32
  lc_revocation_pubkey :: bytes
  lc_local_delayed_pubkey :: bytes
  lc_to_self_delay :: i32

record lightning_htlc_proof_row =
  lh_txid :: txid
  lh_vout :: i32
  lh_cltv_expiry :: "i32 option"
  lh_local_htlc_key :: bytes
  lh_payment_hash :: bytes
  lh_remote_htlc_key :: bytes
  lh_revocation_key_hash :: bytes

record spark_exit_proof_row =
  sx_txid :: txid
  sx_vout :: i32
  sx_delay_key :: bytes
  sx_revocation_key :: bytes
  sx_locktime :: i32

datatype ReceiptProofModel =
    P2WSHModel p2wsh_proof_row
  | MultisigModel multisig_proof_row
  | LightningCommitmentModel lightning_commitment_proof_row
  | LightningHtlcModel lightning_htlc_proof_row
  | SparkExitModel spark_exit_proof_row

datatype AnnouncementModel =
    TokenPubkeyModel token_pubkey_announcement_row
  | TokenLogoModel "txid \<times> bytes"
  | TxFreezeModel tx_freeze_announcement_row
  | PubkeyFreezeModel "txid \<times> bytes"
  | IssueModel "txid \<times> bytes"
  | TransferOwnershipModel "txid \<times> script"

record mempool_row =
  mempool_id :: nat
  mempool_txid :: txid
  mempool_status :: MempoolStatus
  mempool_created_at :: int
  mempool_sender :: "SocketAddr option"

text \<open>The tables in three groups: those of proofs, those of announcements and the rest.\<close>

record ProofTables =
  db_proofs :: "proof_row list"
  db_tokens :: "token_row list"
  inner_keys :: "inner_key_row list"
  p2wsh_proofs :: "p2wsh_proof_row list"
  multisig_proofs :: "multisig_proof_row list"
  lightning_commitment_proofs :: "lightning_commitment_proof_row list"
  lightning_htlc_proofs :: "lightning_htlc_proof_row list"
  spark_exit_proofs :: "spark_exit_proof_row list"

record AnnouncementTables =
  announcements :: "announcement_row list"
  token_pubkey_announcements :: "token_pubkey_announcement_row list"
  token_logo_announcements :: "(txid \<times> bytes) list"
  tx_freeze_announcements :: "tx_freeze_announcement_row list"
  pubkey_freeze_announcements :: "(txid \<times> bytes) list"
  issue_announcements :: "(txid \<times> bytes) list"
  transfer_ownership_announcements :: "(txid \<times> script) list"

record Lrc20Db =
  next_l1_id :: nat
  l1_transactions :: "l1_transaction_row list"
  proof_tables :: ProofTables
  announcement_tables :: AnnouncementTables
  mempool_transactions :: "mempool_row list"
  last_block_hash :: "block_hash option option"

text \<open>An insertion with an update on conflict: the row with the same key takes the columns that
  are updated from the new row.\<close>

definition upsert :: "('r \<Rightarrow> 'k) \<Rightarrow> ('r \<Rightarrow> 'r \<Rightarrow> 'r) \<Rightarrow> 'r \<Rightarrow> 'r list \<Rightarrow> 'r list" where
  "upsert key merge r rs =
     (if list_ex (\<lambda>x. key x = key r) rs then update_first (\<lambda>x. key x = key r) (merge r) rs else rs @ [r])"

section \<open>Conversions\<close>

definition L1TxType_from :: "Lrc20TxType \<Rightarrow> L1TxType" where
  "L1TxType_from ty = (case ty of
     Issue _ _ \<Rightarrow> L1Issue | Transfer _ _ \<Rightarrow> L1Transfer | AnnouncementTx _ \<Rightarrow> L1Announcement | SparkExitTx _ \<Rightarrow> L1SparkExit)"

definition ProofType_from :: "ReceiptProof \<Rightarrow> ProofType" where
  "ProofType_from p = (case p of
     P2TR _ \<Rightarrow> TyP2tr | P2WSH _ \<Rightarrow> TyP2wsh | Sig _ \<Rightarrow> TyP2wpkh | Multisig _ \<Rightarrow> TyMultisig
   | LightningHtlc _ \<Rightarrow> TyLightningHtlc | SparkExit _ \<Rightarrow> TySparkExit | EmptyReceipt _ \<Rightarrow> TyEmpty
   | Lightning _ \<Rightarrow> TyLightning)"

definition ScriptType_from :: "lib \<Rightarrow> script \<Rightarrow> ScriptType" where
  "ScriptType_from L s =
     (if is_p2tr L s then ScriptP2tr else if is_p2wsh L s then ScriptP2wsh
      else if is_p2wpkh L s then ScriptP2wpkh else ScriptP2tr)"

text \<open>An unwrapped failure of the encoder panics.\<close>

definition create_lrc20_transaction_model ::
  "lib \<Rightarrow> wire \<Rightarrow> nat \<Rightarrow> int \<Rightarrow> Lrc20Transaction \<Rightarrow> L1TxStatus \<Rightarrow> DbErr fault + l1_transaction_row" where
  "create_lrc20_transaction_model L W i now tx status =
     rbind (expect (Lrc20Transaction_encode L W tx)) (\<lambda>bs.
     Inr \<lparr>l1_id = i, l1_txid = tx_txid L (bitcoin_tx tx), raw_tx = bs, l1_timestamp = now, l1_status = status,
          l1_tx_type = L1TxType_from (tx_type tx)\<rparr>)"

definition lrc20_transaction_from_model :: "lib \<Rightarrow> wire \<Rightarrow> l1_transaction_row \<Rightarrow> DbErr + Lrc20Transaction" where
  "lrc20_transaction_from_model L W r =
     rbind (map_err (\<lambda>_. ConversionFailed) (Lrc20Transaction_decode L W (raw_tx r))) (\<lambda>(tx, _). Inr tx)"

definition create_inner_key_model :: "txid \<Rightarrow> i32 \<Rightarrow> PublicKey \<Rightarrow> inner_key_row" where
  "create_inner_key_model t vout k = \<lparr>ik_txid = t, ik_vout = vout, ik_pubkey = pk_serialize k\<rparr>"

fun proof_inner_keys :: "txid \<Rightarrow> i32 \<Rightarrow> ReceiptProof \<Rightarrow> inner_key_row list" where
  "proof_inner_keys t vout (EmptyReceipt p) = [create_inner_key_model t vout (empty_inner_key p)]"
| "proof_inner_keys t vout (Sig p) = [create_inner_key_model t vout (sig_inner_key p)]"
| "proof_inner_keys t vout (Multisig p) = map (create_inner_key_model t vout) (ms_inner_keys p)"
| "proof_inner_keys t vout (P2WSH p) = [create_inner_key_model t vout (wsh_inner_key p)]"
| "proof_inner_keys t vout (P2TR p) = [create_inner_key_model t vout (tr_inner_key p)]"
| "proof_inner_keys t vout _ = []"

fun proof_model :: "txid \<Rightarrow> i32 \<Rightarrow> ReceiptProof \<Rightarrow> ReceiptProofModel option" where
  "proof_model t vout (Multisig p) = Some (MultisigModel \<lparr>mp_txid = t, mp_vout = vout, mp_m = ucast (ms_m p)\<rparr>)"
| "proof_model t vout (Lightning p) = Some (LightningCommitmentModel
     \<lparr>lc_txid = t, lc_vout = vout, lc_revocation_pubkey = pk_serialize (revocation_pubkey (ln_data p)),
      lc_local_delayed_pubkey = pk_serialize (local_delayed_pubkey (ln_data p)),
      lc_to_self_delay = ucast (to_self_delay (ln_data p))\<rparr>)"
| "proof_model t vout (LightningHtlc p) = Some (LightningHtlcModel
     \<lparr>lh_txid = t, lh_vout = vout,
      lh_cltv_expiry = (case htlc_kind (htlc_data p) of Offered \<Rightarrow> None | Received n \<Rightarrow> Some n),
      lh_local_htlc_key = pk_serialize (local_htlc_key (htlc_data p)),
      lh_payment_hash = to_be_bytes (payment_hash (htlc_data p)),
      lh_remote_htlc_key = pk_serialize (remote_htlc_key (htlc_data p)),
      lh_revocation_key_hash = to_be_bytes (revocation_key_hash (htlc_data p))\<rparr>)"
| "proof_model t vout (P2WSH p) = Some (P2WSHModel \<lparr>wp_txid = t, wp_vout = vout, wp_script = wsh_script p\<rparr>)"
| "proof_model t vout (SparkExit p) = Some (SparkExitModel
     \<lparr>sx_txid = t, sx_vout = vout, sx_delay_key = pk_serialize (delay_key (exit_script p)),
      sx_revocation_key = pk_serialize (revocation_key (exit_script p)), sx_locktime = exit_locktime (exit_script p)\<rparr>)"
| "proof_model t vout _ = None"

text \<open>The output of a proof is indexed without a check.\<close>

definition create_proof_models ::
  "lib \<Rightarrow> Transaction \<Rightarrow> ProofMap \<Rightarrow>
     DbErr fault + (proof_row \<times> inner_key_row list \<times> token_row list \<times> ReceiptProofModel option) list" where
  "create_proof_models L t proofs =
     mapM (\<lambda>(vout, p).
       if sint vout < 0 \<or> length (tx_output t) \<le> unat vout then Inl Panics
       else
         let s = script_pubkey (tx_output t ! unat vout) in
         Inr (\<lparr>pr_txid = tx_txid L t, pr_vout = vout, pr_spend_txid = None, pr_spend_vout = None,
               pr_is_frozen = False, pr_script = s,
               pr_metadata = map_option (\<lambda>m. case json_to_vec L m of None \<Rightarrow> [] | Some b \<Rightarrow> b) (metadata p),
               pr_script_type = ScriptType_from L s, pr_proof_type = ProofType_from p\<rparr>,
              proof_inner_keys (tx_txid L t) vout p,
              [\<lparr>tk_txid = tx_txid L t, tk_vout = vout,
                tk_token_pubkey = TokenPubkey_to_bytes (token_pubkey (receipt p)),
                tk_token_amount = TokenAmount_to_bytes (token_amount (receipt p))\<rparr>],
              proof_model (tx_txid L t) vout p)) proofs"

definition create_token_pubkey_announcement_model :: "txid \<Rightarrow> TokenPubkeyAnnouncement \<Rightarrow> token_pubkey_announcement_row" where
  "create_token_pubkey_announcement_model t a =
     \<lparr>tpr_txid = t, tpr_name = tpa_name a, tpr_symbol = tpa_symbol a, tpr_decimal = ucast (tpa_decimal a),
      tpr_max_supply = to_be_bytes (tpa_max_supply a), tpr_is_freezable = tpa_is_freezable a\<rparr>"

definition create_tx_freeze_announcement_model :: "txid \<Rightarrow> txid \<Rightarrow> u32 \<Rightarrow> tx_freeze_announcement_row" where
  "create_tx_freeze_announcement_model t ft fv = \<lparr>tfr_txid = t, freeze_txid = ft, freeze_vout = fv\<rparr>"

definition create_pubkey_freeze_announcement_model :: "txid \<Rightarrow> TokenPubkey \<Rightarrow> txid \<times> bytes" where
  "create_pubkey_freeze_announcement_model t k = (t, TokenPubkey_to_bytes k)"

definition create_transfer_ownership_announcement_model :: "txid \<Rightarrow> script \<Rightarrow> txid \<times> script" where
  "create_transfer_ownership_announcement_model t s = (t, s)"

definition create_logo_announcement_model :: "txid \<Rightarrow> TokenLogoAnnouncement \<Rightarrow> txid \<times> bytes" where
  "create_logo_announcement_model t a = (t, logo_url a)"

definition create_issue_announcement_model :: "txid \<Rightarrow> IssueAnnouncement \<Rightarrow> txid \<times> bytes" where
  "create_issue_announcement_model t a = (t, to_be_bytes (issue_amount a))"

definition convert_from_token_pubkey_announcement_model_to_announcement ::
  "lib \<Rightarrow> token_pubkey_announcement_row \<Rightarrow> announcement_row \<Rightarrow> DbErr fault + TokenPubkeyAnnouncement" where
  "convert_from_token_pubkey_announcement_model_to_announcement L r a =
     rbind (expect (TokenPubkey_from_bytes L (an_token_pubkey a))) (\<lambda>token.
     if length (tpr_max_supply r) \<noteq> 16 then Inl Panics
     else Inr \<lparr>tpa_token_pubkey = token, tpa_name = tpr_name r, tpa_symbol = tpr_symbol r,
       tpa_decimal = ucast (tpr_decimal r), tpa_max_supply = from_be_bytes (tpr_max_supply r),
       tpa_is_freezable = tpr_is_freezable r\<rparr>)"

definition convert_from_issue_announcement_model_to_announcement ::
  "lib \<Rightarrow> txid \<times> bytes \<Rightarrow> announcement_row \<Rightarrow> DbErr fault + IssueAnnouncement" where
  "convert_from_issue_announcement_model_to_announcement L r a =
     rbind (expect (TokenPubkey_from_bytes L (an_token_pubkey a))) (\<lambda>token.
     if length (snd r) \<noteq> 16 then Inl Panics
     else Inr \<lparr>issue_token_pubkey = token, issue_amount = from_be_bytes (snd r)\<rparr>)"

section \<open>Insertion of a transaction\<close>

definition insert_proof_model :: "ReceiptProofModel \<Rightarrow> ProofTables \<Rightarrow> ProofTables" where
  "insert_proof_model m db = (case m of
     P2WSHModel r \<Rightarrow> db\<lparr>p2wsh_proofs := upsert (\<lambda>x. (wp_txid x, wp_vout x))
       (\<lambda>n x. x\<lparr>wp_script := wp_script n\<rparr>) r (p2wsh_proofs db)\<rparr>
   | MultisigModel r \<Rightarrow> db\<lparr>multisig_proofs := upsert (\<lambda>x. (mp_txid x, mp_vout x))
       (\<lambda>n x. x\<lparr>mp_m := mp_m n\<rparr>) r (multisig_proofs db)\<rparr>
   | LightningCommitmentModel r \<Rightarrow> db\<lparr>lightning_commitment_proofs := upsert (\<lambda>x. (lc_txid x, lc_vout x))
       (\<lambda>n x. x\<lparr>lc_local_delayed_pubkey := lc_local_delayed_pubkey n, lc_to_self_delay := lc_to_self_delay n,
          lc_revocation_pubkey := lc_revocation_pubkey n\<rparr>) r (lightning_commitment_proofs db)\<rparr>
   | LightningHtlcModel r \<Rightarrow> db\<lparr>lightning_htlc_proofs := upsert (\<lambda>x. (lh_txid x, lh_vout x))
       (\<lambda>n x. x\<lparr>lh_local_htlc_key := lh_local_htlc_key n, lh_remote_htlc_key := lh_remote_htlc_key n,
          lh_payment_hash := lh_payment_hash n, lh_revocation_key_hash := lh_revocation_key_hash n,
          lh_cltv_expiry := lh_cltv_expiry n\<rparr>) r (lightning_htlc_proofs db)\<rparr>
   | SparkExitModel r \<Rightarrow> db\<lparr>spark_exit_proofs := upsert (\<lambda>x. (sx_txid x, sx_vout x))
       (\<lambda>n x. x\<lparr>sx_revocation_key := sx_revocation_key n, sx_delay_key := sx_delay_key n,
          sx_locktime := sx_locktime n\<rparr>) r (spark_exit_proofs db)\<rparr>)"

definition insert_proof ::
  "proof_row \<times> inner_key_row list \<times> token_row list \<times> ReceiptProofModel option \<Rightarrow> ProofTables \<Rightarrow> ProofTables" where
  "insert_proof m db = (case m of (p, keys, tokens, model) \<Rightarrow>
     let db1 = db\<lparr>db_proofs := upsert (\<lambda>x. (pr_txid x, pr_vout x))
           (\<lambda>n x. x\<lparr>pr_spend_txid := pr_spend_txid n, pr_spend_vout := pr_spend_vout n,
              pr_is_frozen := pr_is_frozen n, pr_script := pr_script n, pr_script_type := pr_script_type n,
              pr_metadata := pr_metadata n, pr_proof_type := pr_proof_type n\<rparr>) p (db_proofs db)\<rparr>;
         db2 = db1\<lparr>inner_keys := fold (upsert (\<lambda>x. (ik_txid x, ik_vout x)) (\<lambda>n x. x\<lparr>ik_pubkey := ik_pubkey n\<rparr>))
           keys (inner_keys db1)\<rparr>;
         db3 = db2\<lparr>db_tokens := fold (upsert (\<lambda>x. (tk_txid x, tk_vout x))
             (\<lambda>n x. x\<lparr>tk_token_amount := tk_token_amount n, tk_token_pubkey := tk_token_pubkey n\<rparr>))
           tokens (db_tokens db2)\<rparr> in
     case model of None \<Rightarrow> db3 | Some pm \<Rightarrow> insert_proof_model pm db3)"

text \<open>The tables of announcements refer to the table of all announcements by the transaction.\<close>

definition model_txid :: "AnnouncementModel \<Rightarrow> txid" where
  "model_txid m = (case m of
     TokenPubkeyModel r \<Rightarrow> tpr_txid r | TokenLogoModel r \<Rightarrow> fst r | TxFreezeModel r \<Rightarrow> tfr_txid r
   | PubkeyFreezeModel r \<Rightarrow> fst r | IssueModel r \<Rightarrow> fst r | TransferOwnershipModel r \<Rightarrow> fst r)"

definition insert_announcement_model :: "AnnouncementModel \<Rightarrow> AnnouncementTables \<Rightarrow> DbErr + AnnouncementTables" where
  "insert_announcement_model m db =
     rbind (require (list_ex (\<lambda>a. an_txid a = model_txid m) (announcements db)) ConstraintViolated) (\<lambda>_.
     Inr (case m of
       TokenPubkeyModel r \<Rightarrow> db\<lparr>token_pubkey_announcements := upsert tpr_txid
         (\<lambda>n x. x\<lparr>tpr_name := tpr_name n, tpr_symbol := tpr_symbol n, tpr_decimal := tpr_decimal n,
            tpr_max_supply := tpr_max_supply n, tpr_is_freezable := tpr_is_freezable n\<rparr>)
         r (token_pubkey_announcements db)\<rparr>
     | TxFreezeModel r \<Rightarrow> db\<lparr>tx_freeze_announcements := upsert tfr_txid
         (\<lambda>n x. x\<lparr>freeze_txid := freeze_txid n, freeze_vout := freeze_vout n\<rparr>) r (tx_freeze_announcements db)\<rparr>
     | PubkeyFreezeModel r \<Rightarrow> db\<lparr>pubkey_freeze_announcements := upsert fst (\<lambda>n x. n) r (pubkey_freeze_announcements db)\<rparr>
     | IssueModel r \<Rightarrow> db\<lparr>issue_announcements := upsert fst (\<lambda>n x. n) r (issue_announcements db)\<rparr>
     | TransferOwnershipModel r \<Rightarrow>
         db\<lparr>transfer_ownership_announcements := upsert fst (\<lambda>n x. n) r (transfer_ownership_announcements db)\<rparr>
     | TokenLogoModel r \<Rightarrow> db\<lparr>token_logo_announcements := upsert fst (\<lambda>n x. n) r (token_logo_announcements db)\<rparr>))"

fun announcement_model :: "txid \<Rightarrow> Announcement \<Rightarrow> AnnouncementType \<times> AnnouncementModel" where
  "announcement_model t (TokenPubkeyA a) = (TyTokenPubkey, TokenPubkeyModel (create_token_pubkey_announcement_model t a))"
| "announcement_model t (TxFreezeA a) = (TyTxFreeze,
     TxFreezeModel (create_tx_freeze_announcement_model t (op_txid (txf_outpoint a)) (op_vout (txf_outpoint a))))"
| "announcement_model t (PubkeyFreezeA a) =
     (TyPubkeyFreeze, PubkeyFreezeModel (create_pubkey_freeze_announcement_model t (TokenPubkey (pkf_pubkey a))))"
| "announcement_model t (TransferOwnershipA a) =
     (TyTransferOwnership, TransferOwnershipModel (create_transfer_ownership_announcement_model t (new_owner a)))"
| "announcement_model t (IssueA a) = (TyIssue, IssueModel (create_issue_announcement_model t a))"
| "announcement_model t (TokenLogoA a) = (TyTokenLogo, TokenLogoModel (create_logo_announcement_model t a))"

text \<open>The proofs that the inputs of a transfer spend are marked with the spender.\<close>

definition mark_proof_spent :: "txid \<Rightarrow> Transaction \<Rightarrow> u32 \<Rightarrow> proof_row list \<Rightarrow> proof_row list" where
  "mark_proof_spent t btx i rs =
     (if length (tx_input btx) \<le> unat i then rs
      else let prev = previous_output (tx_input btx ! unat i) in
        update_first (\<lambda>r. pr_txid r = op_txid prev \<and> pr_vout r = op_vout prev)
          (\<lambda>r. r\<lparr>pr_spend_txid := Some t, pr_spend_vout := Some i\<rparr>) rs)"

definition insert_announcement_row :: "txid \<Rightarrow> TokenPubkey \<Rightarrow> AnnouncementType \<Rightarrow> AnnouncementTables \<Rightarrow> AnnouncementTables" where
  "insert_announcement_row t token ty db =
     db\<lparr>announcements := upsert an_txid (\<lambda>n x. x\<lparr>an_token_pubkey := an_token_pubkey n, an_type := an_type n\<rparr>)
       \<lparr>an_txid = t, an_token_pubkey = TokenPubkey_to_bytes token, an_type = ty\<rparr> (announcements db)\<rparr>"

text \<open>The proofs a transaction adds, the token and the kind of the announcement it makes, and
  the row of that announcement.\<close>

definition stored_proofs :: "Lrc20TxType \<Rightarrow> ProofMap" where
  "stored_proofs ty = (case ty of
     Transfer _ out \<Rightarrow> out | Issue ps _ \<Rightarrow> (case ps of None \<Rightarrow> [] | Some p \<Rightarrow> p) | SparkExitTx out \<Rightarrow> out
   | AnnouncementTx _ \<Rightarrow> [])"

definition stored_announcement ::
  "txid \<Rightarrow> Lrc20TxType \<Rightarrow> (AnnouncementType \<times> TokenPubkey option \<times> AnnouncementModel) option" where
  "stored_announcement t ty = (case ty of
     Issue ps a \<Rightarrow> Some (TyIssue,
       (case ps of None \<Rightarrow> None | Some [] \<Rightarrow> None | Some (p # _) \<Rightarrow> Some (token_pubkey (receipt (snd p)))),
       IssueModel (create_issue_announcement_model t a))
   | AnnouncementTx a \<Rightarrow> Some (fst (announcement_model t a), Some (announcement_token_pubkey a), snd (announcement_model t a))
   | _ \<Rightarrow> None)"

text \<open>The three parts of the insertion: the row of the transaction, its proofs with the spends
  of a transfer, and its announcement.\<close>

definition insert_l1_row :: "lib \<Rightarrow> wire \<Rightarrow> int \<Rightarrow> Lrc20Transaction \<Rightarrow> Lrc20Db \<Rightarrow> DbErr fault + Lrc20Db" where
  "insert_l1_row L W now tx db =
     rbind (create_lrc20_transaction_model L W (next_l1_id db) now tx Handling) (\<lambda>row.
     Inr (db\<lparr>next_l1_id := next_l1_id db + 1,
        l1_transactions := upsert l1_txid (\<lambda>n x. x\<lparr>raw_tx := raw_tx n, l1_status := l1_status n\<rparr>)
          row (l1_transactions db)\<rparr>))"

definition insert_proofs :: "lib \<Rightarrow> Lrc20Transaction \<Rightarrow> Lrc20Db \<Rightarrow> DbErr fault + Lrc20Db" where
  "insert_proofs L tx db =
     rbind (create_proof_models L (bitcoin_tx tx) (stored_proofs (tx_type tx))) (\<lambda>models.
     let ps = proof_tables db;
         ps1 = (case tx_type tx of
           Transfer ins _ \<Rightarrow> ps\<lparr>db_proofs := fold (mark_proof_spent (tx_txid L (bitcoin_tx tx)) (bitcoin_tx tx))
             (map fst ins) (db_proofs ps)\<rparr>
         | _ \<Rightarrow> ps) in
     Inr (db\<lparr>proof_tables := fold insert_proof models ps1\<rparr>))"

definition insert_announcement :: "txid \<Rightarrow> Lrc20TxType \<Rightarrow> Lrc20Db \<Rightarrow> DbErr + Lrc20Db" where
  "insert_announcement t ty db =
     (case stored_announcement t ty of
        None \<Rightarrow> Inr db
      | Some (aty, token, m) \<Rightarrow>
          let as = (case token of None \<Rightarrow> announcement_tables db
                    | Some k \<Rightarrow> insert_announcement_row t k aty (announcement_tables db)) in
          rbind (insert_announcement_model m as) (\<lambda>as'. Inr (db\<lparr>announcement_tables := as'\<rparr>)))"

text \<open>The insertion is one database transaction: an error leaves the tables as they were.\<close>

definition insert_lrc20_transaction ::
  "lib \<Rightarrow> wire \<Rightarrow> int \<Rightarrow> Lrc20Transaction \<Rightarrow> Lrc20Db \<Rightarrow> DbErr fault + Lrc20Db" where
  "insert_lrc20_transaction L W now tx db =
     rbind (insert_l1_row L W now tx db) (\<lambda>db1.
     rbind (insert_proofs L tx db1) (\<lambda>db2.
     may_fail (insert_announcement (tx_txid L (bitcoin_tx tx)) (tx_type tx) db2)))"

section \<open>Other operations on transactions\<close>

definition get_lrc20_transaction_by_id ::
  "lib \<Rightarrow> wire \<Rightarrow> Lrc20Db \<Rightarrow> txid \<Rightarrow> DbErr + Lrc20Transaction option" where
  "get_lrc20_transaction_by_id L W db t =
     (case find (\<lambda>r. l1_txid r = t) (l1_transactions db) of
        None \<Rightarrow> Inr None
      | Some r \<Rightarrow>
          rbind (lrc20_transaction_from_model L W r) (\<lambda>tx.
          Inr (Some (case (tx_type tx, l1_status r) of
             (Issue _ a, InvalidIssue) \<Rightarrow> tx\<lparr>tx_type := AnnouncementTx (IssueA a)\<rparr>
           | _ \<Rightarrow> tx))))"

definition get_lrc_20_transactions_by_ids ::
  "lib \<Rightarrow> wire \<Rightarrow> Lrc20Db \<Rightarrow> txid list \<Rightarrow> DbErr + Lrc20Transaction list" where
  "get_lrc_20_transactions_by_ids L W db ts =
     mapM (lrc20_transaction_from_model L W) (filter (\<lambda>r. l1_txid r \<in> set ts) (l1_transactions db))"

definition get_lrc_20_transactions ::
  "lib \<Rightarrow> wire \<Rightarrow> Lrc20Db \<Rightarrow> nat \<Rightarrow> nat \<Rightarrow> DbErr + Lrc20Transaction list" where
  "get_lrc_20_transactions L W db page_size page_number =
     mapM (lrc20_transaction_from_model L W)
       (take page_size (drop (page_size * page_number) (sort_key l1_timestamp (l1_transactions db))))"

text \<open>Deleting a transaction deletes what refers to it.\<close>

definition delete_where :: "(txid \<Rightarrow> bool) \<Rightarrow> Lrc20Db \<Rightarrow> Lrc20Db" where
  "delete_where P db =
     (let ps = proof_tables db; as = announcement_tables db in
      db\<lparr>l1_transactions := filter (\<lambda>r. \<not> P (l1_txid r)) (l1_transactions db),
         proof_tables := \<lparr>
           db_proofs = filter (\<lambda>r. \<not> P (pr_txid r)) (db_proofs ps),
           db_tokens = filter (\<lambda>r. \<not> P (tk_txid r)) (db_tokens ps),
           inner_keys = filter (\<lambda>r. \<not> P (ik_txid r)) (inner_keys ps),
           p2wsh_proofs = filter (\<lambda>r. \<not> P (wp_txid r)) (p2wsh_proofs ps),
           multisig_proofs = filter (\<lambda>r. \<not> P (mp_txid r)) (multisig_proofs ps),
           lightning_commitment_proofs = filter (\<lambda>r. \<not> P (lc_txid r)) (lightning_commitment_proofs ps),
           lightning_htlc_proofs = filter (\<lambda>r. \<not> P (lh_txid r)) (lightning_htlc_proofs ps),
           spark_exit_proofs = filter (\<lambda>r. \<not> P (sx_txid r)) (spark_exit_proofs ps)\<rparr>,
         announcement_tables := \<lparr>
           announcements = filter (\<lambda>r. \<not> P (an_txid r)) (announcements as),
           token_pubkey_announcements = filter (\<lambda>r. \<not> P (tpr_txid r)) (token_pubkey_announcements as),
           token_logo_announcements = filter (\<lambda>r. \<not> P (fst r)) (token_logo_announcements as),
           tx_freeze_announcements = filter (\<lambda>r. \<not> P (tfr_txid r)) (tx_freeze_announcements as),
           pubkey_freeze_announcements = filter (\<lambda>r. \<not> P (fst r)) (pubkey_freeze_announcements as),
           issue_announcements = filter (\<lambda>r. \<not> P (fst r)) (issue_announcements as),
           transfer_ownership_announcements = filter (\<lambda>r. \<not> P (fst r)) (transfer_ownership_announcements as)\<rparr>,
         mempool_transactions := filter (\<lambda>r. \<not> P (mempool_txid r)) (mempool_transactions db)\<rparr>)"

definition delete_list_lrc20_transactions :: "txid list \<Rightarrow> Lrc20Db \<Rightarrow> Lrc20Db" where
  "delete_list_lrc20_transactions ts db = delete_where (\<lambda>t. t \<in> set ts \<and> t \<in> l1_txid ` set (l1_transactions db)) db"

definition delete_lrc20_transaction :: "txid \<Rightarrow> Lrc20Db \<Rightarrow> Lrc20Db" where
  "delete_lrc20_transaction t db =
     (if t \<in> l1_txid ` set (l1_transactions db) then delete_where (\<lambda>x. x = t) db else db)"

definition set_lrc20_tx_status :: "txid \<Rightarrow> L1TxStatus \<Rightarrow> Lrc20Db \<Rightarrow> Lrc20Db" where
  "set_lrc20_tx_status t s db =
     db\<lparr>l1_transactions := update_first (\<lambda>r. l1_txid r = t) (\<lambda>r. r\<lparr>l1_status := s\<rparr>) (l1_transactions db)\<rparr>"

section \<open>Freezes\<close>

definition is_proof_spent :: "Lrc20Db \<Rightarrow> txid \<Rightarrow> i32 \<Rightarrow> bool" where
  "is_proof_spent db t vout =
     list_ex (\<lambda>r. pr_txid r = t \<and> pr_vout r = vout \<and> pr_spend_txid r \<noteq> None) (db_proofs (proof_tables db))"

definition toggle_proof_freeze :: "txid \<Rightarrow> u32 \<Rightarrow> Lrc20Db \<Rightarrow> Lrc20Db" where
  "toggle_proof_freeze t vout db =
     (let ps = proof_tables db in
      db\<lparr>proof_tables := ps\<lparr>db_proofs := update_first (\<lambda>r. pr_txid r = t \<and> pr_vout r = vout)
        (\<lambda>r. r\<lparr>pr_is_frozen := \<not> pr_is_frozen r\<rparr>) (db_proofs ps)\<rparr>\<rparr>)"

definition is_proof_frozen :: "Lrc20Db \<Rightarrow> txid \<Rightarrow> u32 \<Rightarrow> bool" where
  "is_proof_frozen db t vout =
     (case find (\<lambda>r. pr_txid r = t \<and> pr_vout r = vout) (db_proofs (proof_tables db)) of
        None \<Rightarrow> False | Some r \<Rightarrow> pr_is_frozen r)"

definition is_pubkey_frozen :: "Lrc20Db \<Rightarrow> PublicKey \<Rightarrow> PublicKey \<Rightarrow> bool" where
  "is_pubkey_frozen db key token =
     (let as = announcement_tables db in
      odd (length (filter (\<lambda>r. snd r = pk_serialize key
          \<and> list_ex (\<lambda>a. an_txid a = fst r \<and> an_token_pubkey a = pk_serialize token) (announcements as))
        (pubkey_freeze_announcements as))))"

section \<open>Tokens\<close>

definition saturating_add :: "'a::len word \<Rightarrow> 'a word \<Rightarrow> 'a word" where
  "saturating_add a b = (case checked_add a b of None \<Rightarrow> - 1 | Some s \<Rightarrow> s)"

definition l1_row :: "Lrc20Db \<Rightarrow> txid \<Rightarrow> l1_transaction_row option" where
  "l1_row db t = find (\<lambda>r. l1_txid r = t) (l1_transactions db)"

definition announcement_rows_of :: "Lrc20Db \<Rightarrow> TokenPubkey \<Rightarrow> AnnouncementType \<Rightarrow> announcement_row list" where
  "announcement_rows_of db token ty =
     filter (\<lambda>a. an_token_pubkey a = TokenPubkey_to_bytes token \<and> an_type a = ty) (announcements (announcement_tables db))"

definition total_supply :: "lib \<Rightarrow> Lrc20Db \<Rightarrow> TokenPubkey \<Rightarrow> DbErr fault + u128" where
  "total_supply L db token =
     foldM (\<lambda>s a. case find (\<lambda>r. fst r = an_txid a) (issue_announcements (announcement_tables db)) of
         None \<Rightarrow> Inr s
       | Some r \<Rightarrow> rbind (convert_from_issue_announcement_model_to_announcement L r a) (\<lambda>i.
           Inr (saturating_add s (issue_amount i))))
       0 (announcement_rows_of db token TyIssue)"

text \<open>The announcement whose transaction was inserted last, by the time of the insertion.\<close>

definition last_announcement_row :: "Lrc20Db \<Rightarrow> TokenPubkey \<Rightarrow> AnnouncementType \<Rightarrow> announcement_row option" where
  "last_announcement_row db token ty =
     (case sort_key (\<lambda>a. - l1_timestamp (the (l1_row db (an_txid a))))
         (filter (\<lambda>a. l1_row db (an_txid a) \<noteq> None) (announcement_rows_of db token ty)) of
        [] \<Rightarrow> None | a # _ \<Rightarrow> Some a)"

definition get_token_pubkey_info :: "lib \<Rightarrow> Lrc20Db \<Rightarrow> TokenPubkey \<Rightarrow> DbErr fault + TokenPubkeyInfo option" where
  "get_token_pubkey_info L db token =
     (let as = announcement_tables db in
      case find (\<lambda>a. case l1_row db (an_txid a) of None \<Rightarrow> False | Some r \<Rightarrow> l1_status r = Attached)
          (announcement_rows_of db token TyTokenPubkey) of
        None \<Rightarrow> Inr None
      | Some a \<Rightarrow>
          (case find (\<lambda>r. tpr_txid r = an_txid a) (token_pubkey_announcements as) of
             None \<Rightarrow> Inr None
           | Some r \<Rightarrow>
               rbind (convert_from_token_pubkey_announcement_model_to_announcement L r a) (\<lambda>tpa.
               rbind (total_supply L db token) (\<lambda>supply.
               Inr (Some \<lparr>info_announcement = Some tpa, info_total_supply = supply,
                 info_owner = (case last_announcement_row db token TyTransferOwnership of
                     None \<Rightarrow> None
                   | Some o' \<Rightarrow> map_option snd (find (\<lambda>r. fst r = an_txid o') (transfer_ownership_announcements as))),
                 info_logo_url = (case last_announcement_row db token TyTokenLogo of
                     None \<Rightarrow> None
                   | Some l \<Rightarrow> map_option snd (find (\<lambda>r. fst r = an_txid l) (token_logo_announcements as)))\<rparr>)))))"

section \<open>Mempool, inventory and indexer\<close>

text \<open>An entry with a transaction that cannot be read is an error in the query for one and is
  skipped in the queries for many.\<close>

definition mempool_entry ::
  "lib \<Rightarrow> wire \<Rightarrow> Lrc20Db \<Rightarrow> mempool_row \<Rightarrow> (DbErr + Lrc20Transaction \<times> MempoolStatus \<times> SocketAddr option) option" where
  "mempool_entry L W db m = map_option (\<lambda>r. rbind (lrc20_transaction_from_model L W r)
     (\<lambda>tx. Inr (tx, mempool_status m, mempool_sender m))) (l1_row db (mempool_txid m))"

definition get_mempool_transaction ::
  "lib \<Rightarrow> wire \<Rightarrow> Lrc20Db \<Rightarrow> txid \<Rightarrow> DbErr + (Lrc20Transaction \<times> MempoolStatus \<times> SocketAddr option) option" where
  "get_mempool_transaction L W db t =
     (case find (\<lambda>m. mempool_txid m = t) (mempool_transactions db) of
        None \<Rightarrow> Inr None
      | Some m \<Rightarrow> (case mempool_entry L W db m of None \<Rightarrow> Inr None | Some e \<Rightarrow> rbind e (Inr \<circ> Some)))"

definition readable_entries ::
  "lib \<Rightarrow> wire \<Rightarrow> Lrc20Db \<Rightarrow> mempool_row list \<Rightarrow> (Lrc20Transaction \<times> MempoolStatus \<times> SocketAddr option) list" where
  "readable_entries L W db ms = List.map_filter (\<lambda>m. case mempool_entry L W db m of Some (Inr e) \<Rightarrow> Some e | _ \<Rightarrow> None) ms"

definition get_mempool :: "lib \<Rightarrow> wire \<Rightarrow> Lrc20Db \<Rightarrow> (Lrc20Transaction \<times> MempoolStatus \<times> SocketAddr option) list" where
  "get_mempool L W db = readable_entries L W db (mempool_transactions db)"

definition get_mempool_by_txids ::
  "lib \<Rightarrow> wire \<Rightarrow> Lrc20Db \<Rightarrow> txid list \<Rightarrow> (Lrc20Transaction \<times> MempoolStatus \<times> SocketAddr option) list" where
  "get_mempool_by_txids L W db ts = readable_entries L W db (filter (\<lambda>m. mempool_txid m \<in> set ts) (mempool_transactions db))"

definition put_mempool_transaction :: "txid \<Rightarrow> SocketAddr option \<Rightarrow> Lrc20Db \<Rightarrow> DbErr + Lrc20Db" where
  "put_mempool_transaction t sender db =
     rbind (ok_or (l1_row db t) RecordNotFound) (\<lambda>r.
     Inr (if list_ex (\<lambda>m. mempool_txid m = t \<or> mempool_id m = l1_id r) (mempool_transactions db) then db
          else db\<lparr>mempool_transactions := mempool_transactions db
            @ [\<lparr>mempool_id = l1_id r, mempool_txid = t, mempool_status = Initialized,
                mempool_created_at = l1_timestamp r, mempool_sender = sender\<rparr>]\<rparr>))"

definition update_mempool_tx_status :: "txid \<Rightarrow> MempoolStatus \<Rightarrow> Lrc20Db \<Rightarrow> DbErr + Lrc20Db" where
  "update_mempool_tx_status t s db =
     rbind (require (list_ex (\<lambda>m. mempool_txid m = t) (mempool_transactions db)) RecordNotFound) (\<lambda>_.
     Inr (db\<lparr>mempool_transactions := update_first (\<lambda>m. mempool_txid m = t) (\<lambda>m. m\<lparr>mempool_status := s\<rparr>)
       (mempool_transactions db)\<rparr>))"

definition delete_mempool_txs :: "txid list \<Rightarrow> Lrc20Db \<Rightarrow> Lrc20Db" where
  "delete_mempool_txs ts db =
     db\<lparr>mempool_transactions := filter (\<lambda>m. mempool_txid m \<notin> set ts) (mempool_transactions db)\<rparr>"

definition delete_mempool_entry :: "txid \<Rightarrow> Lrc20Db \<Rightarrow> Lrc20Db" where
  "delete_mempool_entry t db = delete_mempool_txs [t] db"

definition get_lrc20_inventory :: "Lrc20Db \<Rightarrow> nat \<Rightarrow> txid list" where
  "get_lrc20_inventory db inv_size =
     map l1_txid (take inv_size (sort_key (\<lambda>r. - l1_timestamp r)
       (filter (\<lambda>r. l1_status r = Attached
          \<or> list_ex (\<lambda>m. mempool_txid m = l1_txid r \<and> mempool_status m \<noteq> Initialized) (mempool_transactions db))
        (l1_transactions db))))"

definition get_last_indexed_block_hash :: "Lrc20Db \<Rightarrow> block_hash option" where
  "get_last_indexed_block_hash db = (case last_block_hash db of None \<Rightarrow> None | Some h \<Rightarrow> h)"

definition update_indexer_state :: "block_hash \<Rightarrow> Lrc20Db \<Rightarrow> DbErr + Lrc20Db" where
  "update_indexer_state h db =
     rbind (ok_or (last_block_hash db) RecordNotFound) (\<lambda>_. Inr (db\<lparr>last_block_hash := Some (Some h)\<rparr>))"

section \<open>Lemmas: upserts\<close>

lemma find_update_first:
  assumes "\<And>x. key (m x) = key x"
  shows "find (\<lambda>x. key x = k) (update_first (\<lambda>x. key x = k') m rs) =
    (if k = k' then map_option m (find (\<lambda>x. key x = k) rs) else find (\<lambda>x. key x = k) rs)"
  by (induction rs) (auto simp: assms)

lemma find_upsert:
  assumes "\<And>x. key (merge r x) = key x"
  shows "find (\<lambda>x. key x = k) (upsert key merge r rs) =
    (if k = key r then Some (case find (\<lambda>x. key x = k) rs of None \<Rightarrow> r | Some x \<Rightarrow> merge r x)
     else find (\<lambda>x. key x = k) rs)"
proof (cases "list_ex (\<lambda>x. key x = key r) rs")
  case True
  then obtain x where "find (\<lambda>x. key x = key r) rs = Some x"
    by (cases "find (\<lambda>x. key x = key r) rs") (auto simp: find_None_iff list_ex_iff)
  with True show ?thesis
    by (simp add: upsert_def find_update_first [of key "merge r"] assms)
next
  case False
  then have "find (\<lambda>x. key x = key r) rs = None"
    by (auto simp: find_None_iff list_ex_iff)
  moreover have "find P (rs @ [r]) = (case find P rs of None \<Rightarrow> if P r then Some r else None | Some x \<Rightarrow> Some x)" for P
    by (induction rs) simp_all
  ultimately show ?thesis
    using False by (simp add: upsert_def split: option.split)
qed

lemma map_update_first_key:
  "(\<And>x. key (m x) = key x) \<Longrightarrow> map key (update_first P m rs) = map key rs"
  by (induction rs) simp_all

lemma distinct_upsert:
  assumes "\<And>x. key (merge r x) = key x" and "distinct (map key rs)"
  shows "distinct (map key (upsert key merge r rs))"
  using assms by (auto simp: upsert_def map_update_first_key list_ex_iff)

lemma keys_upsert:
  assumes "\<And>x. key (merge r x) = key x"
  shows "key ` set (upsert key merge r rs) = insert (key r) (key ` set rs)"
proof -
  have "set (map key (update_first P (merge r) rs)) = key ` set rs" for P
    by (simp only: map_update_first_key [of key "merge r", OF assms] set_map)
  then show ?thesis
    by (auto simp: upsert_def list_ex_iff insert_absorb) (metis imageI)
qed

section \<open>Reading back a transaction\<close>

definition readable :: "lib \<Rightarrow> wire \<Rightarrow> Lrc20Transaction \<Rightarrow> bool" where
  "readable L W tx = (case Lrc20Transaction_encode L W tx of
     Inl _ \<Rightarrow> False
   | Inr bs \<Rightarrow> (case Lrc20Transaction_decode L W bs of Inl _ \<Rightarrow> False | Inr (t, _) \<Rightarrow> t = tx))"

lemma wf_readable:
  assumes "lawful_wire W" "tx_reads_back W (bitcoin_tx tx)" "wf_tx_type L (tx_type tx)"
  shows "readable L W tx"
proof -
  obtain bs where "Lrc20Transaction_encode L W tx = Inr bs"
      "\<And>rest. Lrc20Transaction_decode L W (bs @ rest) = Inr (tx, rest)"
    using Lrc20Transaction_reads_back [OF assms] by (auto simp: reads_back_def)
  from this(1) this(2) [of "[]"] show ?thesis
    by (simp add: readable_def)
qed

definition lrc20_db_ok :: "Lrc20Db \<Rightarrow> bool" where
  "lrc20_db_ok db = distinct (map l1_txid (l1_transactions db))"

lemma insert_lrc20_transaction_row:
  assumes "insert_lrc20_transaction L W now tx db = Inr db'"
  obtains bs where "Lrc20Transaction_encode L W tx = Inr bs"
    "l1_transactions db' = upsert l1_txid (\<lambda>n x. x\<lparr>raw_tx := raw_tx n, l1_status := l1_status n\<rparr>)
       \<lparr>l1_id = next_l1_id db, l1_txid = tx_txid L (bitcoin_tx tx), raw_tx = bs, l1_timestamp = now,
        l1_status = Handling, l1_tx_type = L1TxType_from (tx_type tx)\<rparr> (l1_transactions db)"
    "mempool_transactions db' = mempool_transactions db"
proof -
  obtain db1 db2 where d: "insert_l1_row L W now tx db = Inr db1" "insert_proofs L tx db1 = Inr db2"
      "insert_announcement (tx_txid L (bitcoin_tx tx)) (tx_type tx) db2 = Inr db'"
    using assms by (auto simp: insert_lrc20_transaction_def rbind_Inr_iff)
  have "l1_transactions db2 = l1_transactions db1 \<and> mempool_transactions db2 = mempool_transactions db1"
    using d(2) by (auto simp: insert_proofs_def rbind_Inr_iff Let_def)
  moreover have "l1_transactions db' = l1_transactions db2 \<and> mempool_transactions db' = mempool_transactions db2"
    using d(3) by (auto simp: insert_announcement_def rbind_Inr_iff Let_def split: option.splits)
  ultimately show thesis
    using d(1) that by (auto simp: insert_l1_row_def create_lrc20_transaction_model_def rbind_Inr_iff)
qed

lemma from_model_readable:
  assumes "readable L W tx" and "Lrc20Transaction_encode L W tx = Inr (raw_tx r)"
  shows "lrc20_transaction_from_model L W r = Inr tx"
  using assms by (auto simp: readable_def lrc20_transaction_from_model_def split: sum.splits)

lemma insert_lrc20_transaction_get:
  assumes ok: "lrc20_db_ok db" and fits: "readable L W tx" and ins: "insert_lrc20_transaction L W now tx db = Inr db'"
  shows "lrc20_db_ok db' \<and> get_lrc20_transaction_by_id L W db' =
    (get_lrc20_transaction_by_id L W db)(tx_txid L (bitcoin_tx tx) := Inr (Some tx))"
proof -
  let ?m = "\<lambda>n x :: l1_transaction_row. x\<lparr>raw_tx := raw_tx n, l1_status := l1_status n\<rparr>"
  obtain bs where bs: "Lrc20Transaction_encode L W tx = Inr bs"
    "l1_transactions db' = upsert l1_txid ?m
       \<lparr>l1_id = next_l1_id db, l1_txid = tx_txid L (bitcoin_tx tx), raw_tx = bs, l1_timestamp = now,
        l1_status = Handling, l1_tx_type = L1TxType_from (tx_type tx)\<rparr> (l1_transactions db)"
    by (rule insert_lrc20_transaction_row [OF ins])
  have "lrc20_db_ok db'"
    using ok by (simp add: lrc20_db_ok_def bs(2) distinct_upsert)
  moreover have "get_lrc20_transaction_by_id L W db' t =
      ((get_lrc20_transaction_by_id L W db)(tx_txid L (bitcoin_tx tx) := Inr (Some tx))) t" for t
    using from_model_readable [OF fits] bs(1)
    by (auto simp: get_lrc20_transaction_by_id_def bs(2) find_upsert split: option.splits Lrc20TxType.splits)
  ultimately show ?thesis
    by (simp add: fun_eq_iff)
qed

interpretation lrc20_store: keyed_store lrc20_db_ok "get_lrc20_transaction_by_id L W"
  "\<lambda>(now, tx). insert_lrc20_transaction L W now tx" "\<lambda>(now, tx). tx_txid L (bitcoin_tx tx)"
  "\<lambda>(now, tx). Inr (Some tx)" "\<lambda>_ (now, tx). readable L W tx" for L W
proof
  fix db x db'
  assume "lrc20_db_ok db" "case x of (now, tx) \<Rightarrow> readable L W tx"
    "(case x of (now, tx) \<Rightarrow> insert_lrc20_transaction L W now tx) db = Inr db'"
  then show "lrc20_db_ok db' \<and> get_lrc20_transaction_by_id L W db' =
      (get_lrc20_transaction_by_id L W db)((case x of (now, tx) \<Rightarrow> tx_txid L (bitcoin_tx tx)) :=
        (case x of (now, tx) \<Rightarrow> Inr (Some tx)))"
    by (cases x) (simp add: insert_lrc20_transaction_get)
qed

section \<open>Issues without proofs\<close>

text \<open>The row of an issue refers to a row that is only written when there is a proof to take the
  token from.\<close>

lemma issue_without_proofs_rejected:
  assumes "tx_type tx = Issue ps a" and "ps = None \<or> ps = Some []"
    and "Lrc20Transaction_encode L W tx = Inr bs"
    and "\<not> list_ex (\<lambda>r. an_txid r = tx_txid L (bitcoin_tx tx)) (announcements (announcement_tables db))"
  shows "insert_lrc20_transaction L W now tx db = Inl (Fails ConstraintViolated)"
  using assms
  by (auto simp: insert_lrc20_transaction_def insert_l1_row_def insert_proofs_def insert_announcement_def
      create_lrc20_transaction_model_def stored_proofs_def create_proof_models_def stored_announcement_def
      insert_announcement_model_def model_txid_def create_issue_announcement_model_def require_def)

section \<open>Freezes\<close>

lemma find_toggle:
  "find (\<lambda>r. pr_txid r = t' \<and> pr_vout r = v')
     (update_first (\<lambda>r. pr_txid r = t \<and> pr_vout r = v) (\<lambda>r. r\<lparr>pr_is_frozen := \<not> pr_is_frozen r\<rparr>) rs) =
   (if t' = t \<and> v' = v then map_option (\<lambda>r. r\<lparr>pr_is_frozen := \<not> pr_is_frozen r\<rparr>)
      (find (\<lambda>r. pr_txid r = t' \<and> pr_vout r = v') rs)
    else find (\<lambda>r. pr_txid r = t' \<and> pr_vout r = v') rs)"
  by (induction rs) auto

lemma toggle_twice [simp]: "is_proof_frozen (toggle_proof_freeze t v (toggle_proof_freeze t v db)) t' v' = is_proof_frozen db t' v'"
  by (auto simp: is_proof_frozen_def toggle_proof_freeze_def Let_def find_toggle split: option.split)


section \<open>Properties\<close>

lemma stores_foldM:
  "(\<And>d x. x \<in> set xs \<Longrightarrow> fits d x) \<Longrightarrow> foldM (\<lambda>d x. put x d) db xs = Inr db' \<Longrightarrow> stores fits put db xs db'"
  by (induction xs arbitrary: db) (auto simp: rbind_Inr_iff)


definition Lrc20Db_empty :: Lrc20Db where
  "Lrc20Db_empty = \<lparr>next_l1_id = 0, l1_transactions = [],
     proof_tables = \<lparr>db_proofs = [], db_tokens = [], inner_keys = [], p2wsh_proofs = [], multisig_proofs = [],
       lightning_commitment_proofs = [], lightning_htlc_proofs = [], spark_exit_proofs = []\<rparr>,
     announcement_tables = \<lparr>announcements = [], token_pubkey_announcements = [], token_logo_announcements = [],
       tx_freeze_announcements = [], pubkey_freeze_announcements = [], issue_announcements = [],
       transfer_ownership_announcements = []\<rparr>,
     mempool_transactions = [], last_block_hash = None\<rparr>"

lemma lrc20_db_ok_empty: "lrc20_db_ok Lrc20Db_empty"
  by (simp add: lrc20_db_ok_def Lrc20Db_empty_def)


end
