(* ===== verification/Effects.thy ===== *)
theory Effects
  imports Prelude
begin

text \<open>
  Programs with a state and errors, for the services whose handlers change the storage and
  send messages before they fail: a program returns a value or an error and the state it
  left behind in both cases. The loops are those of the source: one that runs through, one
  that stops at the first result and one that stops at the first false.
\<close>

type_synonym ('s, 'e, 'a) prog = "'s \<Rightarrow> ('e + 'a) \<times> 's"

definition ret :: "'a \<Rightarrow> ('s, 'e, 'a) prog" where
  "ret x s = (Inr x, s)"

definition throw :: "'e \<Rightarrow> ('s, 'e, 'a) prog" where
  "throw e s = (Inl e, s)"

definition sbind :: "('s, 'e, 'a) prog \<Rightarrow> ('a \<Rightarrow> ('s, 'e, 'b) prog) \<Rightarrow> ('s, 'e, 'b) prog" where
  "sbind m k s = (case m s of (Inl e, s') \<Rightarrow> (Inl e, s') | (Inr x, s') \<Rightarrow> k x s')"

definition query :: "('s \<Rightarrow> 'e + 'a) \<Rightarrow> ('s, 'e, 'a) prog" where
  "query f s = (f s, s)"

definition modify :: "('s \<Rightarrow> 's) \<Rightarrow> ('s, 'e, unit) prog" where
  "modify f s = (Inr (), f s)"

definition update_or :: "('s \<Rightarrow> 'e + 's) \<Rightarrow> ('s, 'e, unit) prog" where
  "update_or f s = (case f s of Inl e \<Rightarrow> (Inl e, s) | Inr s' \<Rightarrow> (Inr (), s'))"

primrec sfor :: "('a \<Rightarrow> ('s, 'e, unit) prog) \<Rightarrow> 'a list \<Rightarrow> ('s, 'e, unit) prog" where
  "sfor f [] = ret ()"
| "sfor f (x # xs) = sbind (f x) (\<lambda>_. sfor f xs)"

primrec sfold :: "('b \<Rightarrow> 'a \<Rightarrow> ('s, 'e, 'b) prog) \<Rightarrow> 'b \<Rightarrow> 'a list \<Rightarrow> ('s, 'e, 'b) prog" where
  "sfold f b [] = ret b"
| "sfold f b (x # xs) = sbind (f b x) (\<lambda>b'. sfold f b' xs)"

primrec sfirst :: "('a \<Rightarrow> ('s, 'e, 'b option) prog) \<Rightarrow> 'a list \<Rightarrow> ('s, 'e, 'b option) prog" where
  "sfirst f [] = ret None"
| "sfirst f (x # xs) = sbind (f x) (\<lambda>r. case r of None \<Rightarrow> sfirst f xs | Some y \<Rightarrow> ret (Some y))"

primrec sall :: "('a \<Rightarrow> ('s, 'e, bool) prog) \<Rightarrow> 'a list \<Rightarrow> ('s, 'e, bool) prog" where
  "sall f [] = ret True"
| "sall f (x # xs) = sbind (f x) (\<lambda>b. if b then sall f xs else ret False)"

named_theorems run_simps \<open>rules that run a program on a state\<close>

lemma run_ret [simp, run_simps]: "ret x s = (Inr x, s)"
  by (simp add: ret_def)

lemma run_throw [simp, run_simps]: "throw e s = (Inl e, s)"
  by (simp add: throw_def)

lemma run_query [simp, run_simps]: "query f s = (f s, s)"
  by (simp add: query_def)

lemma run_modify [simp, run_simps]: "modify f s = (Inr (), f s)"
  by (simp add: modify_def)

lemma run_bind_Inr [simp, run_simps]: "m s = (Inr x, s') \<Longrightarrow> sbind m k s = k x s'"
  by (simp add: sbind_def)

lemma run_bind_Inl [simp, run_simps]: "m s = (Inl e, s') \<Longrightarrow> sbind m k s = (Inl e, s')"
  by (simp add: sbind_def)

lemma run_bind_ret [simp]: "sbind (ret x) k = k x"
  by (simp add: fun_eq_iff)

lemma run_bind_query: "sbind (query f) k s = (case f s of Inl e \<Rightarrow> (Inl e, s) | Inr x \<Rightarrow> k x s)"
  by (simp add: sbind_def split: sum.split)

lemma run_bind_modify [simp]: "sbind (modify f) k s = k () (f s)"
  by simp

lemma sbind_Inr_iff:
  "sbind m k s = (Inr y, t) \<longleftrightarrow> (\<exists>x s'. m s = (Inr x, s') \<and> k x s' = (Inr y, t))"
  by (auto simp: sbind_def split: prod.splits sum.splits)

lemma update_or_Inr_iff: "update_or f s = (Inr u, t) \<longleftrightarrow> f s = Inr t"
  by (auto simp: update_or_def split: sum.splits)

lemma query_Inr_iff: "query f s = (Inr x, t) \<longleftrightarrow> f s = Inr x \<and> t = s"
  by auto

lemma modify_Inr_iff: "modify f s = (Inr u, t) \<longleftrightarrow> t = f s"
  by auto

lemmas prog_simps = sbind_Inr_iff update_or_Inr_iff

text \<open>What a program keeps on every outcome, errors included, a compound program keeps.\<close>

definition keeps :: "('s \<Rightarrow> bool) \<Rightarrow> ('s, 'e, 'a) prog \<Rightarrow> bool" where
  "keeps P m \<longleftrightarrow> (\<forall>s. P s \<longrightarrow> P (snd (m s)))"

named_theorems keeps_intros \<open>rules that decompose what a program keeps\<close>

lemma keepsD: "keeps P m \<Longrightarrow> P s \<Longrightarrow> P (snd (m s))"
  by (simp add: keeps_def)

lemma keeps_ret [keeps_intros]: "keeps P (ret x)"
  by (simp add: keeps_def)

lemma keeps_throw [keeps_intros]: "keeps P (throw e)"
  by (simp add: keeps_def)

lemma keeps_query [keeps_intros]: "keeps P (query f)"
  by (simp add: keeps_def)

lemma keeps_modify: "(\<And>s. P s \<Longrightarrow> P (f s)) \<Longrightarrow> keeps P (modify f)"
  by (simp add: keeps_def)

lemma keeps_update_or: "(\<And>s s'. P s \<Longrightarrow> f s = Inr s' \<Longrightarrow> P s') \<Longrightarrow> keeps P (update_or f)"
  by (simp add: keeps_def update_or_def split: sum.split)

lemma keeps_bind [keeps_intros]: "keeps P m \<Longrightarrow> (\<And>x. keeps P (k x)) \<Longrightarrow> keeps P (sbind m k)"
  by (auto simp: keeps_def sbind_def split: prod.splits sum.splits)

lemma keeps_if [keeps_intros]: "keeps P a \<Longrightarrow> keeps P b \<Longrightarrow> keeps P (if c then a else b)"
  by simp

lemma keeps_option [keeps_intros]:
  "keeps P a \<Longrightarrow> (\<And>x. keeps P (f x)) \<Longrightarrow> keeps P (case z of None \<Rightarrow> a | Some x \<Rightarrow> f x)"
  by (simp split: option.split)

lemma keeps_prod [keeps_intros]: "(\<And>x y. keeps P (f x y)) \<Longrightarrow> keeps P (case z of (x, y) \<Rightarrow> f x y)"
  by (simp split: prod.split)

lemma keeps_Let [keeps_intros]: "(\<And>x. keeps P (f x)) \<Longrightarrow> keeps P (let x = e in f x)"
  by simp

lemma keeps_sfor [keeps_intros]: "(\<And>x. keeps P (f x)) \<Longrightarrow> keeps P (sfor f xs)"
  by (induction xs) (auto intro: keeps_intros)

lemma keeps_sfold [keeps_intros]: "(\<And>b x. keeps P (f b x)) \<Longrightarrow> keeps P (sfold f b xs)"
  by (induction xs arbitrary: b) (auto intro: keeps_intros)

lemma keeps_sfirst [keeps_intros]: "(\<And>x. keeps P (f x)) \<Longrightarrow> keeps P (sfirst f xs)"
  by (induction xs) (auto intro: keeps_intros)

lemma keeps_sall [keeps_intros]: "(\<And>x. keeps P (f x)) \<Longrightarrow> keeps P (sall f xs)"
  by (induction xs) (auto intro: keeps_intros)

lemma sall_True_iff:
  assumes "\<And>x s. x \<in> set xs \<Longrightarrow> snd (f x s) = s"
  shows "sall f xs s = (Inr True, t) \<longleftrightarrow> t = s \<and> (\<forall>x \<in> set xs. fst (f x s) = Inr True)"
  using assms
proof (induction xs)
  case (Cons x xs)
  obtain r where "f x s = (r, s)"
    using Cons.prems [of x s] by (cases "f x s") auto
  with Cons show ?case
    by (cases r) (auto simp: sbind_def)
qed auto

end
