(* ===== verification/Tx_Checker.thy ===== *)
theory Tx_Checker
  imports Isolated_Checks Lrc20_Storage Effects
begin

text \<open>
  The service that checks transactions against the storage (crates/tx-check/src/service.rs):
  its state, the handlers of every message and the checks of every kind of transaction. A
  handler is a program over the state, which an error leaves as it is. The Bitcoin node and the update
  of a row without a primary key by the object-relational mapper are arguments, the clock is
  an argument of a handler, and what a handler sends is appended to a list. Maps with an
  unspecified order of iteration are association lists.
\<close>

section \<open>State\<close>

datatype SparkChild = TokenTx TokenTransaction | ExitTx Lrc20Transaction

datatype checker_event =
    ToController ControllerMessage
  | ToChecker TxCheckerMessage
  | Callback channel bool

record TxChecker =
  lrc20_db :: Lrc20Db
  spark_db :: SparkDb
  spark_queue :: "(SparkHash, SparkChild \<times> nat) hmap"
  validate_announcement :: bool
  tx_outdated_duration :: nat
  sent :: "checker_event list"

datatype checker_error =
    StorageError DbErr
  | OwnerError owner_error
  | CheckFailed CheckError
  | NodeUnavailable
  | ClockWentBack

text \<open>What the Bitcoin node answers: the transaction of an id, the hash of its block when it has
  one, and the header of a block.\<close>

record checker_node =
  get_raw_transaction :: "txid \<Rightarrow> unit + Transaction"
  get_raw_transaction_info :: "txid \<Rightarrow> unit + block_hash option"
  get_block_header_info :: "block_hash \<Rightarrow> unit + block_hash"
  get_tx_out :: node_tx_out

text \<open>The columns that an update of an output sets: the primary key, the identifier and the flag.\<close>

record output_update =
  upd_id :: "nat option"
  upd_spark_id :: "bytes option"
  upd_is_frozen :: "bool option option"

record checker_env =
  the_lib :: lib
  the_wire :: wire
  node :: checker_node
  orm_update :: "output_update \<Rightarrow> SparkDb \<Rightarrow> DbErr + SparkDb"
  clock :: nat

type_synonym 'a checker = "(TxChecker, checker_error fault, 'a) prog"

definition TxChecker_new :: "Lrc20Db \<Rightarrow> SparkDb \<Rightarrow> bool \<Rightarrow> nat \<Rightarrow> TxChecker" where
  "TxChecker_new db sdb validate outdated =
     \<lparr>lrc20_db = db, spark_db = sdb, spark_queue = [], validate_announcement = validate,
      tx_outdated_duration = outdated, sent = []\<rparr>"

definition send :: "checker_event \<Rightarrow> 'a checker \<Rightarrow> 'a checker" where
  "send e m = sbind (modify (\<lambda>s. s\<lparr>sent := sent s @ [e]\<rparr>)) (\<lambda>_. m)"

definition storage :: "(TxChecker \<Rightarrow> DbErr + 'a) \<Rightarrow> 'a checker" where
  "storage f = query (\<lambda>s. may_fail (map_err StorageError (f s)))"

definition storage_fault :: "(TxChecker \<Rightarrow> DbErr fault + 'a) \<Rightarrow> 'a checker" where
  "storage_fault f = query (\<lambda>s. err_into StorageError (f s))"

definition token_info :: "checker_env \<Rightarrow> TokenPubkey \<Rightarrow> TokenPubkeyInfo option checker" where
  "token_info E token = storage_fault (\<lambda>s. get_token_pubkey_info (the_lib E) (lrc20_db s) token)"

definition spark_tx :: "checker_env \<Rightarrow> SparkHash \<Rightarrow> TokenTransaction option checker" where
  "spark_tx E h = storage_fault (\<lambda>s. get_spark_tx_with_outputs (the_lib E) (spark_db s) h)"

definition lrc20_tx_by_id :: "checker_env \<Rightarrow> txid \<Rightarrow> Lrc20Transaction option checker" where
  "lrc20_tx_by_id E t = storage (\<lambda>s. get_lrc20_transaction_by_id (the_lib E) (the_wire E) (lrc20_db s) t)"

definition enqueue_child :: "checker_env \<Rightarrow> SparkHash \<Rightarrow> SparkChild \<Rightarrow> unit checker" where
  "enqueue_child E h c = modify (\<lambda>s. s\<lparr>spark_queue := hinsert h (c, clock E) (spark_queue s)\<rparr>)"

section \<open>Conservation and finalisation\<close>

primrec leaf_sums :: "(TokenPubkey \<Rightarrow> u128 option) \<Rightarrow> TokenLeafOutput list \<Rightarrow> (TokenPubkey \<Rightarrow> u128 option) option" where
  "leaf_sums m [] = Some m"
| "leaf_sums m (l # ls) =
     (let r = leaf_receipt l; t = token_pubkey r; old = (case m t of None \<Rightarrow> 0 | Some a \<Rightarrow> a) in
      case checked_add old (amount (token_amount r)) of
        None \<Rightarrow> None
      | Some a \<Rightarrow> leaf_sums (m(t \<mapsto> a)) ls)"

definition sum_leaves_by_token_pubkey :: "TokenLeafOutput list \<Rightarrow> (TokenPubkey \<Rightarrow> u128 option) option" where
  "sum_leaves_by_token_pubkey leaves = leaf_sums (\<lambda>_. None) leaves"

definition check_spark_conservation_rules :: "TokenLeafOutput list \<Rightarrow> TokenLeafOutput list \<Rightarrow> bool" where
  "check_spark_conservation_rules spent created \<longleftrightarrow>
     sum_leaves_by_token_pubkey spent = sum_leaves_by_token_pubkey created"

definition check_spark_tx_finalization ::
  "nat \<Rightarrow> SparkSignatureData list \<Rightarrow> SparkSignatureLeafData list \<Rightarrow> TokenTransactionStatus" where
  "check_spark_tx_finalization tx_leaf_count signatures signature_leaf_data =
     (let operator_signatures_count = card (operator_pubkey ` set signatures) in
      if tx_leaf_count = 0 then (if SPARK_THRESHOLD \<le> operator_signatures_count then Finalized else Started)
      else if operator_signatures_count < SPARK_THRESHOLD then Started
      else if tx_leaf_count \<le> card (secret_bytes ` set (List.map_filter revocation_secret signature_leaf_data))
      then Finalized else Signed)"

section \<open>Announcements\<close>

definition find_owner :: "checker_env \<Rightarrow> TxIn list \<Rightarrow> TokenPubkey \<Rightarrow> TxIn option checker" where
  "find_owner E inputs token =
     sbind (token_info E token) (\<lambda>info.
     query (\<lambda>_. err_into OwnerError (find_owner_in_txinputs (the_lib E) (get_tx_out (node E)) inputs token
       (case info of None \<Rightarrow> None | Some i \<Rightarrow> info_owner i))))"

definition check_token_pubkey_announcement ::
  "checker_env \<Rightarrow> Lrc20Transaction \<Rightarrow> TokenPubkeyAnnouncement \<Rightarrow> bool checker" where
  "check_token_pubkey_announcement E tx a =
     sbind (find_owner E (tx_input (bitcoin_tx tx)) (tpa_token_pubkey a)) (\<lambda>owner_input.
     if owner_input = None then ret False
     else sbind (token_info E (tpa_token_pubkey a)) (\<lambda>info.
       case info of
         None \<Rightarrow> ret True
       | Some i \<Rightarrow>
           if info_announcement i \<noteq> None then ret False
           else if tpa_max_supply a \<noteq> 0 \<and> tpa_max_supply a < info_total_supply i then ret False
           else ret True))"

definition check_token_logo_announcement ::
  "checker_env \<Rightarrow> Lrc20Transaction \<Rightarrow> TokenLogoAnnouncement \<Rightarrow> bool checker" where
  "check_token_logo_announcement E tx a =
     sbind (find_owner E (tx_input (bitcoin_tx tx)) (logo_token_pubkey a)) (\<lambda>owner_input.
     if owner_input = None then ret False
     else sbind (token_info E (logo_token_pubkey a)) (\<lambda>info.
       case info of
         None \<Rightarrow> ret False
       | Some i \<Rightarrow> ret (info_announcement i \<noteq> None)))"

definition allows_freezes :: "TokenPubkeyInfo option \<Rightarrow> bool" where
  "allows_freezes info =
     (case info of None \<Rightarrow> True | Some i \<Rightarrow>
        (case info_announcement i of None \<Rightarrow> True | Some a \<Rightarrow> tpa_is_freezable a))"

definition check_tx_freeze_announcement ::
  "checker_env \<Rightarrow> Lrc20Transaction \<Rightarrow> TxFreezeAnnouncement \<Rightarrow> bool checker" where
  "check_tx_freeze_announcement E tx a =
     sbind (token_info E (txf_token_pubkey a)) (\<lambda>info.
     if \<not> allows_freezes info then ret False
     else sbind (find_owner E (tx_input (bitcoin_tx tx)) (txf_token_pubkey a)) (\<lambda>owner_input.
       if owner_input = None then ret False
       else sbind (modify (\<lambda>s. s\<lparr>lrc20_db := toggle_proof_freeze (op_txid (txf_outpoint a)) (op_vout (txf_outpoint a))
                (lrc20_db s)\<rparr>)) (\<lambda>_.
         ret True)))"

definition check_pubkey_freeze_announcement ::
  "checker_env \<Rightarrow> Lrc20Transaction \<Rightarrow> PubkeyFreezeAnnouncement \<Rightarrow> bool checker" where
  "check_pubkey_freeze_announcement E tx a =
     sbind (token_info E (pkf_token_pubkey a)) (\<lambda>info.
     if \<not> allows_freezes info then ret False
     else sbind (find_owner E (tx_input (bitcoin_tx tx)) (pkf_token_pubkey a)) (\<lambda>owner_input.
       ret (owner_input \<noteq> None)))"

text \<open>The sum of the supply and the issued amount wraps around.\<close>

definition check_issue_announcement ::
  "checker_env \<Rightarrow> Lrc20Transaction \<Rightarrow> IssueAnnouncement \<Rightarrow> bool checker" where
  "check_issue_announcement E tx a =
     sbind (lrc20_tx_by_id E (tx_txid (the_lib E) (bitcoin_tx tx))) (\<lambda>existing.
     if existing \<noteq> None then ret True
     else sbind (find_owner E (tx_input (bitcoin_tx tx)) (issue_token_pubkey a)) (\<lambda>owner_input.
       if owner_input = None then ret False
       else sbind (token_info E (issue_token_pubkey a)) (\<lambda>info.
         case info of
           None \<Rightarrow> ret True
         | Some i \<Rightarrow>
             (case info_announcement i of
                None \<Rightarrow> ret True
              | Some tpa \<Rightarrow>
                  let new_total_supply = info_total_supply i + issue_amount a in
                  ret (\<not> (tpa_max_supply tpa \<noteq> 0 \<and> tpa_max_supply tpa < new_total_supply))))))"

definition check_transfer_ownership_announcement ::
  "checker_env \<Rightarrow> Lrc20Transaction \<Rightarrow> TransferOwnershipAnnouncement \<Rightarrow> bool checker" where
  "check_transfer_ownership_announcement E tx a =
     sbind (find_owner E (tx_input (bitcoin_tx tx)) (to_token_pubkey a)) (\<lambda>owner_input.
     ret (owner_input \<noteq> None))"

fun check_announcements :: "checker_env \<Rightarrow> Lrc20Transaction \<Rightarrow> Announcement \<Rightarrow> bool checker" where
  "check_announcements E tx (TokenPubkeyA a) = check_token_pubkey_announcement E tx a"
| "check_announcements E tx (TokenLogoA a) = check_token_logo_announcement E tx a"
| "check_announcements E tx (TxFreezeA a) = check_tx_freeze_announcement E tx a"
| "check_announcements E tx (PubkeyFreezeA a) = check_pubkey_freeze_announcement E tx a"
| "check_announcements E tx (IssueA a) = check_issue_announcement E tx a"
| "check_announcements E tx (TransferOwnershipA a) = check_transfer_ownership_announcement E tx a"

section \<open>Issues and transfers\<close>

definition check_issuance :: "checker_env \<Rightarrow> Lrc20Transaction \<Rightarrow> IssueAnnouncement \<Rightarrow> bool checker" where
  "check_issuance E tx a =
     sbind (check_issue_announcement E tx a) (\<lambda>b.
     if \<not> b then ret False
     else sbind (update_or (\<lambda>s. rbind (err_into StorageError
              (insert_lrc20_transaction (the_lib E) (the_wire E) (int (clock E)) tx (lrc20_db s)))
              (\<lambda>db. Inr (s\<lparr>lrc20_db := db\<rparr>)))) (\<lambda>_.
       ret True))"

definition is_output_frozen :: "checker_env \<Rightarrow> OutPoint \<Rightarrow> ReceiptProof \<Rightarrow> bool checker" where
  "is_output_frozen E point p =
     sbind (token_info E (token_pubkey (receipt p))) (\<lambda>info.
     if \<not> allows_freezes info then ret False
     else storage (\<lambda>s. Inr (is_proof_frozen (lrc20_db s) (op_txid point) (op_vout point))))"

definition is_sender_frozen :: "checker_env \<Rightarrow> ReceiptProof \<Rightarrow> PublicKey option checker" where
  "is_sender_frozen E p =
     sbind (token_info E (token_pubkey (receipt p))) (\<lambda>info.
     if \<not> allows_freezes info then ret None
     else storage (\<lambda>s. Inr (find (\<lambda>k. is_pubkey_frozen (lrc20_db s) k (pubkey (token_pubkey (receipt p)))) (spender_keys p))))"

definition is_p2tr_proof_valid :: "checker_env \<Rightarrow> TaprootProof \<Rightarrow> OutPoint \<Rightarrow> bool" where
  "is_p2tr_proof_valid E p parent =
     (case get_raw_transaction (node E) (op_txid parent) of
        Inl _ \<Rightarrow> False
      | Inr prev_tx \<Rightarrow>
          unat (op_vout parent) < length (tx_output prev_tx)
          \<and> is_ok (check_p2tr_proof (the_lib E) (script_pubkey (tx_output prev_tx ! unat (op_vout parent))) p))"

text \<open>One input of a transfer: the result says whether the loop goes on, and the parents that
  nobody knows are collected for the peer that sent the transaction.\<close>

definition add_parent :: "SocketAddr option \<Rightarrow> 'k \<Rightarrow> (SocketAddr, 'k list) hmap \<Rightarrow> (SocketAddr, 'k list) hmap" where
  "add_parent sender t parents =
     (case sender of None \<Rightarrow> parents | Some a \<Rightarrow> hinsert a (hget_or parents a [] @ [t]) parents)"

definition check_transfer_input ::
  "checker_env \<Rightarrow> Lrc20Transaction \<Rightarrow> SocketAddr option \<Rightarrow> (txid, Lrc20Transaction) btree_map \<Rightarrow>
     (SocketAddr, txid list) hmap \<Rightarrow> u32 \<times> ReceiptProof \<Rightarrow> (bool \<times> (SocketAddr, txid list) hmap) checker" where
  "check_transfer_input E tx sender checked parents = (\<lambda>(i, p).
     if length (tx_input (bitcoin_tx tx)) \<le> unat i then throw (Fails (CheckFailed InputNotFound))
     else
       let parent = previous_output (tx_input (bitcoin_tx tx) ! unat i) in
       sbind (is_output_frozen E parent p) (\<lambda>frozen.
       if frozen then ret (False, parents)
       else sbind (is_sender_frozen E p) (\<lambda>key.
         if key \<noteq> None then ret (False, parents)
         else if (case p of P2TR tp \<Rightarrow> \<not> is_p2tr_proof_valid E tp parent | _ \<Rightarrow> False) then ret (False, parents)
         else sbind (lrc20_tx_by_id E (op_txid parent)) (\<lambda>stored.
           ret (True, if stored = None \<and> \<not> hcontains checked (op_txid parent)
                      then add_parent sender (op_txid parent) parents else parents)))))"

primrec check_transfer ::
  "checker_env \<Rightarrow> Lrc20Transaction \<Rightarrow> SocketAddr option \<Rightarrow> (txid, Lrc20Transaction) btree_map \<Rightarrow>
     (SocketAddr, txid list) hmap \<Rightarrow> ProofMap \<Rightarrow> (bool \<times> (SocketAddr, txid list) hmap) checker" where
  "check_transfer E tx sender checked parents [] = ret (True, parents)"
| "check_transfer E tx sender checked parents (ip # ps) =
     sbind (check_transfer_input E tx sender checked parents ip) (\<lambda>(b, parents').
     if b then check_transfer E tx sender checked parents' ps else ret (False, parents'))"

section \<open>Spark exits\<close>

text \<open>One proof of an exit: None goes on with the next, otherwise the pair says whether the exit is
  valid and whether it waits for its token transaction.\<close>

definition check_exit_leaf ::
  "checker_env \<Rightarrow> Lrc20Transaction \<Rightarrow> block_hash \<Rightarrow> u32 \<Rightarrow> ReceiptProof \<Rightarrow> SparkExitProof \<Rightarrow> TokenLeafOutput \<Rightarrow>
     (bool \<times> bool) option checker" where
  "check_exit_leaf E tx block i p ep leaf =
     (if (case is_frozen leaf of None \<Rightarrow> False | Some b \<Rightarrow> b) \<or> withdraw_txid leaf \<noteq> None then ret (Some (False, False))
      else if leaf_receipt leaf \<noteq> receipt p then ret (Some (False, False))
      else if revocation_public_key leaf \<noteq> revocation_key (exit_script ep) then ret (Some (False, False))
      else if owner_public_key leaf \<noteq> delay_key (exit_script ep) then ret (Some (False, False))
      else (\<lambda>s. case mark_spark_output_as_withdrawn (leaf_id leaf) (tx_txid (the_lib E) (bitcoin_tx tx)) i block (spark_db s) of
          Inl _ \<Rightarrow> (Inr (Some (False, False)), s)
        | Inr db \<Rightarrow> (Inr None, s\<lparr>spark_db := db\<rparr>)))"

definition check_exit_proof ::
  "checker_env \<Rightarrow> Lrc20Transaction \<Rightarrow> block_hash \<Rightarrow> u32 \<times> ReceiptProof \<Rightarrow> (bool \<times> bool) option checker" where
  "check_exit_proof E tx block = (\<lambda>(i, p).
     case p of
       EmptyReceipt _ \<Rightarrow> ret None
     | SparkExit ep \<Rightarrow>
         (case exit_metadata ep of
            None \<Rightarrow> ret (Some (False, False))
          | Some m \<Rightarrow>
              (case json_to_exit_metadata (the_lib E) m of
                 None \<Rightarrow> ret (Some (False, False))
               | Some (h, leaf_index) \<Rightarrow>
                   sbind (storage (\<lambda>s. Inr (get_spark_output_model (spark_db s) (hash_to_string (the_lib E) h)))) (\<lambda>spent.
                   if spent \<noteq> None then ret (Some (False, False))
                   else sbind (spark_tx E h) (\<lambda>token_tx.
                     case token_tx of
                       None \<Rightarrow> sbind (enqueue_child E h (ExitTx tx)) (\<lambda>_. ret (Some (False, True)))
                     | Some ttx \<Rightarrow>
                         sbind (storage (\<lambda>s. Inr (get_token_transaction_status (spark_db s) h))) (\<lambda>status.
                         if status \<noteq> Finalized
                         then sbind (enqueue_child E h (ExitTx tx)) (\<lambda>_. ret (Some (False, True)))
                         else (case find (\<lambda>l. leaf_id l = to_dec_string leaf_index) (leaves_to_create ttx) of
                             None \<Rightarrow> ret (Some (False, False))
                           | Some leaf \<Rightarrow> check_exit_leaf E tx block i p ep leaf))))))
     | _ \<Rightarrow> ret (Some (False, False)))"

definition check_spark_exit ::
  "checker_env \<Rightarrow> Lrc20Transaction \<Rightarrow> ProofMap \<Rightarrow> (bool \<times> bool) checker" where
  "check_spark_exit E tx proofs =
     sbind (query (\<lambda>_. may_fail (map_err (\<lambda>_. NodeUnavailable)
       (get_raw_transaction_info (node E) (tx_txid (the_lib E) (bitcoin_tx tx)))))) (\<lambda>blockhash.
     case blockhash of
       None \<Rightarrow> ret (False, False)
     | Some bh \<Rightarrow>
         sbind (query (\<lambda>_. may_fail (map_err (\<lambda>_. NodeUnavailable) (get_block_header_info (node E) bh)))) (\<lambda>block.
         sbind (sfirst (check_exit_proof E tx block) proofs) (\<lambda>r.
         ret (case r of None \<Rightarrow> (True, False) | Some b \<Rightarrow> b))))"

section \<open>The full check of LRC20 transactions\<close>

definition check_lrc20_transaction ::
  "checker_env \<Rightarrow> Lrc20Transaction \<Rightarrow> SocketAddr option \<Rightarrow> (txid, Lrc20Transaction) btree_map \<Rightarrow>
     (SocketAddr, txid list) hmap \<Rightarrow> (bool \<times> bool \<times> (SocketAddr, txid list) hmap) checker" where
  "check_lrc20_transaction E tx sender checked parents =
     (case tx_type tx of
        Issue _ a \<Rightarrow> sbind (check_issuance E tx a) (\<lambda>b. ret (b, False, parents))
      | AnnouncementTx a \<Rightarrow> sbind (check_announcements E tx a) (\<lambda>b. ret (b, False, parents))
      | Transfer ins _ \<Rightarrow> sbind (check_transfer E tx sender checked parents ins) (\<lambda>(b, ps). ret (b, False, ps))
      | SparkExitTx outs \<Rightarrow> sbind (check_spark_exit E tx outs) (\<lambda>(b, waiting). ret (b, waiting, parents)))"

definition handle_invalid_txs :: "checker_env \<Rightarrow> Lrc20Transaction list \<Rightarrow> unit checker" where
  "handle_invalid_txs E txs =
     (if txs = [] then ret ()
      else send (ToController (InvalidTxs (map (\<lambda>tx. tx_txid (the_lib E) (bitcoin_tx tx)) txs))) (ret ()))"

record FullBatch =
  fb_checked :: "(txid, Lrc20Transaction) btree_map"
  fb_invalid :: "Lrc20Transaction list"
  fb_parents :: "(SocketAddr, txid list) hmap"

definition check_one_full :: "checker_env \<Rightarrow> FullBatch \<Rightarrow> Lrc20Transaction \<times> SocketAddr option \<Rightarrow> FullBatch checker" where
  "check_one_full E b = (\<lambda>(tx, sender).
     sbind (check_lrc20_transaction E tx sender (fb_checked b) (fb_parents b)) (\<lambda>(is_valid, is_waiting, parents).
     ret (if is_waiting then b\<lparr>fb_parents := parents\<rparr>
          else if \<not> is_valid then b\<lparr>fb_invalid := fb_invalid b @ [tx], fb_parents := parents\<rparr>
          else b\<lparr>fb_checked := btree_insert (tx_txid (the_lib E) (bitcoin_tx tx)) tx (fb_checked b), fb_parents := parents\<rparr>)))"

definition request_parents :: "('k \<Rightarrow> Inventory) \<Rightarrow> (SocketAddr, 'k list) hmap \<Rightarrow> unit checker" where
  "request_parents entry parents =
     sfor (\<lambda>(receiver, missing). send (ToController (GetData (map entry missing) receiver)) (ret ())) parents"

definition check_txs_full :: "checker_env \<Rightarrow> (Lrc20Transaction \<times> SocketAddr option) list \<Rightarrow> unit checker" where
  "check_txs_full E txs =
     sbind (sfold (check_one_full E) \<lparr>fb_checked = [], fb_invalid = [], fb_parents = []\<rparr> txs) (\<lambda>b.
     sbind (if fb_checked b = [] then ret ()
            else send (ToController (FullyCheckedTxs (map snd (fb_checked b)))) (ret ())) (\<lambda>_.
     sbind (handle_invalid_txs E (fb_invalid b)) (\<lambda>_.
     request_parents Ltx (fb_parents b))))"

text \<open>The isolated check of a batch; an invalid transaction is one whose check returns an error.\<close>

definition check_txs_isolated :: "checker_env \<Rightarrow> Lrc20Transaction list \<Rightarrow> unit checker" where
  "check_txs_isolated E txs =
     sbind (sfold (\<lambda>(good, bad) tx. case check_transaction (the_lib E) tx of
         Inr _ \<Rightarrow> ret (good @ [tx_txid (the_lib E) (bitcoin_tx tx)], bad)
       | Inl Panics \<Rightarrow> throw Panics
       | Inl (Fails _) \<Rightarrow> ret (good, bad @ [tx])) ([], []) txs) (\<lambda>(good, bad).
     sbind (if good = [] then ret () else send (ToController (PartiallyCheckedTxs good)) (ret ())) (\<lambda>_.
     handle_invalid_txs E bad))"


section \<open>Spark transactions\<close>

record SparkBatch =
  sp_checked :: "(hash256, TokenTransaction) btree_map"
  spent_leaves :: "(hash256 \<times> nat) list"
  new_leaves :: "bytes list"
  sp_parents :: "(SocketAddr, hash256 list) hmap"

text \<open>The inputs of a Spark transfer, one after the other: None when the transfer is rejected,
  otherwise the leaves it spends. The lookup of the output an input was spent into has no
  effect on the result.\<close>

primrec check_spark_inputs ::
  "checker_env \<Rightarrow> TokenTransaction \<Rightarrow> SocketAddr option \<Rightarrow> SparkBatch \<Rightarrow> TokenLeafOutput list \<Rightarrow>
     TokenLeafToSpend list \<Rightarrow> (TokenLeafOutput list option \<times> SparkBatch) checker" where
  "check_spark_inputs E tx sender b leaves [] = ret (Some leaves, b)"
| "check_spark_inputs E tx sender b leaves (p # ps) =
     (let h = parent_output_hash p; v = unat (parent_output_vout p) in
      if (h, v) \<in> set (spent_leaves b) then ret (None, b)
      else sbind (spark_tx E h) (\<lambda>stored.
        case (case stored of Some t \<Rightarrow> Some t | None \<Rightarrow> map_of (sp_checked b) h) of
          None \<Rightarrow>
            sbind (enqueue_child E h (TokenTx tx)) (\<lambda>_.
            ret (None, b\<lparr>sp_parents := add_parent sender h (sp_parents b)\<rparr>))
        | Some parent \<Rightarrow>
            if spark_operator_identity_public_keys tx \<noteq> spark_operator_identity_public_keys parent then ret (None, b)
            else if length (leaves_to_create parent) \<le> v then ret (None, b)
            else
              let leaf = leaves_to_create parent ! v in
              if (case is_frozen leaf of None \<Rightarrow> False | Some f \<Rightarrow> f) then ret (None, b)
              else sbind (storage (\<lambda>s. get_spent_output (the_lib E) (spark_db s) h v)) (\<lambda>_.
                check_spark_inputs E tx sender (b\<lparr>spent_leaves := List.insert (h, v) (spent_leaves b)\<rparr>)
                  (leaves @ [leaf]) ps)))"

text \<open>The new leaves of a transaction: none may be repeated in the batch or belong to another
  transaction.\<close>

definition leaf_is_new :: "checker_env \<Rightarrow> TokenTransaction \<Rightarrow> bytes list \<Rightarrow> TokenLeafOutput \<Rightarrow> bool checker" where
  "leaf_is_new E tx seen leaf =
     (if leaf_id leaf \<in> set seen then ret False
      else storage (\<lambda>s. Inr (case get_spark_output_model (spark_db s) (leaf_id leaf) of
        None \<Rightarrow> True
      | Some r \<Rightarrow> so_tx_hash r = TokenTransaction_hash (the_lib E) tx)))"

primrec check_new_leaves ::
  "checker_env \<Rightarrow> TokenTransaction \<Rightarrow> (TokenLeafOutput \<Rightarrow> bool checker) \<Rightarrow> bytes list \<Rightarrow> TokenLeafOutput list \<Rightarrow>
     (bool \<times> bytes list) checker" where
  "check_new_leaves E tx extra seen [] = ret (True, seen)"
| "check_new_leaves E tx extra seen (l # ls) =
     sbind (leaf_is_new E tx seen l) (\<lambda>b.
     if \<not> b then ret (False, seen)
     else sbind (extra l) (\<lambda>c.
       if \<not> c then ret (False, seen)
       else check_new_leaves E tx extra (List.insert (leaf_id l) seen) ls))"

definition check_spark_transfer ::
  "checker_env \<Rightarrow> TokenTransaction \<Rightarrow> SocketAddr option \<Rightarrow> TokenLeafToSpend list \<Rightarrow> SparkBatch \<Rightarrow> (bool \<times> SparkBatch) checker" where
  "check_spark_transfer E tx sender inputs b =
     sbind (check_spark_inputs E tx sender b [] inputs) (\<lambda>(leaves, b1).
     case leaves of
       None \<Rightarrow> ret (False, b1)
     | Some input_leaves \<Rightarrow>
         sbind (check_new_leaves E tx (\<lambda>_. ret True) (new_leaves b1) (leaves_to_create tx)) (\<lambda>(good, seen).
         let b2 = b1\<lparr>new_leaves := seen\<rparr> in
         if \<not> good then ret (False, b2)
         else ret (check_spark_conservation_rules input_leaves (leaves_to_create tx), b2)))"

definition check_issued_leaf :: "checker_env \<Rightarrow> PublicKey \<Rightarrow> TokenLeafOutput \<Rightarrow> bool checker" where
  "check_issued_leaf E issuer leaf =
     (if pubkey (token_pubkey (leaf_receipt leaf)) \<noteq> issuer then ret False
      else sbind (query (\<lambda>s. Inr (validate_announcement s))) (\<lambda>validate.
        if \<not> validate then ret True
        else sbind (token_info E (token_pubkey (leaf_receipt leaf))) (\<lambda>info.
          ret (case info of None \<Rightarrow> False | Some i \<Rightarrow> info_announcement i \<noteq> None))))"

definition check_spark_issue ::
  "checker_env \<Rightarrow> TokenTransaction \<Rightarrow> PublicKey \<Rightarrow> OperatorSpecificOwnerSignature option \<Rightarrow> SparkBatch \<Rightarrow>
     (bool \<times> SparkBatch) checker" where
  "check_spark_issue E tx issuer s b =
     (case s of
        None \<Rightarrow> ret (False, b)
      | Some sg \<Rightarrow>
          if \<not> verify_with_ctx (the_lib E) (owner_signature sg) issuer (hash_token_transaction (the_lib E) tx False)
               (operator_identity_public_key sg)
          then ret (False, b)
          else sbind (check_new_leaves E tx (check_issued_leaf E issuer) (new_leaves b) (leaves_to_create tx)) (\<lambda>(good, seen).
            ret (good, b\<lparr>new_leaves := seen\<rparr>)))"

definition check_spark_transaction ::
  "checker_env \<Rightarrow> TokenTransaction \<Rightarrow> SocketAddr option \<Rightarrow> SparkBatch \<Rightarrow> (bool \<times> SparkBatch) checker" where
  "check_spark_transaction E tx sender b =
     (case spark_input tx of
        Mint issuer s _ \<Rightarrow> check_spark_issue E tx issuer s b
      | SparkTransfer ls \<Rightarrow> check_spark_transfer E tx sender ls b)"

definition answer :: "channel option \<Rightarrow> bool \<Rightarrow> unit checker" where
  "answer callback r = (case callback of None \<Rightarrow> ret () | Some c \<Rightarrow> send (Callback c r) (ret ()))"

text \<open>The children that wait for a parent are sent back to the checker.\<close>

definition take_child :: "SparkHash \<Rightarrow> SparkChild option checker" where
  "take_child h s =
     (case hget (spark_queue s) h of
        None \<Rightarrow> (Inr None, s)
      | Some (c, _) \<Rightarrow> (Inr (Some c), s\<lparr>spark_queue := hremove h (spark_queue s)\<rparr>))"

definition handle_child_spark_transactions :: "SparkHash list \<Rightarrow> unit checker" where
  "handle_child_spark_transactions parents =
     sbind (sfold (\<lambda>(exits, tokens) h.
         sbind (take_child h) (\<lambda>c. ret (case c of
             None \<Rightarrow> (exits, tokens)
           | Some (TokenTx t) \<Rightarrow> (exits, tokens @ [t])
           | Some (ExitTx t) \<Rightarrow> (exits @ [(t, None)], tokens)))) ([], []) parents) (\<lambda>(exits, tokens).
     sbind (if exits = [] then ret () else send (ToChecker (FullCheck exits)) (ret ())) (\<lambda>_.
     if tokens = [] then ret () else send (ToChecker (SparkCheck tokens None None)) (ret ())))"

definition check_one_spark ::
  "checker_env \<Rightarrow> SocketAddr option \<Rightarrow> channel option \<Rightarrow> SparkBatch \<Rightarrow> TokenTransaction \<Rightarrow> SparkBatch checker" where
  "check_one_spark E sender callback b tx =
     sbind (check_spark_transaction E tx sender b) (\<lambda>(is_valid, b1).
     if \<not> is_valid then sbind (answer callback False) (\<lambda>_. ret b1)
     else ret (b1\<lparr>sp_checked := btree_insert (TokenTransaction_hash (the_lib E) tx) tx (sp_checked b1)\<rparr>))"

definition check_spark_txs ::
  "checker_env \<Rightarrow> TokenTransaction list \<Rightarrow> SocketAddr option \<Rightarrow> channel option \<Rightarrow> unit checker" where
  "check_spark_txs E txs sender callback =
     sbind (sfold (check_one_spark E sender callback)
         \<lparr>sp_checked = [], spent_leaves = [], new_leaves = [], sp_parents = []\<rparr> txs) (\<lambda>b.
     sbind (answer callback True) (\<lambda>_.
     sbind (if sp_checked b = [] then ret ()
            else send (ToController (CheckedSparkTxs (map snd (sp_checked b))))
              (handle_child_spark_transactions (map fst (sp_checked b)))) (\<lambda>_.
     request_parents SparkTx (sp_parents b))))"

section \<open>Signatures of Spark transactions\<close>

definition get_spark_prevout ::
  "checker_env \<Rightarrow> TokenLeafToSpend list \<Rightarrow> nat \<Rightarrow> (SparkOutPoint \<times> TokenLeafOutput) option checker" where
  "get_spark_prevout E leaves i =
     (if length leaves \<le> i then ret None
      else
        let p = leaves ! i; v = unat (parent_output_vout p) in
        sbind (spark_tx E (parent_output_hash p)) (\<lambda>prev.
        ret (case prev of
            None \<Rightarrow> None
          | Some t \<Rightarrow>
              if length (leaves_to_create t) \<le> v then None
              else Some (\<lparr>token_transaction_hash = TokenTransaction_hash (the_lib E) t, output_index = parent_output_vout p\<rparr>,
                         leaves_to_create t ! v))))"

definition check_owner_signature ::
  "checker_env \<Rightarrow> hash256 \<Rightarrow> TokenLeafToSpend list \<Rightarrow> OperatorSpecificOwnerSignature \<Rightarrow> bool checker" where
  "check_owner_signature E message leaves os =
     sbind (get_spark_prevout E leaves (case input_index os of None \<Rightarrow> 0 | Some i \<Rightarrow> unat i)) (\<lambda>prev.
     ret (case prev of
         None \<Rightarrow> False
       | Some (_, leaf) \<Rightarrow>
           verify_with_ctx (the_lib E) (owner_signature os) (owner_public_key leaf) message (operator_identity_public_key os)))"

text \<open>A revocation secret is stored as soon as it fits the output it revokes.\<close>

definition check_revocation :: "checker_env \<Rightarrow> TokenLeafToSpend list \<Rightarrow> SparkSignatureLeafData \<Rightarrow> bool checker" where
  "check_revocation E leaves d =
     (case revocation_secret d of
        None \<Rightarrow> ret True
      | Some k \<Rightarrow>
          sbind (get_spark_prevout E leaves (unat (token_tx_leaf_index d))) (\<lambda>prev.
          case prev of
            None \<Rightarrow> ret False
          | Some (out, leaf) \<Rightarrow>
              if pk_serialize (sk_public_key (the_lib E) k) \<noteq> pk_serialize (revocation_public_key leaf) then ret False
              else sbind (modify (\<lambda>s. s\<lparr>spark_db := snd (set_revocation_secret_key (token_transaction_hash out)
                      (output_index out) k (spark_db s))\<rparr>)) (\<lambda>_.
                ret True)))"

definition check_spark_signature_data :: "checker_env \<Rightarrow> SparkSignatureData \<Rightarrow> bool checker" where
  "check_spark_signature_data E d =
     sbind (spark_tx E (token_tx_hash d)) (\<lambda>t.
     case t of
       None \<Rightarrow> ret False
     | Some tx \<Rightarrow>
         let message = TokenTransaction_hash (the_lib E) tx in
         if operator_pubkey d \<notin> set (spark_operator_identity_public_keys tx) then ret False
         else if \<not> verify_with_ctx (the_lib E) (operator_signature d) (operator_pubkey d) message None then ret False
         else (case spark_input tx of
             Mint _ _ _ \<Rightarrow> ret True
           | SparkTransfer leaves \<Rightarrow>
               sbind (case operator_specific_owner_signature d of
                   None \<Rightarrow> ret True
                 | Some os \<Rightarrow> check_owner_signature E message leaves os) (\<lambda>signed.
               if \<not> signed then ret False
               else sall (check_revocation E leaves) (outputs_to_spend_data d))))"

definition update_status :: "checker_env \<Rightarrow> SparkSignatureData \<Rightarrow> SparkHash list \<Rightarrow> SparkHash list checker" where
  "update_status E d finalized =
     sbind (spark_tx E (token_tx_hash d)) (\<lambda>t.
     case t of
       None \<Rightarrow> ret finalized
     | Some tx \<Rightarrow>
         sbind (storage (\<lambda>s. get_spark_signatures (the_lib E) (spark_db s) (token_tx_hash d))) (\<lambda>sigs.
         sbind (storage (\<lambda>s. Inr (get_revocation_secret_keys (the_lib E) (spark_db s) (token_tx_hash d)))) (\<lambda>secrets.
         let status = check_spark_tx_finalization (get_length_of_leaves_to_spend tx) sigs secrets in
         sbind (modify (\<lambda>s. s\<lparr>spark_db := set_token_transaction_status (TokenTransaction_hash (the_lib E) tx) status
             (spark_db s)\<rparr>)) (\<lambda>_.
         ret (if status = Finalized then finalized @ [token_tx_hash d] else finalized)))))"

definition check_spark_signatures ::
  "checker_env \<Rightarrow> SparkSignatureData list \<Rightarrow> channel option \<Rightarrow> unit checker" where
  "check_spark_signatures E sigs callback =
     sbind (sfor (\<lambda>d.
         sbind (check_spark_signature_data E d) (\<lambda>is_valid.
         if \<not> is_valid then answer callback False
         else update_or (\<lambda>s. rbind (may_fail (map_err StorageError (insert_signature_data d (spark_db s))))
                (\<lambda>db. Inr (s\<lparr>spark_db := db\<rparr>))))) sigs) (\<lambda>_.
     sbind (sfold (\<lambda>fin d. update_status E d fin) [] sigs) (\<lambda>finalized.
     sbind (answer callback True) (\<lambda>_.
     if finalized = [] then ret () else handle_child_spark_transactions finalized)))"

section \<open>Freezes of Spark tokens\<close>

text \<open>The update of an output for its new flag sets its identifier and not its primary key.\<close>

definition udpate_spark_output_freeze_status ::
  "(output_update \<Rightarrow> SparkDb \<Rightarrow> DbErr + SparkDb) \<Rightarrow> bytes \<Rightarrow> bool \<Rightarrow> SparkDb \<Rightarrow> DbErr + SparkDb" where
  "udpate_spark_output_freeze_status upd i frozen db =
     upd \<lparr>upd_id = None, upd_spark_id = Some i, upd_is_frozen = Some (Some frozen)\<rparr> db"

definition check_token_freeze :: "checker_env \<Rightarrow> TokensFreezeData \<Rightarrow> bool checker" where
  "check_token_freeze E d =
     (if \<not> verify_with_ctx (the_lib E) (freeze_issuer_signature d) (pubkey (freeze_token_public_key d))
           (TokensFreezeData_hash (the_lib E) d) None
      then ret False
      else sbind (storage (\<lambda>s. get_spark_outputs_by_owner_pubkey (the_lib E) (spark_db s)
             (pk_serialize (freeze_owner_public_key d)))) (\<lambda>leaves.
        sbind (if leaves = [] then ret (freeze_token_public_key d)
               else query (\<lambda>_. expect (TokenPubkey_from_bytes (the_lib E) (TokenPubkey_to_bytes (freeze_token_public_key d))))) (\<lambda>token.
        sbind (sfor (\<lambda>leaf. update_or (\<lambda>s. rbind (may_fail (map_err StorageError
                (udpate_spark_output_freeze_status (orm_update E) (leaf_id leaf) (\<not> should_unfreeze d) (spark_db s))))
                (\<lambda>db. Inr (s\<lparr>spark_db := db\<rparr>))))
              (filter (\<lambda>leaf. token_pubkey (leaf_receipt leaf) = token) leaves)) (\<lambda>_.
        ret True))))"

definition check_token_freezes :: "checker_env \<Rightarrow> TokensFreezeData list \<Rightarrow> unit checker" where
  "check_token_freezes E freezes =
     sbind (sfold (\<lambda>valid d. sbind (check_token_freeze E d) (\<lambda>b. ret (if b then valid @ [d] else valid))) [] freezes) (\<lambda>valid.
     if valid = [] then ret () else send (ToController (CheckedSparkFreezeData valid)) (ret ()))"

section \<open>Events and the clean-up\<close>

fun checker_handle_event :: "checker_env \<Rightarrow> TxCheckerMessage \<Rightarrow> unit checker" where
  "checker_handle_event E (FullCheck txs) = check_txs_full E txs"
| "checker_handle_event E (IsolatedCheck txs) = check_txs_isolated E txs"
| "checker_handle_event E (SparkCheck txs sender callback) = check_spark_txs E txs sender callback"
| "checker_handle_event E (SparkSignatureCheck request callback) = check_spark_signatures E request callback"
| "checker_handle_event E (TokensFreezeCheck request) = check_token_freezes E request"

text \<open>A child is outdated when it has waited longer than the limit; only exits are reported.\<close>

definition handle_cleanup_children :: "checker_env \<Rightarrow> unit checker" where
  "handle_cleanup_children E =
     sbind (query (\<lambda>s. if list_ex (\<lambda>(h, c, created). clock E < created) (spark_queue s)
                       then Inl (Fails ClockWentBack) else Inr s)) (\<lambda>s.
     let outdated = filter (\<lambda>(h, c, created). tx_outdated_duration s < clock E - created) (spark_queue s) in
     sbind (modify (\<lambda>s. s\<lparr>spark_queue := fold (\<lambda>(h, _). hremove h) outdated (spark_queue s)\<rparr>)) (\<lambda>_.
     handle_invalid_txs E (List.map_filter (\<lambda>(h, c, created). case c of TokenTx _ \<Rightarrow> None | ExitTx t \<Rightarrow> Some t) outdated)))"

section \<open>Conservation\<close>

text \<open>The reference: unbounded totals per token.\<close>

definition leaf_total :: "TokenLeafOutput list \<Rightarrow> TokenPubkey \<Rightarrow> nat" where
  "leaf_total leaves t =
     sum_list (map (\<lambda>l. unat (amount (token_amount (leaf_receipt l)))) (filter (\<lambda>l. token_pubkey (leaf_receipt l) = t) leaves))"

definition leaf_tokens :: "TokenLeafOutput list \<Rightarrow> TokenPubkey set" where
  "leaf_tokens leaves = (\<lambda>l. token_pubkey (leaf_receipt l)) ` set leaves"

definition totals_fit :: "TokenLeafOutput list \<Rightarrow> bool" where
  "totals_fit leaves \<longleftrightarrow> (\<forall>t \<in> leaf_tokens leaves. leaf_total leaves t < 2 ^ 128)"

definition leaf_sum_map :: "TokenLeafOutput list \<Rightarrow> TokenPubkey \<Rightarrow> u128 option" where
  "leaf_sum_map leaves t = (if t \<in> leaf_tokens leaves then Some (of_nat (leaf_total leaves t)) else None)"

lemma leaf_total_append [simp]: "leaf_total (xs @ ys) t = leaf_total xs t + leaf_total ys t"
  by (simp add: leaf_total_def)

lemma leaf_tokens_append [simp]: "leaf_tokens (xs @ ys) = leaf_tokens xs \<union> leaf_tokens ys"
  by (auto simp: leaf_tokens_def)

lemma leaf_total_fresh: "t \<notin> leaf_tokens xs \<Longrightarrow> leaf_total xs t = 0"
  by (induction xs) (auto simp: leaf_total_def leaf_tokens_def)

lemma totals_fit_prefix: "totals_fit (xs @ ys) \<Longrightarrow> totals_fit xs"
  by (simp add: totals_fit_def) (meson UnCI le_add1 le_less_trans)

lemma totals_fit_bound: "totals_fit xs \<Longrightarrow> leaf_total xs t < 2 ^ 128"
  by (cases "t \<in> leaf_tokens xs") (simp_all add: totals_fit_def leaf_total_fresh)

lemma unat_u128_of_nat: "n < 2 ^ 128 \<Longrightarrow> unat (of_nat n :: u128) = n"
  by (simp add: unat_of_nat take_bit_nat_eq_self)

lemma leaf_sums_append:
  "totals_fit pre \<Longrightarrow> leaf_sums (leaf_sum_map pre) ls =
     (if totals_fit (pre @ ls) then Some (leaf_sum_map (pre @ ls)) else None)"
proof (induction ls arbitrary: pre)
  case (Cons l ls)
  let ?t = "token_pubkey (leaf_receipt l)" and ?a = "amount (token_amount (leaf_receipt l))"
  let ?old = "case leaf_sum_map pre ?t of None \<Rightarrow> 0 | Some a \<Rightarrow> a"
  have old: "unat ?old = leaf_total pre ?t"
    using totals_fit_bound [OF Cons.prems, of ?t]
    by (auto simp: leaf_sum_map_def leaf_total_fresh unat_u128_of_nat)
  have one: "leaf_total [l] t = (if t = ?t then unat ?a else 0)" "leaf_tokens [l] = {?t}" for t
    by (simp_all add: leaf_total_def leaf_tokens_def)
  show ?case
  proof (cases "checked_add ?old ?a")
    case None
    then have "\<not> totals_fit (pre @ [l])"
      by (auto simp: checked_add_None old totals_fit_def one)
    then have "\<not> totals_fit (pre @ l # ls)"
      using totals_fit_prefix [of "pre @ [l]" ls] by auto
    with None show ?thesis by (simp add: Let_def)
  next
    case (Some c)
    then have c: "unat c = leaf_total pre ?t + unat ?a"
      by (simp add: checked_add_Some old)
    then have bound: "leaf_total pre ?t + unat ?a < 2 ^ 128"
      using unat_bound [of c] by simp
    have fit: "totals_fit (pre @ [l])"
      using bound totals_fit_bound [OF Cons.prems] by (auto simp: totals_fit_def one)
    have "c = of_nat (leaf_total pre ?t + unat ?a)"
      by (simp flip: c)
    then have "(leaf_sum_map pre)(?t \<mapsto> c) = leaf_sum_map (pre @ [l])"
      by (auto simp: fun_eq_iff leaf_sum_map_def one)
    with Some Cons.IH [OF fit] show ?thesis by (simp add: Let_def)
  qed
qed simp

lemma sum_leaves_reference:
  "sum_leaves_by_token_pubkey ls = (if totals_fit ls then Some (leaf_sum_map ls) else None)"
proof -
  have "leaf_sum_map [] = (\<lambda>_. None)"
    by (simp add: fun_eq_iff leaf_sum_map_def leaf_tokens_def)
  then show ?thesis
    using leaf_sums_append [of "[]" ls] by (simp add: sum_leaves_by_token_pubkey_def totals_fit_def leaf_tokens_def)
qed

lemma leaf_sum_map_eq_iff:
  assumes "totals_fit xs" "totals_fit ys"
  shows "leaf_sum_map xs = leaf_sum_map ys \<longleftrightarrow> leaf_tokens xs = leaf_tokens ys \<and> leaf_total xs = leaf_total ys"
proof
  assume e: "leaf_sum_map xs = leaf_sum_map ys"
  have tok: "leaf_tokens xs = leaf_tokens ys"
    using e by (auto simp: leaf_sum_map_def fun_eq_iff split: if_splits)
  have "leaf_total xs t = leaf_total ys t" for t
  proof (cases "t \<in> leaf_tokens xs")
    case True
    then have "(of_nat (leaf_total xs t) :: u128) = of_nat (leaf_total ys t)"
      using fun_cong [OF e, of t] tok by (simp add: leaf_sum_map_def)
    then show ?thesis
      using unat_u128_of_nat totals_fit_bound assms by metis
  qed (use tok in \<open>simp add: leaf_total_fresh\<close>)
  with tok show "leaf_tokens xs = leaf_tokens ys \<and> leaf_total xs = leaf_total ys" by auto
qed (simp add: leaf_sum_map_def fun_eq_iff)

text \<open>C7. The conservation rule of Spark transfers, computed with checked 128-bit sums in one pass,
  is equivalent to a comparison of unbounded totals: it accepts exactly when the spent and the
  created leaves have the same tokens, each with the same total below 2^128, or when some total
  reaches 2^128 on both sides.\<close>

theorem check_spark_conservation_rules_reference:
  "check_spark_conservation_rules spent created \<longleftrightarrow>
     (if totals_fit spent \<and> totals_fit created
      then leaf_tokens spent = leaf_tokens created \<and> leaf_total spent = leaf_total created
      else \<not> totals_fit spent \<and> \<not> totals_fit created)"
  by (simp add: check_spark_conservation_rules_def sum_leaves_reference leaf_sum_map_eq_iff)

section \<open>A batch of isolated checks\<close>

lemma isolated_fold:
  "sfold (\<lambda>(good, bad) tx. case check_transaction (the_lib E) tx of
         Inr _ \<Rightarrow> ret (good @ [tx_txid (the_lib E) (bitcoin_tx tx)], bad)
       | Inl Panics \<Rightarrow> throw Panics
       | Inl (Fails _) \<Rightarrow> ret (good, bad @ [tx])) (good, bad) txs s =
   (if list_ex (\<lambda>tx. check_transaction (the_lib E) tx = Inl Panics) txs then (Inl Panics, s)
    else (Inr (good @ map (\<lambda>tx. tx_txid (the_lib E) (bitcoin_tx tx)) (filter (\<lambda>tx. is_ok (check_transaction (the_lib E) tx)) txs),
               bad @ filter (\<lambda>tx. \<not> is_ok (check_transaction (the_lib E) tx)) txs), s))"
proof (induction txs arbitrary: good bad)
  case (Cons tx txs)
  show ?case
  proof (cases "check_transaction (the_lib E) tx")
    case (Inl e)
    then show ?thesis by (cases e) (simp_all add: Cons sbind_def)
  next
    case (Inr u)
    then show ?thesis by (simp add: Cons sbind_def)
  qed
qed simp

text \<open>C19. The isolated check of a batch reports every transaction once: the ids of those that pass, in
  order, in one message for the confirmation of their blocks, then the ids of those that fail in one
  message that rejects them; an empty message is not sent, the tables do not change, and nothing is
  reported when a check panics.\<close>

theorem check_txs_isolated_reports:
  "check_txs_isolated E txs s =
     (let txid_of = (\<lambda>tx. tx_txid (the_lib E) (bitcoin_tx tx));
          passes = (\<lambda>tx. is_ok (check_transaction (the_lib E) tx));
          report = (\<lambda>m ids. if ids = [] then [] else [ToController (m ids)]) in
      if list_ex (\<lambda>tx. check_transaction (the_lib E) tx = Inl Panics) txs then (Inl Panics, s)
      else (Inr (), s\<lparr>sent := sent s @ report PartiallyCheckedTxs (map txid_of (filter passes txs))
                                   @ report InvalidTxs (map txid_of (filter (\<lambda>tx. \<not> passes tx) txs))\<rparr>))"
  by (simp add: check_txs_isolated_def isolated_fold sbind_def handle_invalid_txs_def send_def Let_def)

section \<open>A batch of Spark transactions\<close>

definition spend_key :: "TokenLeafToSpend \<Rightarrow> hash256 \<times> nat" where
  "spend_key p = (parent_output_hash p, unat (parent_output_vout p))"

definition spends :: "TokenTransaction \<Rightarrow> (hash256 \<times> nat) list" where
  "spends tx = (case spark_input tx of SparkTransfer ls \<Rightarrow> map spend_key ls | Mint _ _ _ \<Rightarrow> [])"

definition known_leaf ::
  "checker_env \<Rightarrow> SparkDb \<Rightarrow> TokenTransaction list \<Rightarrow> TokenTransaction \<Rightarrow> TokenLeafToSpend \<Rightarrow> TokenLeafOutput \<Rightarrow> bool" where
  "known_leaf E db txs tx p leaf \<longleftrightarrow> (\<exists>parent.
     (get_spark_tx_with_outputs (the_lib E) db (parent_output_hash p) = Inr (Some parent)
      \<or> parent \<in> set txs \<and> TokenTransaction_hash (the_lib E) parent = parent_output_hash p)
     \<and> spark_operator_identity_public_keys parent = spark_operator_identity_public_keys tx
     \<and> unat (parent_output_vout p) < length (leaves_to_create parent)
     \<and> leaf = leaves_to_create parent ! unat (parent_output_vout p)
     \<and> is_frozen leaf \<noteq> Some True)"

definition sound_transfer :: "checker_env \<Rightarrow> SparkDb \<Rightarrow> TokenTransaction list \<Rightarrow> TokenTransaction \<Rightarrow> bool" where
  "sound_transfer E db txs tx =
     (case spark_input tx of
        Mint _ _ _ \<Rightarrow> True
      | SparkTransfer ls \<Rightarrow> \<exists>leaves. list_all2 (known_leaf E db txs tx) ls leaves
          \<and> check_spark_conservation_rules leaves (leaves_to_create tx))"

definition checked_sent :: "TxChecker \<Rightarrow> checker_event list" where
  "checked_sent s = filter (\<lambda>e. case e of ToController (CheckedSparkTxs _) \<Rightarrow> True | _ \<Rightarrow> False) (sent s)"

text \<open>No check of a Spark transaction changes the tables or reports a transaction as checked.\<close>

definition quiet :: "SparkDb \<Rightarrow> checker_event list \<Rightarrow> TxChecker \<Rightarrow> bool" where
  "quiet db es s \<longleftrightarrow> spark_db s = db \<and> checked_sent s = es"

lemma keeps_case_input [keeps_intros]:
  "(\<And>a b c. keeps P (f a b c)) \<Longrightarrow> (\<And>ls. keeps P (g ls)) \<Longrightarrow>
     keeps P (case i of Mint a b c \<Rightarrow> f a b c | SparkTransfer ls \<Rightarrow> g ls)"
  by (simp split: TokenTransactionInput.split)

lemma keeps_reads [keeps_intros]:
  "keeps P (spark_tx E h)" "keeps P (storage f)" "keeps P (storage_fault g)" "keeps P (token_info E t)"
  by (simp_all add: spark_tx_def storage_def storage_fault_def token_info_def keeps_query)

lemma keeps_enqueue [keeps_intros]: "keeps (quiet db es) (enqueue_child E h c)"
  by (simp add: enqueue_child_def keeps_def quiet_def checked_sent_def)

lemma keeps_send_quiet:
  assumes "\<And>txs. e \<noteq> ToController (CheckedSparkTxs txs)" and "keeps (quiet db es) m"
  shows "keeps (quiet db es) (send e m)"
  unfolding send_def
proof (intro keeps_bind keeps_modify)
  fix s assume "quiet db es s"
  with assms(1) show "quiet db es (s\<lparr>sent := sent s @ [e]\<rparr>)"
    by (auto simp: quiet_def checked_sent_def split: checker_event.splits ControllerMessage.splits)
qed (rule assms(2))

lemma keeps_answer [keeps_intros]: "keeps (quiet db es) (answer c r)"
  by (auto simp: answer_def split: option.split intro!: keeps_send_quiet keeps_ret)

lemma keeps_inputs [keeps_intros]: "keeps (quiet db es) (check_spark_inputs E tx sender b leaves ps)"
  by (induction ps arbitrary: b leaves) (auto intro!: keeps_intros simp: Let_def split: option.split)

lemma keeps_new_leaves [keeps_intros]:
  "(\<And>l. keeps P (extra l)) \<Longrightarrow> keeps P (check_new_leaves E tx extra seen ls)"
proof (induction ls arbitrary: seen)
  case (Cons l ls)
  then show ?case
    unfolding check_new_leaves.simps leaf_is_new_def by (intro keeps_intros) simp_all
qed (simp add: keeps_def)

lemma keeps_spark_transaction [keeps_intros]: "keeps (quiet db es) (check_spark_transaction E tx sender b)"
  by (auto intro!: keeps_intros simp: check_spark_transaction_def check_spark_issue_def check_spark_transfer_def
      check_issued_leaf_def Let_def split: option.split)

lemma keeps_one_spark [keeps_intros]: "keeps (quiet db es) (check_one_spark E sender c b tx)"
  by (auto intro!: keeps_intros simp: check_one_spark_def)

lemma keeps_quietD:
  assumes "keeps (quiet (spark_db s) (checked_sent s)) m" and "m s = (r, s')"
  shows "checked_sent s' = checked_sent s"
  using keepsD [OF assms(1), of s] assms(2) by (simp add: quiet_def)

lemma keeps_take_child [keeps_intros]: "keeps (quiet db es) (take_child h)"
  by (auto simp: keeps_def take_child_def quiet_def checked_sent_def split: option.split)

lemma keeps_children [keeps_intros]: "keeps (quiet db es) (handle_child_spark_transactions hs)"
  unfolding handle_child_spark_transactions_def
  by (intro keeps_intros keeps_send_quiet) (auto split: prod.split intro!: keeps_intros)

lemma keeps_request [keeps_intros]: "keeps (quiet db es) (request_parents f ps)"
  unfolding request_parents_def by (intro keeps_intros keeps_send_quiet) simp_all


lemma storage_runs [simp]: "snd (storage f s) = s" "snd (storage_fault g s) = s"
  by (simp_all add: storage_def storage_fault_def)

lemma spark_tx_Inr: "spark_tx E h s = (Inr r, s') \<longleftrightarrow> s' = s \<and> get_spark_tx_with_outputs (the_lib E) (spark_db s) h = Inr r"
  by (auto simp: spark_tx_def storage_fault_def err_into_def map_err_def split: sum.splits)

definition batch_sources :: "checker_env \<Rightarrow> TokenTransaction list \<Rightarrow> SparkBatch \<Rightarrow> bool" where
  "batch_sources E txs b \<longleftrightarrow> (\<forall>h t. (h, t) \<in> set (sp_checked b) \<longrightarrow> t \<in> set txs \<and> TokenTransaction_hash (the_lib E) t = h)"

lemma check_spark_inputs_Cons:
  assumes run: "check_spark_inputs E tx sender b leaves (p # ps) s = (Inr (r, b'), s')"
  obtains (rejected) "r = None" "spent_leaves b' = spent_leaves b" "sp_checked b' = sp_checked b"
  | (goes_on) stored parent where "spend_key p \<notin> set (spent_leaves b)"
      "get_spark_tx_with_outputs (the_lib E) (spark_db s) (parent_output_hash p) = Inr stored"
      "(case stored of Some t \<Rightarrow> Some t | None \<Rightarrow> map_of (sp_checked b) (parent_output_hash p)) = Some parent"
      "spark_operator_identity_public_keys parent = spark_operator_identity_public_keys tx"
      "unat (parent_output_vout p) < length (leaves_to_create parent)"
      "is_frozen (leaves_to_create parent ! unat (parent_output_vout p)) \<noteq> Some True"
      "check_spark_inputs E tx sender (b\<lparr>spent_leaves := List.insert (spend_key p) (spent_leaves b)\<rparr>)
         (leaves @ [leaves_to_create parent ! unat (parent_output_vout p)]) ps s = (Inr (r, b'), s')"
proof (cases "spend_key p \<in> set (spent_leaves b)")
  case True
  with run rejected show thesis by (auto simp: spend_key_def)
next
  case fresh: False
  let ?h = "parent_output_hash p" and ?v = "unat (parent_output_vout p)"
  obtain stored where stored: "get_spark_tx_with_outputs (the_lib E) (spark_db s) ?h = Inr stored"
    using run fresh by (auto simp: Let_def sbind_Inr_iff spark_tx_Inr spend_key_def)
  have read: "spark_tx E ?h s = (Inr stored, s)"
    by (simp add: spark_tx_Inr stored)
  show thesis
  proof (cases "case stored of Some t \<Rightarrow> Some t | None \<Rightarrow> map_of (sp_checked b) ?h")
    case None
    with run fresh rejected show thesis
      by (auto simp: Let_def read spend_key_def sbind_Inr_iff)
  next
    case (Some parent)
    with run fresh rejected goes_on [OF fresh stored Some] show thesis
      by (auto simp: read spend_key_def sbind_Inr_iff Let_def storage_def split: if_splits option.splits)
  qed
qed

lemma spark_inputs_accept:
  assumes "check_spark_inputs E tx sender b leaves ps s = (Inr (Some leaves', b'), s')" and "batch_sources E txs b"
  shows "distinct (map spend_key ps) \<and> set (map spend_key ps) \<inter> set (spent_leaves b) = {}
    \<and> set (spent_leaves b') = set (spent_leaves b) \<union> set (map spend_key ps) \<and> sp_checked b' = sp_checked b
    \<and> (\<exists>ls. leaves' = leaves @ ls \<and> list_all2 (known_leaf E (spark_db s) txs tx) ps ls)"
  using assms
proof (induction ps arbitrary: b leaves s)
  case (Cons p ps)
  from Cons.prems(1) show ?case
  proof (cases rule: check_spark_inputs_Cons)
    case (goes_on stored parent)
    have "get_spark_tx_with_outputs (the_lib E) (spark_db s) (parent_output_hash p) = Inr (Some parent)
        \<or> parent \<in> set txs \<and> TokenTransaction_hash (the_lib E) parent = parent_output_hash p"
      using goes_on(2,3) Cons.prems(2) map_of_SomeD [of "sp_checked b" "parent_output_hash p" parent]
      by (auto simp: batch_sources_def split: option.splits)
    with goes_on(4-6) have known: "known_leaf E (spark_db s) txs tx p (leaves_to_create parent ! unat (parent_output_vout p))"
      by (auto simp: known_leaf_def)
    have "batch_sources E txs (b\<lparr>spent_leaves := List.insert (spend_key p) (spent_leaves b)\<rparr>)"
      using Cons.prems(2) by (simp add: batch_sources_def)
    from Cons.IH [OF goes_on(7) this] known goes_on(1) show ?thesis
      by auto
  qed simp
qed simp

lemma spark_inputs_reject:
  "check_spark_inputs E tx sender b leaves ps s = (Inr (r, b'), s') \<Longrightarrow>
     set (spent_leaves b) \<subseteq> set (spent_leaves b') \<and> sp_checked b' = sp_checked b"
proof (induction ps arbitrary: b leaves s)
  case (Cons p ps)
  from Cons.prems show ?case
  proof (cases rule: check_spark_inputs_Cons)
    case (goes_on stored parent)
    from Cons.IH [OF goes_on(7)] show ?thesis by auto
  qed simp
qed simp

lemma spark_transaction_batch:
  assumes "check_spark_transaction E tx sender b s = (Inr (r, b'), s')" and "batch_sources E txs b"
  shows "set (spent_leaves b) \<subseteq> set (spent_leaves b') \<and> sp_checked b' = sp_checked b
    \<and> (r \<longrightarrow> distinct (spends tx) \<and> set (spends tx) \<inter> set (spent_leaves b) = {}
         \<and> set (spends tx) \<subseteq> set (spent_leaves b') \<and> sound_transfer E (spark_db s) txs tx)"
proof (cases "spark_input tx")
  case (Mint a c d)
  with assms show ?thesis
    by (auto simp: check_spark_transaction_def check_spark_issue_def sbind_Inr_iff spends_def sound_transfer_def
        split: option.splits if_splits prod.splits)
next
  case (SparkTransfer ls)
  then obtain leaves b1 s1 where one: "check_spark_inputs E tx sender b [] ls s = (Inr (leaves, b1), s1)"
    and two: "(case leaves of
       None \<Rightarrow> ret (False, b1)
     | Some input_leaves \<Rightarrow>
         sbind (check_new_leaves E tx (\<lambda>_. ret True) (new_leaves b1) (leaves_to_create tx)) (\<lambda>(good, seen).
         let b2 = b1\<lparr>new_leaves := seen\<rparr> in
         if \<not> good then ret (False, b2)
         else ret (check_spark_conservation_rules input_leaves (leaves_to_create tx), b2))) s1 = (Inr (r, b'), s')"
    using assms(1) by (auto simp: check_spark_transaction_def check_spark_transfer_def sbind_Inr_iff)
  have same: "spent_leaves b' = spent_leaves b1 \<and> sp_checked b' = sp_checked b1"
    and cons: "r \<Longrightarrow> \<exists>l. leaves = Some l \<and> check_spark_conservation_rules l (leaves_to_create tx)"
    using two by (auto simp: sbind_Inr_iff Let_def split: option.splits if_splits prod.splits)
  show ?thesis
  proof (cases leaves)
    case None
    with cons same spark_inputs_reject [OF one] show ?thesis by auto
  next
    case (Some l)
    with one have "check_spark_inputs E tx sender b [] ls s = (Inr (Some l, b1), s1)" by simp
    from spark_inputs_accept [OF this assms(2)] same cons Some SparkTransfer show ?thesis
      by (auto simp: spends_def sound_transfer_def)
  qed
qed

lemma set_btree_insert: "set (btree_insert k v m) \<subseteq> insert (k, v) (set m)"
  by (induction k v m rule: btree_insert.induct) auto

lemma distinct_concat_btree_insert:
  assumes "distinct (concat (map (\<lambda>e. f (snd e)) m))" "distinct (f v)" "set (f v) \<inter> set (concat (map (\<lambda>e. f (snd e)) m)) = {}"
  shows "distinct (concat (map (\<lambda>e. f (snd e)) (btree_insert k v m)))"
  using assms
proof (induction m)
  case (Cons e m)
  obtain k' v' where e: "e = (k', v')" by (cases e)
  have sub: "set (concat (map (\<lambda>e. f (snd e)) (btree_insert k v m))) \<subseteq> set (f v) \<union> set (concat (map (\<lambda>e. f (snd e)) m))"
    using set_btree_insert [of k v m] by fastforce
  have apart: "distinct (concat (map (\<lambda>e. f (snd e)) m))" "distinct (f v')" "set (f v') \<inter> set (concat (map (\<lambda>e. f (snd e)) m)) = {}"
      "set (f v) \<inter> set (f v') = {}" "set (f v) \<inter> set (concat (map (\<lambda>e. f (snd e)) m)) = {}"
    using Cons.prems e by auto
  then have "distinct (concat (map (\<lambda>e. f (snd e)) (btree_insert k v m)))"
    using Cons by blast
  moreover have "set (f v') \<inter> set (concat (map (\<lambda>e. f (snd e)) (btree_insert k v m))) = {}"
    using apart sub by blast
  ultimately show ?case
    using apart Cons.prems e by auto
qed simp

definition batch_ok :: "checker_env \<Rightarrow> SparkDb \<Rightarrow> TokenTransaction list \<Rightarrow> SparkBatch \<Rightarrow> bool" where
  "batch_ok E db txs b \<longleftrightarrow> batch_sources E txs b
     \<and> distinct (concat (map (\<lambda>e. spends (snd e)) (sp_checked b)))
     \<and> set (concat (map (\<lambda>e. spends (snd e)) (sp_checked b))) \<subseteq> set (spent_leaves b)
     \<and> list_all (sound_transfer E db txs) (map snd (sp_checked b))"

lemma one_spark_batch:
  assumes "check_one_spark E sender c b tx s = (Inr b', s')" and "batch_ok E (spark_db s) txs b" and "tx \<in> set txs"
  shows "batch_ok E (spark_db s) txs b'"
proof -
  obtain r b1 s1 where one: "check_spark_transaction E tx sender b s = (Inr (r, b1), s1)"
    and rest: "(if \<not> r then sbind (answer c False) (\<lambda>_. ret b1)
      else ret (b1\<lparr>sp_checked := btree_insert (TokenTransaction_hash (the_lib E) tx) tx (sp_checked b1)\<rparr>)) s1 = (Inr b', s')"
    using assms(1) by (auto simp: check_one_spark_def sbind_Inr_iff)
  have two: "b' = (if r then b1\<lparr>sp_checked := btree_insert (TokenTransaction_hash (the_lib E) tx) tx (sp_checked b1)\<rparr> else b1)"
    using rest by (auto simp: sbind_Inr_iff split: if_splits)
  have src: "batch_sources E txs b" using assms(2) by (simp add: batch_ok_def)
  note tx = spark_transaction_batch [OF one src]
  show ?thesis
  proof (cases r)
    case False
    with tx two assms(2) show ?thesis by (auto simp: batch_ok_def batch_sources_def)
  next
    case True
    let ?m = "btree_insert (TokenTransaction_hash (the_lib E) tx) tx (sp_checked b)"
    have sub: "set ?m \<subseteq> insert (TokenTransaction_hash (the_lib E) tx, tx) (set (sp_checked b))"
      by (rule set_btree_insert)
    have "distinct (concat (map (\<lambda>e. spends (snd e)) ?m))"
      using assms(2) tx True by (intro distinct_concat_btree_insert) (auto simp: batch_ok_def)
    moreover have "set (concat (map (\<lambda>e. spends (snd e)) ?m)) \<subseteq> set (spent_leaves b1)"
    proof -
      have "set (concat (map (\<lambda>e. spends (snd e)) ?m)) \<subseteq> set (spends tx) \<union> set (concat (map (\<lambda>e. spends (snd e)) (sp_checked b)))"
        using sub by fastforce
      moreover have "set (concat (map (\<lambda>e. spends (snd e)) (sp_checked b))) \<subseteq> set (spent_leaves b)"
        using assms(2) unfolding batch_ok_def by blast
      ultimately show ?thesis
        using tx True by blast
    qed
    moreover have "list_all (sound_transfer E (spark_db s) txs) (map snd ?m)"
    proof -
      have "snd ` set ?m \<subseteq> insert tx (snd ` set (sp_checked b))"
        using image_mono [OF sub, of snd] by simp
      moreover have "\<forall>t \<in> snd ` set (sp_checked b). sound_transfer E (spark_db s) txs t"
        using assms(2) by (simp add: batch_ok_def list_all_iff)
      ultimately show ?thesis
        using tx True unfolding list_all_iff set_map by blast
    qed
    moreover have "batch_sources E txs (b1\<lparr>sp_checked := ?m\<rparr>)"
      using src sub assms(3) unfolding batch_sources_def by auto
    ultimately show ?thesis
      using two True tx by (simp add: batch_ok_def batch_sources_def)
  qed
qed

lemma spark_batch_ok:
  assumes "sfold (check_one_spark E sender c) b txs s = (Inr b', s')" and "batch_ok E (spark_db s) all b"
    and "set txs \<subseteq> set all"
  shows "batch_ok E (spark_db s) all b'"
  using assms
proof (induction txs arbitrary: b s)
  case (Cons tx txs)
  then obtain b1 s1 where one: "check_one_spark E sender c b tx s = (Inr b1, s1)"
    and rest: "sfold (check_one_spark E sender c) b1 txs s1 = (Inr b', s')"
    by (auto simp: sbind_Inr_iff)
  have "quiet (spark_db s) (checked_sent s) (snd (check_one_spark E sender c b tx s))"
    by (rule keepsD [OF keeps_one_spark]) (simp add: quiet_def)
  then have db: "spark_db s1 = spark_db s" by (simp add: one quiet_def)
  have "batch_ok E (spark_db s1) all b1"
    using one_spark_batch [OF one Cons.prems(2)] Cons.prems(3) by (simp add: db)
  from Cons.IH [OF rest this] Cons.prems(3) show ?case by (simp add: db)
qed simp


definition example_checker_env :: checker_env where
  "example_checker_env = \<lparr>the_lib = example_lib, the_wire = wire0 tx0,
     node = \<lparr>get_raw_transaction = \<lambda>_. Inl (), get_raw_transaction_info = \<lambda>_. Inl (),
       get_block_header_info = \<lambda>_. Inl (), get_tx_out = \<lambda>_. Inl ()\<rparr>,
     orm_update = \<lambda>_ _. Inl RecordNotFound, clock = 0\<rparr>"

lemma example_checker_env_lib [simp]: "the_lib example_checker_env = example_lib"
  by (simp add: example_checker_env_def)

definition example_first_spend :: TokenTransaction where
  "example_first_spend = example_spend [example_leaf 2 4, example_leaf 3 6]"

lemma example_issue_read: "get_spark_tx_with_outputs example_lib example_stored_spend 64 = Inr (Some example_issue)"
proof -
  have "stores (fits_tables example_lib) (insert_spark_transaction example_lib) SparkDb_empty
      [example_issue, example_spend [example_leaf 2 4, example_leaf 3 6]] example_stored_spend"
    by (simp add: example_issue_stored example_spend_stored example_fits)
  from spark_store.stores_get [OF spark_db_inv_empty this] show ?thesis by simp
qed

definition example_checker :: TxChecker where
  "example_checker = TxChecker_new Lrc20Db_empty example_stored_spend False 10"

lemma example_checker_fields [simp]:
  "spark_db example_checker = example_stored_spend" "sent example_checker = []" "spark_queue example_checker = []"
  by (simp_all add: example_checker_def TxChecker_new_def)

lemma example_leaf_is_new:
  assumes "[j] \<notin> set seen" "j = 2 \<or> j = 3"
  shows "leaf_is_new example_checker_env example_first_spend seen (example_leaf j a) example_checker = (Inr True, example_checker)"
  using assms by (auto simp: leaf_is_new_def storage_def may_fail_def map_err_def get_spark_output_model_def
      example_stored_spend_def convert_spark_output_to_active_model_def mark_spent_def example_leaf_def example_first_spend_def)

lemma example_leaf_id [simp]: "leaf_id (example_leaf j a) = [j]" "is_frozen (example_leaf j a) = Some False"
  by (simp_all add: example_leaf_def)

lemma example_conserved: "check_spark_conservation_rules [example_leaf 1 10] [example_leaf 2 4, example_leaf 3 6]"
  by (simp add: check_spark_conservation_rules_def sum_leaves_by_token_pubkey_def example_leaf_def checked_add_def Let_def)

lemma example_first_checked:
  "check_spark_transaction example_checker_env example_first_spend None
     \<lparr>sp_checked = [], spent_leaves = [], new_leaves = [], sp_parents = []\<rparr> example_checker
   = (Inr (True, \<lparr>sp_checked = [], spent_leaves = [(64, 0)], new_leaves = [[3], [2]], sp_parents = []\<rparr>), example_checker)"
proof -
  have read: "spark_tx example_checker_env 64 example_checker = (Inr (Some example_issue), example_checker)"
    by (simp add: spark_tx_Inr example_issue_read)
  have spent: "storage (\<lambda>s. get_spent_output example_lib (spark_db s) 64 0) example_checker = (Inr None, example_checker)"
    by (simp add: storage_def may_fail_def map_err_def get_spent_output_def example_stored_spend_def
        convert_spark_output_to_active_model_def mark_spent_def)
  have "leaves_to_create example_first_spend = [example_leaf 2 4, example_leaf 3 6]"
      "spark_input example_first_spend = SparkTransfer [\<lparr>parent_output_hash = 64, parent_output_vout = 0\<rparr>]"
      "spark_operator_identity_public_keys example_first_spend = []"
    by (simp_all add: example_first_spend_def)
  then show ?thesis
    by (simp add: check_spark_transaction_def check_spark_transfer_def Let_def read spent example_leaf_is_new example_conserved)
qed

lemma example_batch_run:
  "check_spark_txs example_checker_env [example_first_spend, example_second_spend] None None example_checker
   = (Inr (), example_checker\<lparr>sent := [ToController (CheckedSparkTxs [example_first_spend])]\<rparr>)"
proof -
  let ?b = "\<lparr>sp_checked = [(96, example_first_spend)], spent_leaves = [(64, 0)], new_leaves = [[3], [2]], sp_parents = []\<rparr>"
  have "check_one_spark example_checker_env None None
      \<lparr>sp_checked = [], spent_leaves = [], new_leaves = [], sp_parents = []\<rparr> example_first_spend example_checker
      = (Inr ?b, example_checker)"
    by (simp add: check_one_spark_def example_first_checked) (simp add: example_first_spend_def)
  moreover have "check_one_spark example_checker_env None None ?b example_second_spend example_checker = (Inr ?b, example_checker)"
    by (simp add: check_one_spark_def check_spark_transaction_def check_spark_transfer_def example_second_spend_def answer_def)
  ultimately show ?thesis
    by (simp add: check_spark_txs_def answer_def send_def handle_child_spark_transactions_def take_child_def request_parents_def)
qed


end
