(* ===== verification/Controller.thy ===== *)
theory Controller
  imports Lrc20_Storage Effects
begin

text \<open>
  The controller (crates/controller/src/handler.rs), which stores what arrives from peers, the
  indexer and the RPC server, moves transactions between the other services and answers peers.
  A handler is a program over the tables and the list of what was sent; an error leaves both as
  they are, and the service goes on with the next message. Whether the peer-to-peer client takes
  a request and the clock are arguments.
\<close>

section \<open>State\<close>

datatype p2p_call =
    CallInv "Inventory list"
  | CallGetData "Inventory list" SocketAddr
  | CallLrc20Txs "Lrc20Transaction list" SocketAddr
  | CallSparkTxs "TokenTransaction list" SocketAddr
  | CallSparkSignatures "SparkSignatureData list" SocketAddr
  | CallBanPeer SocketAddr
  | CallStart

datatype controller_event =
    ToTxChecker TxCheckerMessage
  | ToGraphBuilder GraphBuilderMessage
  | ToSparkGraphBuilder SparkGraphBuilderMessage
  | ToTxConfirm TxConfirmMessage
  | ToIndexer IndexerMessage
  | ToP2p p2p_call

record Controller =
  ctl_lrc20 :: Lrc20Db
  ctl_spark :: SparkDb
  spark_freezes :: "spark_freeze_row list"
  max_inv_size :: nat
  outbox :: "controller_event list"

definition DEFAULT_INV_SIZE :: nat where "DEFAULT_INV_SIZE = 100"

definition Controller_new :: "Lrc20Db \<Rightarrow> SparkDb \<Rightarrow> spark_freeze_row list \<Rightarrow> Controller" where
  "Controller_new db sdb freezes =
     \<lparr>ctl_lrc20 = db, ctl_spark = sdb, spark_freezes = freezes, max_inv_size = DEFAULT_INV_SIZE, outbox = []\<rparr>"

definition set_max_inv_size :: "nat \<Rightarrow> Controller \<Rightarrow> Controller" where
  "set_max_inv_size n c = c\<lparr>max_inv_size := n\<rparr>"

datatype controller_error = ControllerStorage DbErr | P2pUnavailable | NotInMempool

text \<open>The column with the time at which a Spark transaction was stored, which only the
  inventory reads, is an argument.\<close>

record controller_env =
  ctl_lib :: lib
  ctl_wire :: wire
  ctl_clock :: int
  p2p_takes :: "p2p_call \<Rightarrow> bool"
  spark_created_at :: "SparkHash \<Rightarrow> int"

type_synonym 'a controller = "(Controller, controller_error fault, 'a) prog"

definition emit :: "controller_event \<Rightarrow> unit controller" where
  "emit e = modify (\<lambda>s. s\<lparr>outbox := outbox s @ [e]\<rparr>)"

definition call_p2p :: "controller_env \<Rightarrow> p2p_call \<Rightarrow> unit controller" where
  "call_p2p E c = (if p2p_takes E c then emit (ToP2p c) else throw (Fails P2pUnavailable))"

definition read_db :: "(Controller \<Rightarrow> DbErr fault + 'a) \<Rightarrow> 'a controller" where
  "read_db f = query (\<lambda>s. err_into ControllerStorage (f s))"

definition write_lrc20 :: "(Lrc20Db \<Rightarrow> DbErr fault + Lrc20Db) \<Rightarrow> unit controller" where
  "write_lrc20 f = update_or (\<lambda>s. rbind (err_into ControllerStorage (f (ctl_lrc20 s))) (\<lambda>db. Inr (s\<lparr>ctl_lrc20 := db\<rparr>)))"

definition write_spark :: "(SparkDb \<Rightarrow> DbErr + SparkDb) \<Rightarrow> unit controller" where
  "write_spark f = update_or (\<lambda>s. rbind (err_into ControllerStorage (may_fail (f (ctl_spark s)))) (\<lambda>db. Inr (s\<lparr>ctl_spark := db\<rparr>)))"

section \<open>Inventory of Spark data\<close>

definition get_token_txs_inventory :: "(SparkHash \<Rightarrow> int) \<Rightarrow> SparkDb \<Rightarrow> nat \<Rightarrow> SparkHash list" where
  "get_token_txs_inventory created db inv_size =
     map st_tx_hash (take inv_size (sort_key (\<lambda>r. - created (st_tx_hash r)) (spark_transactions db)))"

definition in_mempool :: "Lrc20Db \<Rightarrow> hash256 \<Rightarrow> bool" where
  "in_mempool ldb h = list_ex (\<lambda>m. mempool_txid m = h \<and> mempool_status m \<noteq> Initialized) (mempool_transactions ldb)"

definition get_spark_inventory :: "(SparkHash \<Rightarrow> int) \<Rightarrow> SparkDb \<Rightarrow> Lrc20Db \<Rightarrow> SparkHash list" where
  "get_spark_inventory created db ldb =
     map st_tx_hash (sort_key (\<lambda>r. - created (st_tx_hash r))
       (filter (\<lambda>r. st_status r = Finalized \<or> in_mempool ldb (st_tx_hash r)) (spark_transactions db)))"

definition get_spark_freezes_inventory ::
  "lib \<Rightarrow> spark_freeze_row list \<Rightarrow> SparkDb \<Rightarrow> Lrc20Db \<Rightarrow> DbErr + TokensFreezeData list" where
  "get_spark_freezes_inventory L freezes db ldb =
     mapM (convert_model_to_spark_freeze L)
       (sort_key (\<lambda>f. - sint (sf_issuer_provided_timestamp f))
         (filter (\<lambda>f. list_ex (\<lambda>r. st_tx_hash r = sf_tx_hash f \<and> st_status r = Finalized) (spark_transactions db)
            \<or> in_mempool ldb (sf_tx_hash f)) freezes))"

definition share_inv :: "controller_env \<Rightarrow> unit controller" where
  "share_inv E =
     sbind (read_db (\<lambda>s. Inr (get_lrc20_inventory (ctl_lrc20 s) (max_inv_size s)))) (\<lambda>txids.
     sbind (read_db (\<lambda>s. Inr (get_token_txs_inventory (spark_created_at E) (ctl_spark s) (max_inv_size s)))) (\<lambda>hashes.
     sbind (read_db (\<lambda>s. may_fail (get_spark_freezes_inventory (ctl_lib E) (spark_freezes s) (ctl_spark s) (ctl_lrc20 s)))) (\<lambda>fs.
     call_p2p E (CallInv (map Ltx txids @ map SparkTx hashes @ map SparkFreeze fs)))))"

section \<open>New data\<close>

definition is_tx_exist :: "controller_env \<Rightarrow> txid \<Rightarrow> Lrc20Transaction option controller" where
  "is_tx_exist E t = read_db (\<lambda>s. may_fail (get_lrc20_transaction_by_id (ctl_lib E) (ctl_wire E) (ctl_lrc20 s) t))"

definition is_issue_announcement :: "Lrc20TxType \<Rightarrow> bool" where
  "is_issue_announcement ty = (case ty of AnnouncementTx (IssueA _) \<Rightarrow> True | _ \<Rightarrow> False)"

text \<open>A new transaction is stored and put into the mempool before it is checked; a stored one
  only when an issue replaces its announcement.\<close>

definition handle_new_lrc20_tx ::
  "controller_env \<Rightarrow> SocketAddr option \<Rightarrow> Lrc20Transaction list \<Rightarrow> Lrc20Transaction \<Rightarrow> Lrc20Transaction list controller" where
  "handle_new_lrc20_tx E sender new_txs tx =
     (let t = tx_txid (ctl_lib E) (bitcoin_tx tx);
          store = sbind (write_lrc20 (insert_lrc20_transaction (ctl_lib E) (ctl_wire E) (ctl_clock E) tx)) (\<lambda>_.
                  sbind (write_lrc20 (\<lambda>db. may_fail (put_mempool_transaction t sender db))) (\<lambda>_.
                  ret (new_txs @ [tx]))) in
      sbind (is_tx_exist E t) (\<lambda>existing.
      case existing of
        None \<Rightarrow> store
      | Some etx \<Rightarrow>
          if \<not> ((case tx_type tx of Issue _ _ \<Rightarrow> True | _ \<Rightarrow> False) \<and> is_issue_announcement (tx_type etx))
          then ret new_txs else store))"

definition handle_new_lrc20_txs :: "controller_env \<Rightarrow> Lrc20Transaction list \<Rightarrow> SocketAddr option \<Rightarrow> unit controller" where
  "handle_new_lrc20_txs E txs sender =
     sbind (sfold (handle_new_lrc20_tx E sender) [] txs) (\<lambda>new_txs.
     if new_txs = [] then ret () else emit (ToTxChecker (IsolatedCheck new_txs)))"

definition handle_new_spark_tx ::
  "controller_env \<Rightarrow> TokenTransaction list \<Rightarrow> TokenTransaction \<Rightarrow> TokenTransaction list controller" where
  "handle_new_spark_tx E new_txs tx =
     sbind (read_db (\<lambda>s. Inr (get_spark_transaction_model_by_hash (ctl_spark s) (TokenTransaction_hash (ctl_lib E) tx)))) (\<lambda>r.
     if r \<noteq> None then ret new_txs
     else sbind (write_spark (insert_spark_transaction (ctl_lib E) tx)) (\<lambda>_. ret (new_txs @ [tx])))"

definition handle_new_spark_txs ::
  "controller_env \<Rightarrow> TokenTransaction list \<Rightarrow> SocketAddr option \<Rightarrow> channel option \<Rightarrow> unit controller" where
  "handle_new_spark_txs E txs sender callback =
     sbind (sfold (handle_new_spark_tx E) [] txs) (\<lambda>new_txs.
     emit (ToTxChecker (SparkCheck new_txs sender callback)))"

definition handle_spark_token_tx_signature ::
  "SparkSignatureData list \<Rightarrow> SocketAddr option \<Rightarrow> channel option \<Rightarrow> unit controller" where
  "handle_spark_token_tx_signature request sender callback = emit (ToTxChecker (SparkSignatureCheck request callback))"

definition handle_tokens_freeze_request :: "TokensFreezeData list \<Rightarrow> SocketAddr option \<Rightarrow> unit controller" where
  "handle_tokens_freeze_request request sender = emit (ToTxChecker (TokensFreezeCheck request))"

section \<open>Peers\<close>

definition handle_inv_entry ::
  "controller_env \<Rightarrow> SocketAddr \<Rightarrow> Inventory list \<Rightarrow> Inventory \<Rightarrow> Inventory list controller" where
  "handle_inv_entry E sender missing entry =
     (let spark = (\<lambda>h.
        sbind (read_db (\<lambda>s. get_spark_tx_with_outputs (ctl_lib E) (ctl_spark s) h)) (\<lambda>t.
        if t = None then ret (missing @ [SparkTx h])
        else sbind (read_db (\<lambda>s. Inr (get_token_transaction_status (ctl_spark s) h))) (\<lambda>status.
          ret (if status \<noteq> Finalized then missing @ [SparkSignatures h] else missing)))) in
      case entry of
        Ltx t \<Rightarrow>
          sbind (is_tx_exist E t) (\<lambda>existing.
          ret (case existing of
              None \<Rightarrow> missing @ [Ltx t]
            | Some etx \<Rightarrow> if is_issue_announcement (tx_type etx) then missing @ [Ltx t] else missing))
      | SparkTx h \<Rightarrow> spark h
      | SparkSignatures h \<Rightarrow> spark h
      | SparkFreeze d \<Rightarrow>
          sbind (read_db (\<lambda>s. Inr (is_pubkey_frozen (ctl_lrc20 s) (freeze_owner_public_key d) (pubkey (freeze_token_public_key d))))) (\<lambda>frozen.
          sbind (if should_unfreeze d = frozen then handle_tokens_freeze_request [d] (Some sender) else ret ()) (\<lambda>_.
          ret missing)))"

definition handle_inv :: "controller_env \<Rightarrow> Inventory list \<Rightarrow> SocketAddr \<Rightarrow> unit controller" where
  "handle_inv E entries sender =
     sbind (sfold (handle_inv_entry E sender) [] entries) (\<lambda>missing.
     if missing = [] then ret () else call_p2p E (CallGetData missing sender))"

text \<open>A request for a freeze panics.\<close>

definition handle_get_data_entry ::
  "controller_env \<Rightarrow> Lrc20Transaction list \<times> TokenTransaction list \<times> SparkSignatureData list \<Rightarrow> Inventory \<Rightarrow>
     (Lrc20Transaction list \<times> TokenTransaction list \<times> SparkSignatureData list) controller" where
  "handle_get_data_entry E = (\<lambda>(lrc20, spark, sigs) entry.
     case entry of
       Ltx t \<Rightarrow> sbind (is_tx_exist E t) (\<lambda>x. ret (lrc20 @ (case x of None \<Rightarrow> [] | Some tx \<Rightarrow> [tx]), spark, sigs))
     | SparkTx h \<Rightarrow>
         sbind (read_db (\<lambda>s. get_spark_tx_with_outputs (ctl_lib E) (ctl_spark s) h)) (\<lambda>x.
         ret (lrc20, spark @ (case x of None \<Rightarrow> [] | Some tx \<Rightarrow> [tx]), sigs))
     | SparkSignatures h \<Rightarrow>
         sbind (read_db (\<lambda>s. may_fail (get_spark_signatures (ctl_lib E) (ctl_spark s) h))) (\<lambda>ds.
         ret (lrc20, spark, sigs @ ds))
     | SparkFreeze _ \<Rightarrow> throw Panics)"

definition handle_get_data :: "controller_env \<Rightarrow> Inventory list \<Rightarrow> SocketAddr \<Rightarrow> unit controller" where
  "handle_get_data E entries sender =
     sbind (sfold (handle_get_data_entry E) ([], [], []) entries) (\<lambda>(lrc20, spark, sigs).
     sbind (if lrc20 = [] then ret () else call_p2p E (CallLrc20Txs lrc20 sender)) (\<lambda>_.
     sbind (if spark = [] then ret () else call_p2p E (CallSparkTxs spark sender)) (\<lambda>_.
     if sigs = [] then ret () else call_p2p E (CallSparkSignatures sigs sender))))"

definition send_get_data :: "controller_env \<Rightarrow> SocketAddr \<Rightarrow> Inventory list \<Rightarrow> unit controller" where
  "send_get_data E receiver entries = call_p2p E (CallGetData entries receiver)"

fun handle_p2p_msg :: "controller_env \<Rightarrow> ControllerP2PMessage \<Rightarrow> unit controller" where
  "handle_p2p_msg E (P2P_Inv entries sender) = handle_inv E entries sender"
| "handle_p2p_msg E (P2P_GetData entries sender) = handle_get_data E entries sender"
| "handle_p2p_msg E (P2P_Lrc20Tx txs sender) = handle_new_lrc20_txs E txs (Some sender)"
| "handle_p2p_msg E (P2P_SparkTxs txs sender) = handle_new_spark_txs E txs (Some sender) None"
| "handle_p2p_msg E (P2P_SparkSignatureData ds sender) = handle_spark_token_tx_signature ds (Some sender) None"

section \<open>The life of a transaction\<close>

definition is_announcement_kind :: "Lrc20Transaction \<Rightarrow> bool" where
  "is_announcement_kind tx = (case tx_type tx of AnnouncementTx _ \<Rightarrow> True | _ \<Rightarrow> False)"

definition set_mempool_status :: "MempoolStatus \<Rightarrow> txid \<Rightarrow> unit controller" where
  "set_mempool_status st t = write_lrc20 (\<lambda>db. may_fail (update_mempool_tx_status t st db))"

definition handle_mempool_txs :: "controller_env \<Rightarrow> unit controller" where
  "handle_mempool_txs E =
     sbind (read_db (\<lambda>s. Inr (get_mempool (ctl_lib E) (ctl_wire E) (ctl_lrc20 s)))) (\<lambda>entries.
     let for_check = map fst (filter (\<lambda>(tx, st, _). st \<in> {Initialized, Pending}) entries);
         for_attach = map fst (filter (\<lambda>(tx, st, _). st = Attaching) entries);
         for_confirm = map (\<lambda>(tx, _). tx_txid (ctl_lib E) (bitcoin_tx tx))
           (filter (\<lambda>(tx, st, _). st \<notin> {Initialized, Pending, Attaching}) entries) in
     if entries = [] then ret ()
     else
       sbind (if for_check = [] then ret () else emit (ToTxChecker (IsolatedCheck for_check))) (\<lambda>_.
       sbind (if for_attach = [] then ret () else emit (ToGraphBuilder (CheckedTxs for_attach))) (\<lambda>_.
       if for_confirm = [] then ret () else emit (ToTxConfirm (Txs for_confirm)))))"

definition handle_partially_checked_txs :: "txid list \<Rightarrow> unit controller" where
  "handle_partially_checked_txs txids =
     sbind (sfor (set_mempool_status WaitingMined) txids) (\<lambda>_. emit (ToTxConfirm (Txs txids)))"

definition handle_mined_mempool_txs :: "controller_env \<Rightarrow> txid list \<Rightarrow> unit controller" where
  "handle_mined_mempool_txs E txids =
     sfor (\<lambda>t.
       sbind (read_db (\<lambda>s. may_fail (get_mempool_transaction (ctl_lib E) (ctl_wire E) (ctl_lrc20 s) t))) (\<lambda>entry.
       if entry = None then throw (Fails NotInMempool) else set_mempool_status Mined t)) txids"

definition handle_confirmed_txs :: "controller_env \<Rightarrow> txid list \<Rightarrow> unit controller" where
  "handle_confirmed_txs E txids =
     sbind (read_db (\<lambda>s. Inr (get_mempool_by_txids (ctl_lib E) (ctl_wire E) (ctl_lrc20 s) txids))) (\<lambda>entries.
     let txs = map (\<lambda>(tx, _, sender). (tx, sender)) entries in
     emit (ToTxChecker (FullCheck (filter (\<lambda>(tx, _). is_announcement_kind tx) txs @ filter (\<lambda>(tx, _). \<not> is_announcement_kind tx) txs))))"

definition handle_checked_announcements :: "controller_env \<Rightarrow> Lrc20Transaction list \<Rightarrow> unit controller" where
  "handle_checked_announcements E txs =
     sfor (\<lambda>tx. let t = tx_txid (ctl_lib E) (bitcoin_tx tx) in
       sbind (write_lrc20 (Inr \<circ> delete_mempool_entry t)) (\<lambda>_. write_lrc20 (Inr \<circ> set_lrc20_tx_status t Attached))) txs"

definition handle_fully_checked_txs :: "controller_env \<Rightarrow> Lrc20Transaction list \<Rightarrow> unit controller" where
  "handle_fully_checked_txs E txs =
     (let anns = filter is_announcement_kind txs; others = filter (\<lambda>tx. \<not> is_announcement_kind tx) txs in
      sbind (sfor (\<lambda>tx. set_mempool_status Attaching (tx_txid (ctl_lib E) (bitcoin_tx tx))) others) (\<lambda>_.
      sbind (if anns = [] then ret () else handle_checked_announcements E anns) (\<lambda>_.
      if others = [] then ret () else emit (ToGraphBuilder (CheckedTxs others)))))"

definition handle_attached_txs :: "txid list \<Rightarrow> unit controller" where
  "handle_attached_txs txids =
     sfor (\<lambda>t. sbind (write_lrc20 (Inr \<circ> set_lrc20_tx_status t Attached)) (\<lambda>_. write_lrc20 (Inr \<circ> delete_mempool_entry t))) txids"

definition handle_invalid_entry ::
  "controller_env \<Rightarrow> Lrc20Transaction \<times> MempoolStatus \<times> SocketAddr option \<Rightarrow> unit controller" where
  "handle_invalid_entry E = (\<lambda>(tx, _, sender).
     let t = tx_txid (ctl_lib E) (bitcoin_tx tx) in
     sbind (case sender of None \<Rightarrow> ret () | Some a \<Rightarrow> call_p2p E (CallBanPeer a)) (\<lambda>_.
     case tx_type tx of
       Issue _ _ \<Rightarrow> write_lrc20 (Inr \<circ> set_lrc20_tx_status t InvalidIssue)
     | _ \<Rightarrow> write_lrc20 (Inr \<circ> delete_lrc20_transaction t)))"

definition handle_invalid_mempool_txs :: "controller_env \<Rightarrow> txid list \<Rightarrow> unit controller" where
  "handle_invalid_mempool_txs E txids =
     sbind (read_db (\<lambda>s. Inr (get_mempool_by_txids (ctl_lib E) (ctl_wire E) (ctl_lrc20 s) txids))) (\<lambda>entries.
     sbind (write_lrc20 (Inr \<circ> delete_mempool_txs txids)) (\<lambda>_.
     sfor (handle_invalid_entry E) entries))"

definition handle_reorganized_txs :: "txid list \<Rightarrow> u64 \<Rightarrow> unit controller" where
  "handle_reorganized_txs txids height =
     sbind (emit (ToIndexer (IndexerReorganization height))) (\<lambda>_.
     if txids = [] then ret ()
     else sbind (sfor (set_mempool_status WaitingMined) txids) (\<lambda>_. emit (ToTxConfirm (Txs txids))))"

definition handle_checked_spark_txs :: "TokenTransaction list \<Rightarrow> unit controller" where
  "handle_checked_spark_txs txs = (if txs = [] then ret () else emit (ToSparkGraphBuilder (SparkCheckedTxs txs)))"

text \<open>Checked freezes and attached Spark transactions are looked up and logged.\<close>

definition handle_checked_spark_freeze_data :: "TokensFreezeData list \<Rightarrow> unit controller" where
  "handle_checked_spark_freeze_data ds =
     sfor (\<lambda>d. sbind (read_db (\<lambda>s. Inr (is_pubkey_frozen (ctl_lrc20 s) (freeze_owner_public_key d)
       (pubkey (freeze_token_public_key d))))) (\<lambda>_. ret ())) ds"

definition handle_attached_spark_txs :: "controller_env \<Rightarrow> TokenTransaction list \<Rightarrow> unit controller" where
  "handle_attached_spark_txs E txs =
     sfor (\<lambda>tx. sbind (read_db (\<lambda>s. Inr (get_spark_transaction_model_by_hash (ctl_spark s)
       (TokenTransaction_hash (ctl_lib E) tx)))) (\<lambda>_. ret ())) txs"

definition handle_initial_sync_finished :: "controller_env \<Rightarrow> unit controller" where
  "handle_initial_sync_finished E = call_p2p E CallStart"

fun controller_handle_event :: "controller_env \<Rightarrow> ControllerMessage \<Rightarrow> unit controller" where
  "controller_handle_event E (InvalidTxs txids) = handle_invalid_mempool_txs E txids"
| "controller_handle_event E (GetData entries receiver) = send_get_data E receiver entries"
| "controller_handle_event E (AttachedTxs txids) = handle_attached_txs txids"
| "controller_handle_event E (P2P m) = handle_p2p_msg E m"
| "controller_handle_event E (InitializeTxs txs) = handle_new_lrc20_txs E txs None"
| "controller_handle_event E (PartiallyCheckedTxs txids) = handle_partially_checked_txs txids"
| "controller_handle_event E (MinedTxs txids) = handle_mined_mempool_txs E txids"
| "controller_handle_event E (FullyCheckedTxs txs) = handle_fully_checked_txs E txs"
| "controller_handle_event E (ConfirmedTxs txids) = handle_confirmed_txs E txids"
| "controller_handle_event E (Reorganization txids height) = handle_reorganized_txs txids height"
| "controller_handle_event E InitialIndexingFinished = handle_initial_sync_finished E"
| "controller_handle_event E (NewSparkTxs txs callback) = handle_new_spark_txs E txs None callback"
| "controller_handle_event E (NewSparkSignaturesRequest request callback) =
     handle_spark_token_tx_signature request None callback"
| "controller_handle_event E (NewFreezeTokensRequest request) = handle_tokens_freeze_request request None"
| "controller_handle_event E (CheckedSparkTxs txs) = handle_checked_spark_txs txs"
| "controller_handle_event E (CheckedSparkFreezeData ds) = handle_checked_spark_freeze_data ds"
| "controller_handle_event E (AttachedSparkTxs txs) = handle_attached_spark_txs E txs"

text \<open>The loop of the service: messages and ticks of the timer in the order they arrive. An error
  is logged; a panic ends the loop.\<close>

primrec controller_run :: "(controller_env \<times> ControllerMessage option) list \<Rightarrow> Controller \<Rightarrow> Controller" where
  "controller_run [] c = c"
| "controller_run (x # xs) c =
     (let (r, c') = (case x of (E, None) \<Rightarrow> share_inv E | (E, Some m) \<Rightarrow> controller_handle_event E m) c in
      if r = Inl Panics then c' else controller_run xs c')"

section \<open>The mempool\<close>

text \<open>The ids in the tables of transactions and of the mempool are unique, and every entry of the
  mempool has its transaction.\<close>

definition mempool_ok :: "Lrc20Db \<Rightarrow> bool" where
  "mempool_ok db \<longleftrightarrow> lrc20_db_ok db \<and> distinct (map mempool_txid (mempool_transactions db))
     \<and> mempool_txid ` set (mempool_transactions db) \<subseteq> l1_txid ` set (l1_transactions db)"

lemma insert_mempool_ok:
  assumes "mempool_ok db" and "insert_lrc20_transaction L W now tx db = Inr db'"
  shows "mempool_ok db'"
proof (rule insert_lrc20_transaction_row [OF assms(2)])
  let ?m = "\<lambda>n x :: l1_transaction_row. x\<lparr>raw_tx := raw_tx n, l1_status := l1_status n\<rparr>"
  fix bs
  let ?r = "\<lparr>l1_id = next_l1_id db, l1_txid = tx_txid L (bitcoin_tx tx), raw_tx = bs, l1_timestamp = now,
        l1_status = Handling, l1_tx_type = L1TxType_from (tx_type tx)\<rparr>"
  assume rows: "l1_transactions db' = upsert l1_txid ?m ?r (l1_transactions db)"
    and same: "mempool_transactions db' = mempool_transactions db"
  have "lrc20_db_ok db'"
    using assms(1) by (simp add: mempool_ok_def lrc20_db_ok_def rows distinct_upsert)
  moreover have "l1_txid ` set (l1_transactions db') = insert (l1_txid ?r) (l1_txid ` set (l1_transactions db))"
    unfolding rows by (rule keys_upsert) simp
  ultimately show ?thesis
    using assms(1) same unfolding mempool_ok_def by auto
qed

lemma put_mempool_ok:
  assumes "mempool_ok db" and "put_mempool_transaction t sender db = Inr db'"
  shows "mempool_ok db'"
proof -
  obtain r where r: "l1_row db t = Some r"
    using assms(2) by (auto simp: put_mempool_transaction_def rbind_Inr_iff ok_or_def split: option.splits)
  then have "t \<in> l1_txid ` set (l1_transactions db)"
    by (auto simp: l1_row_def find_Some_iff)
  moreover obtain m where "mempool_txid m = t" "db' = db \<or> t \<notin> mempool_txid ` set (mempool_transactions db)
      \<and> db' = db\<lparr>mempool_transactions := mempool_transactions db @ [m]\<rparr>"
  proof
    let ?m = "\<lparr>mempool_id = l1_id r, mempool_txid = t, mempool_status = Initialized,
      mempool_created_at = l1_timestamp r, mempool_sender = sender\<rparr>"
    show "mempool_txid ?m = t" by simp
    show "db' = db \<or> t \<notin> mempool_txid ` set (mempool_transactions db)
        \<and> db' = db\<lparr>mempool_transactions := mempool_transactions db @ [?m]\<rparr>"
      using assms(2) r by (auto simp: put_mempool_transaction_def ok_or_def list_ex_iff split: if_splits)
  qed
  ultimately show ?thesis
    using assms(1) unfolding mempool_ok_def lrc20_db_ok_def by (elim disjE conjE) simp_all
qed

lemma keys_update_first [simp]:
  "map mempool_txid (update_first P (\<lambda>m. m\<lparr>mempool_status := s\<rparr>) ms) = map mempool_txid ms"
  "map l1_txid (update_first Q (\<lambda>r. r\<lparr>l1_status := st\<rparr>) rs) = map l1_txid rs"
  by (simp_all add: map_update_first_key)

lemma mempool_ok_keys:
  assumes "mempool_ok db" and "map l1_txid (l1_transactions db') = map l1_txid (l1_transactions db)"
    and "map mempool_txid (mempool_transactions db') = map mempool_txid (mempool_transactions db)"
  shows "mempool_ok db'"
  using assms by (simp add: mempool_ok_def lrc20_db_ok_def flip: set_map)

lemma update_mempool_ok: "mempool_ok db \<Longrightarrow> update_mempool_tx_status t s db = Inr db' \<Longrightarrow> mempool_ok db'"
  by (erule mempool_ok_keys) (auto simp: update_mempool_tx_status_def rbind_Inr_iff)

lemma set_status_mempool_ok: "mempool_ok db \<Longrightarrow> mempool_ok (set_lrc20_tx_status t s db)"
  by (erule mempool_ok_keys) (simp_all add: set_lrc20_tx_status_def)

lemma delete_mempool_ok: "mempool_ok db \<Longrightarrow> mempool_ok (delete_mempool_txs ts db)"
  by (auto simp: mempool_ok_def lrc20_db_ok_def delete_mempool_txs_def distinct_map_filter)

lemma delete_tx_mempool_ok: "mempool_ok db \<Longrightarrow> mempool_ok (delete_lrc20_transaction t db)"
  by (auto simp: mempool_ok_def lrc20_db_ok_def delete_lrc20_transaction_def delete_where_def Let_def distinct_map_filter)

abbreviation keeps_mempool :: "'a controller \<Rightarrow> bool" where
  "keeps_mempool m \<equiv> keeps (\<lambda>s. mempool_ok (ctl_lrc20 s)) m"

lemma keeps_write_lrc20:
  assumes "\<And>db db'. mempool_ok db \<Longrightarrow> f db = Inr db' \<Longrightarrow> mempool_ok db'"
  shows "keeps_mempool (write_lrc20 f)"
  unfolding write_lrc20_def by (rule keeps_update_or) (auto simp: rbind_Inr_iff err_into_def map_err_def assms split: sum.splits)

lemma keeps_mempool_steps [keeps_intros]:
  "keeps_mempool (emit e)" "keeps_mempool (call_p2p E c)" "keeps_mempool (read_db f)" "keeps_mempool (write_spark g)"
  by (auto simp: emit_def call_p2p_def read_db_def write_spark_def keeps_def update_or_def rbind_def split: sum.splits)

lemma keeps_mempool_writes [keeps_intros]:
  "keeps_mempool (write_lrc20 (Inr \<circ> delete_mempool_entry t))"
  "keeps_mempool (write_lrc20 (Inr \<circ> delete_mempool_txs ts))"
  "keeps_mempool (write_lrc20 (Inr \<circ> set_lrc20_tx_status t ls))"
  "keeps_mempool (write_lrc20 (Inr \<circ> delete_lrc20_transaction t))"
  by (rule keeps_write_lrc20; simp add: delete_mempool_entry_def;
      blast intro: delete_mempool_ok set_status_mempool_ok delete_tx_mempool_ok)+

lemma keeps_mempool_insert [keeps_intros]: "keeps_mempool (write_lrc20 (insert_lrc20_transaction L W now tx))"
  by (rule keeps_write_lrc20) (rule insert_mempool_ok)

lemma keeps_mempool_put [keeps_intros]: "keeps_mempool (write_lrc20 (\<lambda>db. may_fail (put_mempool_transaction t sender db)))"
  by (rule keeps_write_lrc20) (simp add: put_mempool_ok)

lemma keeps_mempool_status [keeps_intros]: "keeps_mempool (set_mempool_status st t)"
  unfolding set_mempool_status_def by (rule keeps_write_lrc20) (simp add: update_mempool_ok)

lemmas controller_handlers = handle_inv_def handle_inv_entry_def handle_get_data_def handle_get_data_entry_def
  handle_new_lrc20_txs_def handle_new_lrc20_tx_def is_tx_exist_def handle_new_spark_txs_def handle_new_spark_tx_def
  handle_spark_token_tx_signature_def handle_tokens_freeze_request_def send_get_data_def share_inv_def
  handle_partially_checked_txs_def handle_mined_mempool_txs_def handle_confirmed_txs_def handle_checked_announcements_def
  handle_fully_checked_txs_def handle_attached_txs_def handle_invalid_entry_def handle_invalid_mempool_txs_def
  handle_reorganized_txs_def handle_checked_spark_txs_def handle_checked_spark_freeze_data_def
  handle_attached_spark_txs_def handle_initial_sync_finished_def

lemma keeps_inventory [keeps_intros]:
  "(\<And>t. keeps P (f t)) \<Longrightarrow> (\<And>h. keeps P (g h)) \<Longrightarrow> (\<And>h. keeps P (k h)) \<Longrightarrow> (\<And>d. keeps P (l d)) \<Longrightarrow>
     keeps P (case i of Ltx t \<Rightarrow> f t | SparkTx h \<Rightarrow> g h | SparkSignatures h \<Rightarrow> k h | SparkFreeze d \<Rightarrow> l d)"
  by (simp split: Inventory.split)

lemma keeps_tx_type [keeps_intros]:
  "(\<And>p a. keeps P (f p a)) \<Longrightarrow> (\<And>p q. keeps P (g p q)) \<Longrightarrow> (\<And>a. keeps P (k a)) \<Longrightarrow> (\<And>p. keeps P (l p)) \<Longrightarrow>
     keeps P (case ty of Issue p a \<Rightarrow> f p a | Transfer p q \<Rightarrow> g p q | AnnouncementTx a \<Rightarrow> k a | SparkExitTx p \<Rightarrow> l p)"
  by (simp split: Lrc20TxType.split)

lemma keeps_mempool_entries [keeps_intros]:
  "keeps_mempool (handle_inv_entry E sender missing i)" "keeps_mempool (handle_new_lrc20_tx E from txs tx)"
  "keeps_mempool (handle_new_spark_tx E stxs stx)"
  unfolding controller_handlers Let_def by (intro keeps_intros)+

lemma keeps_mempool_event: "keeps_mempool (controller_handle_event E m)"
proof (cases m)
  case (P2P p)
  then show ?thesis
    by (cases p; simp only: controller_handle_event.simps handle_p2p_msg.simps controller_handlers case_prod_unfold;
        intro keeps_intros)
qed (simp only: controller_handle_event.simps controller_handlers case_prod_unfold; intro keeps_intros)+


section \<open>New transactions\<close>

lemma write_lrc20_Inr_iff: "write_lrc20 f c = (Inr u, c') \<longleftrightarrow> (\<exists>db. f (ctl_lrc20 c) = Inr db \<and> c' = c\<lparr>ctl_lrc20 := db\<rparr>)"
  by (auto simp: write_lrc20_def update_or_Inr_iff rbind_Inr_iff)

lemma is_tx_exist_Inr_iff:
  "is_tx_exist E t c = (Inr r, c') \<longleftrightarrow> c' = c \<and> get_lrc20_transaction_by_id (ctl_lib E) (ctl_wire E) (ctl_lrc20 c) t = Inr r"
  by (auto simp: is_tx_exist_def read_db_def)

lemma handle_new_lrc20_txs_fresh:
  assumes "get_lrc20_transaction_by_id (ctl_lib E) (ctl_wire E) (ctl_lrc20 c) (tx_txid (ctl_lib E) (bitcoin_tx tx)) = Inr None"
  shows "handle_new_lrc20_txs E [tx] sender c = (Inr u, c') \<longleftrightarrow>
    (\<exists>db db'. insert_lrc20_transaction (ctl_lib E) (ctl_wire E) (ctl_clock E) tx (ctl_lrc20 c) = Inr db
       \<and> put_mempool_transaction (tx_txid (ctl_lib E) (bitcoin_tx tx)) sender db = Inr db'
       \<and> c' = c\<lparr>ctl_lrc20 := db', outbox := outbox c @ [ToTxChecker (IsolatedCheck [tx])]\<rparr>)"
  using assms
  by (auto simp: handle_new_lrc20_txs_def handle_new_lrc20_tx_def sbind_Inr_iff is_tx_exist_Inr_iff write_lrc20_Inr_iff
      Let_def emit_def)

definition example_controller_env :: controller_env where
  "example_controller_env = \<lparr>ctl_lib = lib0, ctl_wire = wire0 tx0, ctl_clock = 5, p2p_takes = \<lambda>_. True,
     spark_created_at = \<lambda>_. 0\<rparr>"

definition example_transfer :: Lrc20Transaction where
  "example_transfer = \<lparr>bitcoin_tx = tx0, tx_type = Transfer [] []\<rparr>"

lemma example_transfer_inserted:
  obtains db r where "insert_lrc20_transaction lib0 (wire0 tx0) 5 example_transfer Lrc20Db_empty = Inr db"
    "l1_transactions db = [r]" "l1_txid r = tx_txid lib0 tx0" "mempool_transactions db = []"
proof -
  obtain bs where "Lrc20Transaction_encode lib0 (wire0 tx0) example_transfer = Inr bs"
    using Lrc20Transaction_reads_back [of "wire0 tx0" example_transfer lib0]
    by (auto simp: reads_back_def wf_proof_map_def wf_btree_def example_transfer_def)
  then obtain db where db: "insert_lrc20_transaction lib0 (wire0 tx0) 5 example_transfer Lrc20Db_empty = Inr db"
    by (simp add: insert_lrc20_transaction_def insert_l1_row_def create_lrc20_transaction_model_def insert_proofs_def
        create_proof_models_def stored_proofs_def insert_announcement_def stored_announcement_def example_transfer_def)
  show thesis
    by (rule insert_lrc20_transaction_row [OF db])
      (rule that [OF db], auto simp: upsert_def Lrc20Db_empty_def example_transfer_def)
qed



section \<open>Requests for freezes\<close>

text \<open>C40. A peer that requests the data of a freeze stops the controller: the handler panics before
  it answers, and none of the messages and ticks that follow changes the tables or sends anything.\<close>

theorem freeze_request_stops_controller:
  "controller_run ((E, Some (P2P (P2P_GetData (SparkFreeze d # entries) sender))) # xs) c = c"
  by (simp add: handle_get_data_def handle_get_data_entry_def)


end
