(* ===== verification/Spec2Isabelle.thy ===== *)
theory Spec2Isabelle
  imports Consensus Isolated_Checks Graph_Builder Spark_Storage Indexer Tx_Confirm Tx_Checker Controller
begin

text \<open>
  Verification of the LRC20 node (buildonspark/lrc20, crates/).

  \<^bold>\<open>The program.\<close> An LRC20 transaction is a Bitcoin transaction with receipt proofs for its
  inputs and outputs, or an announcement in an OP_RETURN output. A node learns of transactions from
  peers, from its RPC server and from the blocks it indexes. The controller stores each of them and
  sends it through the isolated check, the confirmation of its block, the full check and the graph
  builder, which attaches it when its parents are attached. Spark token transactions take a shorter way
  over the controller, the checker and the signatures of the operators. The services exchange messages
  over an event bus and share one database.

  \<^bold>\<open>Theories and sources.\<close>
  \<^item> Prelude: results with errors and panics, loops, maps, bytes and words shared by all theories.
  \<^item> Effects: programs with a state and errors, for the services that change the storage before they
    fail, and the rules for what a program keeps on every outcome.
  \<^item> Bitcoin_Lib: the data of the packages bitcoin and secp256k1. Their functions are the fields of the
    record lib, an argument of what uses them; what is relied on (valid_key, tweaks_agree) is a named
    hypothesis, and lib0 is an instance that satisfies it.
  \<^item> Receipt, Proof: crates/receipts (receipts, keys, the eight kinds of proof and their checks).
  \<^item> Announcements, Transactions: crates/types/src/announcements and transactions (parsers, writers,
    scripts).
  \<^item> Consensus: the encoders and decoders of crates/receipts and crates/types, over the record wire for
    the encodings of the package bitcoin; lawful_wire is its contract and wire0 an instance.
  \<^item> Isolated_Checks: crates/tx-check/src/isolated_checks.rs and script_parser.rs.
  \<^item> Tx_Checker: crates/tx-check/src/service.rs, the checks against the storage.
  \<^item> Graph_Builder: crates/tx-attach/src/lib.rs.
  \<^item> Spark: crates/types/src/spark (data, hashes, signatures). Messages: crates/types/src/messages.
  \<^item> Tx_Confirm: crates/tx-confirm/src/lib.rs. Indexer: crates/indexers, the loader and its workers as a
    step relation and the sub-indexers.
  \<^item> Spark_Storage, Lrc20_Storage: crates/storage, every table as a list of rows with the keys of the
    migrations, every query and update as a function.
  \<^item> Controller: crates/controller/src/handler.rs, with the loop over messages and ticks.

  \<^bold>\<open>State and operations.\<close> A struct is a record and an enum a datatype with the constructors of the
  source; a method is a function of the same name, suffixed or renamed where names clash. A HashMap is
  an association list, a BTreeMap an ascending one. Integers keep their width. An error is a value, and a
  panic is told from an error where the code can panic. A database transaction that fails leaves the
  tables as they were; a handler that fails leaves what it did before.

  \<^bold>\<open>What the lemmas show.\<close>
  \<^item> Encodings: round trips of receipts, announcements, proofs, transactions and batches, that the
    encoding of proofs is prefix-free, and the inputs on which the code does not read back what it wrote.
  \<^item> Checks: exact conditions under which transfers and issues pass the isolated check; what the search
    for an owner guarantees; that a batch of Spark transactions has no double spend and conserves every
    token; that the conservation rule equals a reference with unbounded sums.
  \<^item> Graph builder: what is attached had its parents attached, and whatever can be attached is; the
    cleanup ends. Confirmation and indexing: depths, reorganisations, order and completeness of blocks.
  \<^item> Storage: both stores implement a map (one locale keyed_store, interpreted on both); the constraints
    of the tables are kept by every update.
  \<^item> Controller: the mempool stays consistent with the table of transactions under any sequence of
    messages. This theory composes it with the storage and the checker.

  \<^bold>\<open>Bounds and fuel.\<close> No definition takes fuel. Loops of the source are structural recursion on what
  they iterate over, or functions with a termination proof: the queue of the graph builder and its
  cleanup end because every round removes an entry of a finite map. The loader and its workers, which
  may interleave freely, are a step relation, and loader_never_stuck bounds its steps.

  \<^bold>\<open>Not modelled.\<close> The Spark graph builder (crates/tx-attach/src/spark.rs); the peer-to-peer protocol,
  the RPC server, the Bitcoin client and the event bus, which are input and output around the handlers
  (what the handlers ask of them is a parameter or an entry of a list of sent messages); the wallet
  (dev-kit, bindings-kit) and the vendored bdk; bulletproofs, a feature that is off by default; generated
  code and migrations; the applications. The consensus encoding of inventories and Spark batches, the
  page of withdrawn leaves and the select loops of services other than the controller are left out as
  well. The update of the freeze flag of a Spark output without a primary key is a parameter, since its
  effect is the mapper's.
\<close>

section \<open>Issues: from the controller to the full check\<close>

lemma put_mempool_keeps_rows:
  "put_mempool_transaction t sender db = Inr db' \<Longrightarrow> l1_transactions db' = l1_transactions db
     \<and> announcement_tables db' = announcement_tables db"
  by (auto simp: put_mempool_transaction_def rbind_Inr_iff split: if_splits)

lemma get_by_id_cong:
  "l1_transactions db' = l1_transactions db \<Longrightarrow> get_lrc20_transaction_by_id L W db' = get_lrc20_transaction_by_id L W db"
  by (simp add: get_lrc20_transaction_by_id_def fun_eq_iff)

lemma new_tx_stored:
  assumes "lrc20_db_ok (ctl_lrc20 c)" and "readable (ctl_lib E) (ctl_wire E) tx"
    and fresh: "get_lrc20_transaction_by_id (ctl_lib E) (ctl_wire E) (ctl_lrc20 c) (tx_txid (ctl_lib E) (bitcoin_tx tx)) = Inr None"
    and "handle_new_lrc20_txs E [tx] sender c = (Inr (), c')"
  shows "get_lrc20_transaction_by_id (ctl_lib E) (ctl_wire E) (ctl_lrc20 c') (tx_txid (ctl_lib E) (bitcoin_tx tx)) = Inr (Some tx)"
proof -
  obtain db db' where d: "insert_lrc20_transaction (ctl_lib E) (ctl_wire E) (ctl_clock E) tx (ctl_lrc20 c) = Inr db"
    "put_mempool_transaction (tx_txid (ctl_lib E) (bitcoin_tx tx)) sender db = Inr db'" "ctl_lrc20 c' = db'"
    using assms(4) handle_new_lrc20_txs_fresh [OF fresh] by auto
  have "get_lrc20_transaction_by_id (ctl_lib E) (ctl_wire E) db (tx_txid (ctl_lib E) (bitcoin_tx tx)) = Inr (Some tx)"
    using insert_lrc20_transaction_get [OF assms(1,2) d(1)] by simp
  then show ?thesis
    using get_by_id_cong [of db' db] put_mempool_keeps_rows [OF d(2)] d(3) by simp
qed

text \<open>C20. The controller stores an issue before it is checked, and the check of an issue that is
  stored succeeds without a look at its inputs or at the supply. So a new issue that the
  controller has taken is never rejected by the full check, whoever owns the token, whatever the
  Bitcoin node answers and whatever the maximal supply is.\<close>

theorem new_issue_never_rejected:
  assumes "lrc20_db_ok (ctl_lrc20 c)" and "readable (ctl_lib E) (ctl_wire E) tx" and "tx_type tx = Issue ps a"
    and "get_lrc20_transaction_by_id (ctl_lib E) (ctl_wire E) (ctl_lrc20 c) (tx_txid (ctl_lib E) (bitcoin_tx tx)) = Inr None"
    and "handle_new_lrc20_txs E [tx] sender c = (Inr (), c')"
    and "the_lib E' = ctl_lib E" and "the_wire E' = ctl_wire E" and "lrc20_db s = ctl_lrc20 c'"
  shows "check_issue_announcement E' tx a s = (Inr True, s)
    \<and> fst (check_lrc20_transaction E' tx sender accepted missing s) \<noteq> Inr (False, w, missing')"
proof -
  have "lrc20_tx_by_id E' (tx_txid (the_lib E') (bitcoin_tx tx)) s = (Inr (Some tx), s)"
    using new_tx_stored [OF assms(1,2,4,5)] assms(6-8) by (simp add: lrc20_tx_by_id_def storage_def may_fail_def map_err_def)
  then have "check_issue_announcement E' tx a s = (Inr True, s)"
    by (simp add: check_issue_announcement_def)
  then show ?thesis
    by (auto simp: check_lrc20_transaction_def assms(3) check_issuance_def sbind_def update_or_def split: prod.splits sum.splits)
qed

lemma insert_l1_row_find:
  assumes ins: "insert_lrc20_transaction L W now tx db = Inr db'"
    and none: "l1_row db (tx_txid L (bitcoin_tx tx)) = None"
    and old: "list_all (\<lambda>r. l1_timestamp r < now) (l1_transactions db)"
  obtains r where "l1_row db' (tx_txid L (bitcoin_tx tx)) = Some r" "l1_timestamp r = now"
    "\<And>t r'. t \<noteq> tx_txid L (bitcoin_tx tx) \<Longrightarrow> l1_row db' t = Some r' \<Longrightarrow> l1_timestamp r' < now"
proof (rule insert_lrc20_transaction_row [OF ins])
  fix bs
  let ?r = "\<lparr>l1_id = next_l1_id db, l1_txid = tx_txid L (bitcoin_tx tx), raw_tx = bs, l1_timestamp = now,
        l1_status = Handling, l1_tx_type = L1TxType_from (tx_type tx)\<rparr>"
  assume rows: "l1_transactions db' = upsert l1_txid (\<lambda>n x. x\<lparr>raw_tx := raw_tx n, l1_status := l1_status n\<rparr>)
       ?r (l1_transactions db)"
  have get: "l1_row db' t = (if t = tx_txid L (bitcoin_tx tx) then Some ?r else l1_row db t)" for t
    using none by (simp add: l1_row_def rows find_upsert)
  show thesis
  proof (rule that [of ?r])
    show "l1_timestamp r' < now" if "t \<noteq> tx_txid L (bitcoin_tx tx)" "l1_row db' t = Some r'" for t r'
      using that old unfolding get by (auto simp: l1_row_def find_Some_iff list_all_iff)
  qed (simp_all add: get)
qed

definition example_issue_btc :: Transaction where
  "example_issue_btc = \<lparr>tx_version = 2, tx_lock_time = 0, tx_input = [], tx_output = [\<lparr>txout_value = 1000, script_pubkey = []\<rparr>]\<rparr>"

definition example_issuance :: IssueAnnouncement where
  "example_issuance = \<lparr>issue_token_pubkey = TokenPubkey (PublicKey 7), issue_amount = 5\<rparr>"

definition example_issue_tx :: Lrc20Transaction where
  "example_issue_tx = \<lparr>bitcoin_tx = example_issue_btc, tx_type = Issue (Some [(0, Sig \<lparr>
     sig_receipt = \<lparr>token_amount = \<lparr>amount = 5, blinding_factor = 0\<rparr>, token_pubkey = TokenPubkey (PublicKey 7)\<rparr>,
     sig_inner_key = PublicKey 3, sig_metadata = None\<rparr>)]) example_issuance\<rparr>"

definition issue_controller_env :: controller_env where
  "issue_controller_env = \<lparr>ctl_lib = lib0, ctl_wire = wire0 example_issue_btc, ctl_clock = 5, p2p_takes = \<lambda>_. True,
     spark_created_at = \<lambda>_. 0\<rparr>"

definition issue_checker_env :: checker_env where
  "issue_checker_env = example_checker_env\<lparr>the_lib := lib0, the_wire := wire0 example_issue_btc\<rparr>"

lemma example_issue_readable: "readable lib0 (wire0 example_issue_btc) example_issue_tx"
  by (rule wf_readable)
    (simp_all add: example_issue_tx_def example_issuance_def wf_proof_map_def wf_btree_def wf_receipt_def wf_metadata_def)

lemma example_issue_taken:
  obtains c where "handle_new_lrc20_txs issue_controller_env [example_issue_tx] None
    (Controller_new Lrc20Db_empty SparkDb_empty []) = (Inr (), c)"
proof -
  obtain bs where "Lrc20Transaction_encode lib0 (wire0 example_issue_btc) example_issue_tx = Inr bs"
    using example_issue_readable by (auto simp: readable_def split: sum.splits)
  then obtain db where db: "insert_lrc20_transaction lib0 (wire0 example_issue_btc) 5 example_issue_tx Lrc20Db_empty = Inr db"
    by (simp add: insert_lrc20_transaction_def insert_l1_row_def create_lrc20_transaction_model_def insert_proofs_def
        create_proof_models_def stored_proofs_def insert_announcement_def stored_announcement_def example_issue_tx_def
        example_issue_btc_def insert_announcement_model_def insert_announcement_row_def upsert_def require_def
        model_txid_def create_issue_announcement_model_def may_fail_def map_err_def Let_def Lrc20Db_empty_def list_ex_iff)
  have "l1_row Lrc20Db_empty t = None" "list_all (\<lambda>r. l1_timestamp r < 5) (l1_transactions Lrc20Db_empty)" for t
    by (simp_all add: l1_row_def Lrc20Db_empty_def)
  then have "\<exists>r. l1_row db (tx_txid lib0 (bitcoin_tx example_issue_tx)) = Some r"
    using insert_l1_row_find [OF db] by metis
  then obtain r where "l1_row db (tx_txid lib0 example_issue_btc) = Some r"
    by (auto simp: example_issue_tx_def)
  then obtain db' where "put_mempool_transaction (tx_txid lib0 example_issue_btc) None db = Inr db'"
    by (simp add: put_mempool_transaction_def ok_or_def)
  moreover have "get_lrc20_transaction_by_id lib0 (wire0 example_issue_btc) Lrc20Db_empty t = Inr None" for t
    by (simp add: get_lrc20_transaction_by_id_def Lrc20Db_empty_def)
  ultimately show thesis
    using db that handle_new_lrc20_txs_fresh [of issue_controller_env "Controller_new Lrc20Db_empty SparkDb_empty []"
        example_issue_tx None "()"]
    by (auto simp: issue_controller_env_def Controller_new_def example_issue_tx_def)
qed

theorem new_issue_never_rejected_witness:
  "\<exists>c. handle_new_lrc20_txs issue_controller_env [example_issue_tx] None (Controller_new Lrc20Db_empty SparkDb_empty []) = (Inr (), c)
   \<and> fst (check_issue_announcement issue_checker_env example_issue_tx example_issuance
       (TxChecker_new (ctl_lrc20 c) SparkDb_empty False 10)) = Inr True"
proof -
  obtain c where c: "handle_new_lrc20_txs issue_controller_env [example_issue_tx] None
      (Controller_new Lrc20Db_empty SparkDb_empty []) = (Inr (), c)"
    by (rule example_issue_taken)
  let ?s = "TxChecker_new (ctl_lrc20 c) SparkDb_empty False 10"
  have r: "readable (ctl_lib issue_controller_env) (ctl_wire issue_controller_env) example_issue_tx"
    by (simp add: issue_controller_env_def example_issue_readable)
  have "check_issue_announcement issue_checker_env example_issue_tx example_issuance ?s = (Inr True, ?s)"
    by (rule new_issue_never_rejected [OF _ r _ _ c, THEN conjunct1])
      (simp_all add: Controller_new_def lrc20_db_ok_def issue_controller_env_def issue_checker_env_def
        TxChecker_new_def get_lrc20_transaction_by_id_def Lrc20Db_empty_def example_issue_tx_def)
  with c show ?thesis by simp
qed

section \<open>Owners: what the storage reports\<close>

lemma sort_key_smallest_last:
  "\<forall>y \<in> set ys. k x < k y \<Longrightarrow> sort_key k (ys @ [x]) = x # sort_key k ys" for k :: "'a \<Rightarrow> int"
proof (induction ys)
  case (Cons a ys)
  then have "\<not> k a \<le> k x" by simp
  with Cons show ?case by simp
qed simp

lemma find_upsert_replace: "find (\<lambda>x. fst x = t) (upsert fst (\<lambda>n x. n) (t, v) rs) = Some (t, v)"
  by (induction rs) (auto simp: upsert_def)

lemma insert_transfer_ownership:
  assumes ins: "insert_lrc20_transaction L W now tx db = Inr db'" and ty: "tx_type tx = AnnouncementTx (TransferOwnershipA a)"
    and none: "\<not> list_ex (\<lambda>r. an_txid r = tx_txid L (bitcoin_tx tx)) (announcements (announcement_tables db))"
  shows "announcements (announcement_tables db') = announcements (announcement_tables db)
      @ [\<lparr>an_txid = tx_txid L (bitcoin_tx tx), an_token_pubkey = TokenPubkey_to_bytes (to_token_pubkey a), an_type = TyTransferOwnership\<rparr>]"
    and "find (\<lambda>r. fst r = tx_txid L (bitcoin_tx tx)) (transfer_ownership_announcements (announcement_tables db'))
      = Some (tx_txid L (bitcoin_tx tx), new_owner a)"
proof -
  obtain db1 db2 where d: "insert_l1_row L W now tx db = Inr db1" "insert_proofs L tx db1 = Inr db2"
      "insert_announcement (tx_txid L (bitcoin_tx tx)) (tx_type tx) db2 = Inr db'"
    using ins by (auto simp: insert_lrc20_transaction_def rbind_Inr_iff)
  have same: "announcement_tables db2 = announcement_tables db"
    using d(1,2) by (auto simp: insert_l1_row_def insert_proofs_def rbind_Inr_iff Let_def)
  obtain as where as: "insert_announcement_model (TransferOwnershipModel (tx_txid L (bitcoin_tx tx), new_owner a))
      (insert_announcement_row (tx_txid L (bitcoin_tx tx)) (to_token_pubkey a) TyTransferOwnership (announcement_tables db)) = Inr as"
    "announcement_tables db' = as"
    using d(3) by (auto simp: insert_announcement_def stored_announcement_def ty Let_def rbind_Inr_iff same
        create_transfer_ownership_announcement_model_def)
  have tables: "announcement_tables db' = (insert_announcement_row (tx_txid L (bitcoin_tx tx)) (to_token_pubkey a)
      TyTransferOwnership (announcement_tables db))\<lparr>transfer_ownership_announcements :=
        upsert fst (\<lambda>n x. n) (tx_txid L (bitcoin_tx tx), new_owner a) (transfer_ownership_announcements (announcement_tables db))\<rparr>"
    using as(1) unfolding as(2) by (auto simp: insert_announcement_model_def insert_announcement_row_def rbind_Inr_iff)
  show "announcements (announcement_tables db') = announcements (announcement_tables db)
      @ [\<lparr>an_txid = tx_txid L (bitcoin_tx tx), an_token_pubkey = TokenPubkey_to_bytes (to_token_pubkey a), an_type = TyTransferOwnership\<rparr>]"
    using none by (simp add: tables insert_announcement_row_def upsert_def)
  show "find (\<lambda>r. fst r = tx_txid L (bitcoin_tx tx)) (transfer_ownership_announcements (announcement_tables db'))
      = Some (tx_txid L (bitcoin_tx tx), new_owner a)"
    by (simp add: tables find_upsert_replace)
qed

lemma last_announcement_newest:
  assumes anns: "announcements (announcement_tables db) = as @ [x]"
    and x: "an_token_pubkey x = TokenPubkey_to_bytes token" "an_type x = ty"
    and row: "l1_row db (an_txid x) = Some r"
    and newest: "\<forall>y \<in> set as. \<forall>r'. l1_row db (an_txid y) = Some r' \<longrightarrow> l1_timestamp r' < l1_timestamp r"
  shows "last_announcement_row db token ty = Some x"
proof -
  let ?P = "\<lambda>a. l1_row db (an_txid a) \<noteq> None"
  let ?ys = "filter ?P (filter (\<lambda>a. an_token_pubkey a = TokenPubkey_to_bytes token \<and> an_type a = ty) as)"
  let ?k = "\<lambda>a. - l1_timestamp (the (l1_row db (an_txid a)))"
  have "filter ?P (announcement_rows_of db token ty) = ?ys @ [x]"
    using x row by (simp add: announcement_rows_of_def anns)
  moreover have "\<forall>y \<in> set ?ys. ?k x < ?k y"
    using newest row by auto
  then have "sort_key ?k (?ys @ [x]) = x # sort_key ?k ?ys"
    by (rule sort_key_smallest_last)
  ultimately show ?thesis
    by (simp only: last_announcement_row_def list.case)
qed

text \<open>C21. A transfer of ownership takes effect when the controller stores it, before any check: the
  owner the storage reports for the token, against which the announcement itself and everything that
  follows are checked, is the new owner it names, whoever sent it.\<close>

theorem ownership_transfer_takes_effect_unchecked:
  assumes "tx_type tx = AnnouncementTx (TransferOwnershipA a)"
    and fresh: "get_lrc20_transaction_by_id (ctl_lib E) (ctl_wire E) (ctl_lrc20 c) (tx_txid (ctl_lib E) (bitcoin_tx tx)) = Inr None"
    and none: "\<not> list_ex (\<lambda>r. an_txid r = tx_txid (ctl_lib E) (bitcoin_tx tx)) (announcements (announcement_tables (ctl_lrc20 c)))"
    and old: "list_all (\<lambda>r. l1_timestamp r < ctl_clock E) (l1_transactions (ctl_lrc20 c))"
    and run: "handle_new_lrc20_txs E [tx] sender c = (Inr (), c')"
    and "get_token_pubkey_info (ctl_lib E) (ctl_lrc20 c') (to_token_pubkey a) = Inr (Some i)"
  shows "info_owner i = Some (new_owner a)"
proof -
  let ?t = "tx_txid (ctl_lib E) (bitcoin_tx tx)"
  obtain db db' where d: "insert_lrc20_transaction (ctl_lib E) (ctl_wire E) (ctl_clock E) tx (ctl_lrc20 c) = Inr db"
    "put_mempool_transaction ?t sender db = Inr db'" "ctl_lrc20 c' = db'"
    using run handle_new_lrc20_txs_fresh [OF fresh] by auto
  note same = put_mempool_keeps_rows [OF d(2)]
  have absent: "l1_row (ctl_lrc20 c) ?t = None"
    using fresh by (auto simp: get_lrc20_transaction_by_id_def l1_row_def rbind_Inr_iff split: option.splits)
  obtain r where r: "l1_row db ?t = Some r" "l1_timestamp r = ctl_clock E"
    "\<And>t r'. t \<noteq> ?t \<Longrightarrow> l1_row db t = Some r' \<Longrightarrow> l1_timestamp r' < ctl_clock E"
    using insert_l1_row_find [OF d(1) absent old] by blast
  note own = insert_transfer_ownership [OF d(1) assms(1) none]
  have "last_announcement_row db (to_token_pubkey a) TyTransferOwnership =
      Some \<lparr>an_txid = ?t, an_token_pubkey = TokenPubkey_to_bytes (to_token_pubkey a), an_type = TyTransferOwnership\<rparr>"
    by (rule last_announcement_newest [OF own(1), of _ _ r]) (use r none in \<open>auto simp: list_ex_iff\<close>)
  moreover have "last_announcement_row db' = last_announcement_row db"
    using same by (simp add: fun_eq_iff last_announcement_row_def l1_row_def announcement_rows_of_def)
  ultimately show ?thesis
    using assms(6) own(2) same
    by (auto simp: d(3) get_token_pubkey_info_def Let_def rbind_Inr_iff split: option.splits)
qed

definition example_token_db :: Lrc20Db where
  "example_token_db = Lrc20Db_empty\<lparr>
     l1_transactions := [\<lparr>l1_id = 0, l1_txid = 1, raw_tx = [], l1_timestamp = 1, l1_status = Attached, l1_tx_type = L1Announcement\<rparr>],
     announcement_tables := (announcement_tables Lrc20Db_empty)\<lparr>
       announcements := [\<lparr>an_txid = 1, an_token_pubkey = TokenPubkey_to_bytes (TokenPubkey (PublicKey 7)), an_type = TyTokenPubkey\<rparr>],
       token_pubkey_announcements := [\<lparr>tpr_txid = 1, tpr_name = [], tpr_symbol = [], tpr_decimal = 0,
         tpr_max_supply = to_be_bytes (100 :: u128), tpr_is_freezable = False\<rparr>]\<rparr>\<rparr>"

definition example_takeover :: Lrc20Transaction where
  "example_takeover = \<lparr>bitcoin_tx = tx0, tx_type = AnnouncementTx (TransferOwnershipA
     \<lparr>to_token_pubkey = TokenPubkey (PublicKey 7), new_owner = [1, 2]\<rparr>)\<rparr>"

lemma example_takeover_inserted:
  assumes "Lrc20Transaction_encode lib0 (wire0 tx0) example_takeover = Inr bs"
  shows "insert_lrc20_transaction lib0 (wire0 tx0) 5 example_takeover example_token_db = Inr (example_token_db\<lparr>
     next_l1_id := 1,
     l1_transactions := l1_transactions example_token_db
       @ [\<lparr>l1_id = 0, l1_txid = 0, raw_tx = bs, l1_timestamp = 5, l1_status = Handling, l1_tx_type = L1Announcement\<rparr>],
     announcement_tables := (announcement_tables example_token_db)\<lparr>
       announcements := announcements (announcement_tables example_token_db)
         @ [\<lparr>an_txid = 0, an_token_pubkey = TokenPubkey_to_bytes (TokenPubkey (PublicKey 7)), an_type = TyTransferOwnership\<rparr>],
       transfer_ownership_announcements := [(0, [1, 2])]\<rparr>\<rparr>)"
proof -
  have "tx_txid lib0 tx0 = 0" by (simp add: lib0_def tx0_def)
  with assms show ?thesis
    by (simp add: insert_lrc20_transaction_def insert_l1_row_def create_lrc20_transaction_model_def insert_proofs_def
        create_proof_models_def stored_proofs_def insert_announcement_def stored_announcement_def
        example_takeover_def example_token_db_def Lrc20Db_empty_def L1TxType_from_def
        insert_announcement_model_def insert_announcement_row_def upsert_def require_def create_transfer_ownership_announcement_model_def
        model_txid_def may_fail_def map_err_def Let_def)
qed

lemma example_takeover_run:
  obtains c i where
    "handle_new_lrc20_txs example_controller_env [example_takeover] None (Controller_new example_token_db SparkDb_empty []) = (Inr (), c)"
    "get_token_pubkey_info lib0 (ctl_lrc20 c) (TokenPubkey (PublicKey 7)) = Inr (Some i)"
proof -
  have t: "tx_txid lib0 (bitcoin_tx example_takeover) = 0" by (simp add: lib0_def tx0_def example_takeover_def)
  obtain bs where bs: "Lrc20Transaction_encode lib0 (wire0 tx0) example_takeover = Inr bs"
    by (simp add: Lrc20Transaction_encode_def Announcement_encode_def example_takeover_def)
  have "get_lrc20_transaction_by_id lib0 (wire0 tx0) example_token_db 0 = Inr None"
    by (simp add: get_lrc20_transaction_by_id_def example_token_db_def)
  then obtain db where c: "handle_new_lrc20_txs example_controller_env [example_takeover] None (Controller_new example_token_db SparkDb_empty [])
      = (Inr (), (Controller_new example_token_db SparkDb_empty [])\<lparr>ctl_lrc20 := db, outbox := [ToTxChecker (IsolatedCheck [example_takeover])]\<rparr>)"
    and "l1_transactions db = l1_transactions example_token_db
       @ [\<lparr>l1_id = 0, l1_txid = 0, raw_tx = bs, l1_timestamp = 5, l1_status = Handling, l1_tx_type = L1Announcement\<rparr>]"
    and "announcement_tables db = (announcement_tables example_token_db)\<lparr>
       announcements := announcements (announcement_tables example_token_db)
         @ [\<lparr>an_txid = 0, an_token_pubkey = TokenPubkey_to_bytes (TokenPubkey (PublicKey 7)), an_type = TyTransferOwnership\<rparr>],
       transfer_ownership_announcements := [(0, [1, 2])]\<rparr>"
    using example_takeover_inserted [OF bs] t handle_new_lrc20_txs_fresh [of example_controller_env
        "Controller_new example_token_db SparkDb_empty []" example_takeover None "()"]
    by (auto simp: example_controller_env_def Controller_new_def put_mempool_transaction_def l1_row_def ok_or_def
        example_token_db_def Lrc20Db_empty_def)
  then have "\<exists>i. get_token_pubkey_info lib0 db (TokenPubkey (PublicKey 7)) = Inr (Some i)"
    by (simp add: get_token_pubkey_info_def announcement_rows_of_def l1_row_def example_token_db_def Lrc20Db_empty_def Let_def
        convert_from_token_pubkey_announcement_model_to_announcement_def total_supply_def expect_def)
  then obtain i where "get_token_pubkey_info lib0 db (TokenPubkey (PublicKey 7)) = Inr (Some i)" by blast
  with c that show thesis by fastforce
qed

theorem ownership_transfer_takes_effect_unchecked_witness:
  "\<exists>c i. handle_new_lrc20_txs example_controller_env [example_takeover] None (Controller_new example_token_db SparkDb_empty [])
       = (Inr (), c)
   \<and> get_token_pubkey_info lib0 (ctl_lrc20 c) (TokenPubkey (PublicKey 7)) = Inr (Some i) \<and> info_owner i = Some [1, 2]"
proof -
  obtain c i where run:
    "handle_new_lrc20_txs example_controller_env [example_takeover] None (Controller_new example_token_db SparkDb_empty []) = (Inr (), c)"
    "get_token_pubkey_info lib0 (ctl_lrc20 c) (TokenPubkey (PublicKey 7)) = Inr (Some i)"
    by (rule example_takeover_run)
  let ?a = "\<lparr>to_token_pubkey = TokenPubkey (PublicKey 7), new_owner = [1, 2]\<rparr> :: TransferOwnershipAnnouncement"
  have t: "tx_txid lib0 (bitcoin_tx example_takeover) = 0" by (simp add: lib0_def tx0_def example_takeover_def)
  have "info_owner i = Some (new_owner ?a)"
    by (rule ownership_transfer_takes_effect_unchecked [OF _ _ _ _ run(1)])
      (use run(2) t in \<open>simp_all add: example_takeover_def example_controller_env_def Controller_new_def example_token_db_def
        get_lrc20_transaction_by_id_def\<close>)
  with run show ?thesis by auto
qed

end
